(* ===== verification/Prelude.thy ===== *)
theory Prelude
  imports Main "HOL-Library.Word"
begin

text \<open>
  Shared vocabulary of the development: the machine integers of the source as words, the
  exceptions it throws as values of a sum type, big-endian splitting and joining of words, and the
  list lemmas the components share.

  A \<open>std::string\<close> is a \<^typ>\<open>string\<close>; \<open>byte_of_char\<close> and \<open>char_of_byte\<close> are the casts between
  \<open>char\<close> and \<open>uint8_t\<close>.  Time points of the steady clock are natural numbers of nanoseconds.
\<close>

unbundle bit_operations_syntax

named_theorems be_simps "big-endian encoding and decoding"
named_theorems size_simps "sizes of encodings"

type_synonym u8 = "8 word"
type_synonym u16 = "16 word"
type_synonym u32 = "32 word"
type_synonym u64 = "64 word"
type_synonym bytes = "u8 list"
type_synonym time = nat

section \<open>Exceptions as values\<close>

text \<open>
  The exception classes of the daemon.  The standard classes carry their message; the classes of
  \<open>cancellation.hpp\<close> are the control-flow exceptions of an operation, and the last ones are the
  classes of the CBOR layer (\<open>cbor::Error\<close>, \<open>CborEncodingError\<close>) and of the verifier connection.
\<close>

datatype CborEncodingFailure = resource_limit | invalid_structure

datatype exn =
    InvalidArgument string
  | LengthError string
  | LogicError string
  | OverflowError string
  | OutOfRange string
  | RuntimeError string
  | SystemError string
  | OperationCancelled
  | UserActionTimedOut
  | UserInteractionCancelled
  | UserInteractionUnavailable
  | VerificationInfrastructureError
  | CborParseError string
  | CborEncodingError CborEncodingFailure
  | VerifierProtocolError string
  | VerifierConversationError string
  | VerifierSocketError string

type_synonym 'a result = "exn + 'a"

definition is_ok :: "'a result \<Rightarrow> bool" where
  "is_ok r = (case r of Inl _ \<Rightarrow> False | Inr _ \<Rightarrow> True)"

text \<open>The message of an exception: the one it was made with, or the one of its class
  (\<open>cancellation.hpp\<close>).\<close>

fun exn_what :: "exn \<Rightarrow> string" where
  "exn_what (InvalidArgument m) = m"
| "exn_what (LengthError m) = m"
| "exn_what (LogicError m) = m"
| "exn_what (OverflowError m) = m"
| "exn_what (OutOfRange m) = m"
| "exn_what (RuntimeError m) = m"
| "exn_what (SystemError m) = m"
| "exn_what OperationCancelled = ''CTAP operation cancelled''"
| "exn_what UserActionTimedOut = ''User action timed out''"
| "exn_what UserInteractionCancelled = ''User interaction cancelled''"
| "exn_what UserInteractionUnavailable = ''No active vAuth user-interaction agent is registered''"
| "exn_what VerificationInfrastructureError = ''User-verification infrastructure failed''"
| "exn_what (CborParseError m) = m"
| "exn_what (CborEncodingError failure) = ''CBOR response encoding failed''"
| "exn_what (VerifierProtocolError m) = m"
| "exn_what (VerifierConversationError m) = m"
| "exn_what (VerifierSocketError m) = m"

definition cancellation_point :: "bool \<Rightarrow> unit result" where
  "cancellation_point stop = (if stop then Inl OperationCancelled else Inr ())"

definition bind_result :: "'a result \<Rightarrow> ('a \<Rightarrow> 'b result) \<Rightarrow> 'b result" where
  "bind_result r f = (case r of Inl e \<Rightarrow> Inl e | Inr x \<Rightarrow> f x)"

primrec map_result :: "('a \<Rightarrow> 'b result) \<Rightarrow> 'a list \<Rightarrow> 'b list result" where
  "map_result f [] = Inr []"
| "map_result f (x # xs) =
     bind_result (f x) (\<lambda>y. bind_result (map_result f xs) (\<lambda>ys. Inr (y # ys)))"

text \<open>A check that throws when its condition fails to hold.\<close>

definition require :: "bool \<Rightarrow> exn \<Rightarrow> unit result" where
  "require b e = (if b then Inr () else Inl e)"

section \<open>Sorting with a comparison\<close>

text \<open>\<open>std::sort\<close> with a comparison function; where the comparison is a strict total order on the
  elements the sorted list is unique, whatever the algorithm.\<close>

primrec insert_by :: "('a \<Rightarrow> 'a \<Rightarrow> bool) \<Rightarrow> 'a \<Rightarrow> 'a list \<Rightarrow> 'a list" where
  "insert_by before x [] = [x]"
| "insert_by before x (y # ys) = (if before y x then y # insert_by before x ys else x # y # ys)"

definition sort_by :: "('a \<Rightarrow> 'a \<Rightarrow> bool) \<Rightarrow> 'a list \<Rightarrow> 'a list" where
  "sort_by before xs = foldr (insert_by before) xs []"

section \<open>Durations\<close>

definition milliseconds :: "nat \<Rightarrow> time" where
  "milliseconds n = n * 1000000"

definition seconds :: "nat \<Rightarrow> time" where
  "seconds n = n * 1000000000"

section \<open>Characters and bytes\<close>

definition byte_of_char :: "char \<Rightarrow> u8" where
  "byte_of_char c = word_of_nat (of_char c)"

definition char_of_byte :: "u8 \<Rightarrow> char" where
  "char_of_byte b = char_of (unat b)"

section \<open>Big-endian words\<close>

definition be16 :: "u16 \<Rightarrow> bytes" where
  "be16 w = [ucast (drop_bit 8 w AND 0xFF), ucast (w AND 0xFF)]"

definition be32 :: "u32 \<Rightarrow> bytes" where
  "be32 w = [ucast (drop_bit 24 w AND 0xFF), ucast (drop_bit 16 w AND 0xFF),
             ucast (drop_bit 8 w AND 0xFF), ucast (w AND 0xFF)]"

definition of_be16 :: "u8 \<Rightarrow> u8 \<Rightarrow> u16" where
  "of_be16 a b = push_bit 8 (ucast a) OR ucast b"

definition of_be32 :: "u8 \<Rightarrow> u8 \<Rightarrow> u8 \<Rightarrow> u8 \<Rightarrow> u32" where
  "of_be32 a b c d =
     push_bit 24 (ucast a) OR push_bit 16 (ucast b) OR push_bit 8 (ucast c) OR ucast d"

definition be64 :: "u64 \<Rightarrow> bytes" where
  "be64 w = map (\<lambda>shift. ucast (drop_bit shift w)) [56, 48, 40, 32, 24, 16, 8, 0]"

definition of_be64 :: "bytes \<Rightarrow> u64" where
  "of_be64 bs = foldl (\<lambda>v b. push_bit 8 v OR ucast b) 0 bs"

section \<open>Subtraction of sizes\<close>

text \<open>\<open>std::size_t\<close> subtraction wraps at 64 bits.\<close>

definition size_sub :: "nat \<Rightarrow> nat \<Rightarrow> nat" where
  "size_sub a b = unat (word_of_nat a - word_of_nat b :: u64)"

section \<open>Lemmas\<close>

lemma is_ok_simps [simp]: "\<not> is_ok (Inl e)" "is_ok (Inr x)"
  by (simp_all add: is_ok_def)

lemma bind_result_simps [simp]:
  "bind_result (Inl e) f = Inl e" "bind_result (Inr x) f = f x"
  by (simp_all add: bind_result_def)

lemma bind_result_eq_Inr:
  "bind_result r f = Inr y \<longleftrightarrow> (\<exists>x. r = Inr x \<and> f x = Inr y)"
  by (cases r) simp_all

lemma u8_less [simp]: "unat (w :: u8) < 256"
proof -
  have "unat w < 2 ^ LENGTH(8)" by (rule unsigned_less)
  then show ?thesis by simp
qed

lemma u16_less [simp]: "unat (w :: u16) < 65536"
proof -
  have "unat w < 2 ^ LENGTH(16)" by (rule unsigned_less)
  then show ?thesis by simp
qed

lemma set_insert_by [simp]: "set (insert_by before x ys) = insert x (set ys)"
  by (induction ys) auto

lemma set_sort_by [simp]: "set (sort_by before xs) = set xs"
  by (induction xs) (simp_all add: sort_by_def)

lemma length_insert_by [simp]: "length (insert_by before x ys) = Suc (length ys)"
  by (induction ys) auto

lemma length_sort_by [simp]: "length (sort_by before xs) = length xs"
  by (induction xs) (simp_all add: sort_by_def)

lemma distinct_insert_by [simp]: "distinct (insert_by before x ys) \<longleftrightarrow> x \<notin> set ys \<and> distinct ys"
  by (induction ys) auto

lemma distinct_sort_by [simp]: "distinct (sort_by before xs) \<longleftrightarrow> distinct xs"
  by (induction xs) (simp_all add: sort_by_def set_sort_by [unfolded sort_by_def])

lemma sorted_insert_by:
  assumes "transp before" and total: "\<And>y. y \<in> set ys \<Longrightarrow> before x y \<or> before y x"
    and "sorted_wrt before ys"
  shows "sorted_wrt before (insert_by before x ys)"
  using assms(2,3)
proof (induction ys)
  case (Cons y ys)
  show ?case
  proof (cases "before y x")
    case True
    with Cons show ?thesis by simp
  next
    case False
    with Cons.prems have "before x y" by auto
    with Cons.prems False show ?thesis
      using \<open>transp before\<close> by (auto dest: transpD)
  qed
qed simp

lemma sorted_sort_by:
  assumes "transp before" and "distinct xs"
    and "\<And>x y. x \<in> set xs \<Longrightarrow> y \<in> set xs \<Longrightarrow> x \<noteq> y \<Longrightarrow> before x y \<or> before y x"
  shows "sorted_wrt before (sort_by before xs)"
  using assms(2,3)
proof (induction xs)
  case (Cons x xs)
  have "sorted_wrt before (sort_by before xs)" by (rule Cons.IH) (use Cons.prems in auto)
  moreover have "before x y \<or> before y x" if "y \<in> set (sort_by before xs)" for y
    using that Cons.prems by (metis distinct.simps(2) list.set_intros set_sort_by)
  ultimately show ?case
    using sorted_insert_by [OF assms(1)] by (simp add: sort_by_def)
qed (simp add: sort_by_def)

lemma sorted_wrt_unique:
  assumes "transp before" "irreflp before" "sorted_wrt before xs" "sorted_wrt before ys" "set xs = set ys"
  shows "xs = ys"
  using assms(3-5)
proof (induction xs arbitrary: ys)
  case (Cons x xs)
  from Cons.prems obtain y ys' where ys: "ys = y # ys'" by (cases ys) auto
  have irr: "\<not> before a a" for a using assms(2) by (simp add: irreflp_def)
  have "x = y"
  proof (rule ccontr)
    assume "x \<noteq> y"
    then have "before x y" "before y x" using Cons.prems ys by auto
    then show False using assms(1) irr by (meson transpD)
  qed
  moreover have "x \<notin> set xs" "y \<notin> set ys'" using Cons.prems ys irr by auto
  ultimately have "set xs = set ys'" using Cons.prems(3) ys by (simp add: insert_ident)
  with \<open>x = y\<close> Cons ys show ?case by simp
qed simp

lemma u32_less [simp]: "unat (w :: u32) < 4294967296"
proof -
  have "unat w < 2 ^ LENGTH(32)" by (rule unsigned_less)
  then show ?thesis by simp
qed

lemma word_max [simp]:
  "unat (b :: u8) \<le> 255" "\<not> 255 < unat (b :: u8)"
  "unat (w :: u32) \<le> 4294967295" "\<not> 4294967295 < unat (w :: u32)"
  using u8_less [of b] u32_less [of w] by linarith+

lemma unat_ucast_u8_u64 [simp]: "unat (ucast (b :: u8) :: u64) = unat b"
  using less_trans [OF u8_less [of b], of "2 ^ 64"]
  by (simp add: unsigned_ucast_eq take_bit_nat_eq_self)

lemma unat_ucast_u32_u64 [simp]: "unat (ucast (w :: u32) :: u64) = unat w"
  using less_trans [OF u32_less [of w], of "2 ^ 64"]
  by (simp add: unsigned_ucast_eq take_bit_nat_eq_self)

lemma ucast_down_up [simp]:
  "ucast (ucast (b :: u8) :: u64) = b" "ucast (ucast (w :: u32) :: u64) = w"
  by (rule bit_word_eqI; simp add: bit_simps)+

lemma require_simps [simp]: "require True e = Inr ()" "require False e = Inl e"
  by (simp_all add: require_def)

lemma require_eq_Inr [simp]: "require b e = Inr x \<longleftrightarrow> b"
  by (simp add: require_def)

lemma map_result_Inr: "(\<And>x. x \<in> set xs \<Longrightarrow> f x = Inr (g x)) \<Longrightarrow> map_result f xs = Inr (map g xs)"
  by (induction xs) simp_all

lemma char_of_byte_of_char [simp]: "char_of_byte (byte_of_char c) = c"
  by (simp add: char_of_byte_def byte_of_char_def unat_of_nat)

lemma byte_of_char_of_byte [simp]: "byte_of_char (char_of_byte b) = b"
  using u8_less [of b] by (simp add: char_of_byte_def byte_of_char_def)

lemma map_char_of_byte_of_char [simp]: "map (char_of_byte \<circ> byte_of_char) s = s"
  by (induction s) simp_all

lemma map_byte_of_char_of_byte [simp]: "map (byte_of_char \<circ> char_of_byte) bs = bs"
  by (induction bs) simp_all

lemma byte_of_char_eq_iff [simp]: "byte_of_char c = byte_of_char d \<longleftrightarrow> c = d"
  by (metis char_of_byte_of_char)

lemma and_255_eq_take_bit: "w AND 0xFF = take_bit 8 (w :: 'a::len word)"
  by (simp add: take_bit_eq_mask mask_eq_exp_minus_1)

lemma word_bit_bound: "bit (w :: 'a::len word) (m + n) \<Longrightarrow> m + n < LENGTH('a)"
  by (rule bit_imp_le_length)

lemma of_be16_be16 [be_simps]: "of_be16 (be16 w ! 0) (be16 w ! Suc 0) = w"
  by (rule bit_word_eqI) (auto simp: of_be16_def be16_def and_255_eq_take_bit bit_simps)

lemma of_be32_be32 [be_simps]:
  "of_be32 (be32 w ! 0) (be32 w ! Suc 0) (be32 w ! 2) (be32 w ! 3) = w"
proof (rule bit_word_eqI)
  fix n
  assume n: "n < LENGTH(32)"
  have split: "bit (of_be32 (be32 w ! 0) (be32 w ! Suc 0) (be32 w ! 2) (be32 w ! 3)) n \<longleftrightarrow>
      (if n < 8 then bit w n else if n < 16 then bit w (8 + (n - 8))
       else if n < 24 then bit w (16 + (n - 16)) else bit w (24 + (n - 24)))"
    using n by (auto simp: of_be32_def be32_def and_255_eq_take_bit bit_simps)
  then show "bit (of_be32 (be32 w ! 0) (be32 w ! Suc 0) (be32 w ! 2) (be32 w ! 3)) n = bit w n"
    by simp
qed

lemma be16_of_be16 [be_simps]: "be16 (of_be16 a b) = [a, b]"
  by (simp add: of_be16_def be16_def and_255_eq_take_bit)
    (intro conjI bit_word_eqI; auto simp: bit_simps dest: word_bit_bound)

lemma be32_of_be32 [be_simps]: "be32 (of_be32 a b c d) = [a, b, c, d]"
  by (simp add: of_be32_def be32_def and_255_eq_take_bit)
    (intro conjI bit_word_eqI; auto simp: bit_simps dest: word_bit_bound)

lemma length_be [simp, size_simps]: "length (be16 v) = 2" "length (be32 w) = 4" "length (be64 x) = 8"
  by (simp_all add: be16_def be32_def be64_def)

lemma join_byte:
  "push_bit 8 (drop_bit (8 + s) w) OR ucast (ucast (drop_bit s w) :: u8) = drop_bit s (w :: u64)"
proof (rule bit_word_eqI)
  fix n
  assume "n < LENGTH(64)"
  then have "bit (push_bit 8 (drop_bit (8 + s) w) OR ucast (ucast (drop_bit s w) :: u8)) n \<longleftrightarrow>
      (if n < 8 then bit w (s + n) else bit w (8 + s + (n - 8)))"
    by (auto simp: bit_simps)
  then show "bit (push_bit 8 (drop_bit (8 + s) w) OR ucast (ucast (drop_bit s w) :: u8)) n =
      bit (drop_bit s w) n"
    by (simp add: bit_simps)
qed

lemma of_be64_be64 [be_simps]: "of_be64 (be64 w) = w"
  using join_byte [of 56 w] join_byte [of 48 w] join_byte [of 40 w] join_byte [of 32 w]
    join_byte [of 24 w] join_byte [of 16 w] join_byte [of 8 w] join_byte [of 0 w]
  by (simp add: of_be64_def be64_def)

lemma size_sub_eq [simp]: "b \<le> a \<Longrightarrow> a < 2 ^ 64 \<Longrightarrow> size_sub a b = a - b"
proof -
  assume le: "b \<le> a" and a: "a < 2 ^ 64"
  have "(word_of_nat a - word_of_nat b :: u64) = word_of_nat (a - b)"
    using le by (simp add: of_nat_diff)
  then show ?thesis using a by (simp add: size_sub_def unat_of_nat take_bit_nat_eq_self)
qed

end
