(* ===== verification/Hex.thy ===== *)
theory Hex
  imports Prelude
begin

text \<open>
  Hexadecimal text (\<open>encoding/hex.cpp\<close>): credential identifiers are stored and shown as upper-case
  hexadecimal, and read back from text of either case.
\<close>

section \<open>Definitions\<close>

definition string_max_size :: nat where
  "string_max_size = 2 ^ 63 - 2"

definition decode_hex_digit :: "char \<Rightarrow> u8 result" where
  "decode_hex_digit digit =
     (let d = of_char digit :: nat in
      if of_char (CHR ''0'') \<le> d \<and> d \<le> of_char (CHR ''9'') then
        Inr (word_of_nat (d - of_char (CHR ''0'')))
      else if of_char (CHR ''a'') \<le> d \<and> d \<le> of_char (CHR ''f'') then
        Inr (word_of_nat (d - of_char (CHR ''a'') + 10))
      else if of_char (CHR ''A'') \<le> d \<and> d \<le> of_char (CHR ''F'') then
        Inr (word_of_nat (d - of_char (CHR ''A'') + 10))
      else Inl (InvalidArgument ''Invalid hexadecimal character''))"

text \<open>The two digits \<open>sprintf\<close> prints for \<open>%02X\<close>.\<close>

definition upper_hex_digit :: "nat \<Rightarrow> char" where
  "upper_hex_digit n =
     (if n < 10 then char_of (of_char (CHR ''0'') + n) else char_of (of_char (CHR ''A'') + (n - 10)))"

definition format_02X :: "u8 \<Rightarrow> string" where
  "format_02X c = [upper_hex_digit (unat c div 16), upper_hex_digit (unat c mod 16)]"

primrec hex_text :: "bytes \<Rightarrow> string" where
  "hex_text [] = []"
| "hex_text (c # v) = format_02X c @ hex_text v"

definition hex_encode :: "bytes \<Rightarrow> string result" where
  "hex_encode v =
     (if length v > string_max_size div 2 then Inl (LengthError ''Hex-encoded output is too large'')
      else Inr (hex_text v))"

fun hex_decode_loop :: "string \<Rightarrow> bytes result" where
  "hex_decode_loop (a # b # s) =
     bind_result (decode_hex_digit a) (\<lambda>high.
     bind_result (decode_hex_digit b) (\<lambda>low.
     bind_result (hex_decode_loop s) (\<lambda>v.
       Inr ((push_bit 4 high OR low) # v))))"
| "hex_decode_loop _ = Inr []"

definition hex_decode :: "string \<Rightarrow> bytes result" where
  "hex_decode s =
     (if length s mod 2 \<noteq> 0 then Inl (InvalidArgument ''Odd size string is given'')
      else hex_decode_loop s)"

section \<open>Lemmas\<close>

lemma decode_upper_hex_digit:
  "n < 16 \<Longrightarrow> decode_hex_digit (upper_hex_digit n) = Inr (word_of_nat n)"
  by (simp add: decode_hex_digit_def upper_hex_digit_def Let_def)

lemma nibbles_join: "push_bit 4 (word_of_nat (unat c div 16)) OR word_of_nat (unat c mod 16) = (c :: u8)"
proof -
  have "(word_of_nat (unat c div 16) :: u8) = drop_bit 4 c"
    using le_less_trans [OF div_le_dividend u8_less, of c 16]
    by (simp add: word_unat_eq_iff unat_of_nat drop_bit_eq_div unat_div_distrib)
  moreover have "(word_of_nat (unat c mod 16) :: u8) = take_bit 4 c"
    by (rule word_unat_eq_iff [THEN iffD2])
       (simp add: unat_of_nat take_bit_eq_mod unat_mod_distrib)
  ultimately show ?thesis
    by (auto intro!: bit_word_eqI simp: bit_simps)
qed

lemma length_hex_text [simp]: "length (hex_text v) = 2 * length v"
  by (induction v) (simp_all add: format_02X_def)

lemma hex_decode_loop_hex_text: "hex_decode_loop (hex_text v) = Inr v"
  by (induction v) (simp_all add: format_02X_def decode_upper_hex_digit nibbles_join less_mult_imp_div_less)

lemma hex_decode_hex_text [simp]: "hex_decode (hex_text v) = Inr v"
  by (simp add: hex_decode_def hex_decode_loop_hex_text)

lemma hex_text_inject [simp]: "hex_text v = hex_text w \<longleftrightarrow> v = w"
  by (metis Inr_inject hex_decode_hex_text)

lemma hex_decode_loop_length:
  "hex_decode_loop s = Inr v \<Longrightarrow> length v = length s div 2"
  by (induction s arbitrary: v rule: hex_decode_loop.induct)
     (auto simp: bind_result_eq_Inr)

end
