(* ===== verification/Credential.thy ===== *)
theory Credential
  imports Hex "HOL-Library.List_Lexorder" "HOL-Library.Char_ord"
begin

text \<open>
  The credential record, its validation, and its persistent form (\<open>credentials/credential.hpp\<close>,
  \<open>credentials/credential.cpp\<close>): the JSON document of a store and the encrypted envelope around it.
  JSON text and AES-GCM belong to third-party libraries and are arguments (\<open>StoreBackend\<close>); the
  documents themselves and the envelope's layout are modelled.
\<close>

section \<open>Records\<close>

record PublicKeyCredentialDescriptor =
  desc_type :: string
  desc_id :: bytes
  desc_transports :: "string list"

record StoredCredential =
  cred_id :: bytes
  cred_ownerUid :: u32
  cred_rpId :: string
  cred_userId :: bytes
  cred_userName :: string
  cred_userDisplayName :: string
  cred_alg :: int
  cred_signCount :: u32
  cred_private_blob :: bytes
  cred_public_blob :: bytes
  cred_discoverable :: bool
  cred_creationOrder :: u64

record CredentialSummary =
  sum_id :: bytes
  sum_ownerUid :: u32
  sum_rpId :: string
  sum_userName :: string
  sum_userDisplayName :: string
  sum_signCount :: u32
  sum_discoverable :: bool
  sum_creationOrder :: u64

text \<open>The hash map from hexadecimal identifiers to credentials, as the list its iteration visits.\<close>

type_synonym Storage = "(string \<times> StoredCredential) list"

definition STORE_MAGIC :: bytes where
  "STORE_MAGIC = map byte_of_char ''VFIDO2DB''"

definition STORE_FORMAT_VERSION :: u8 where "STORE_FORMAT_VERSION = 1"
definition HEADER_SIZE :: nat where "HEADER_SIZE = 29"
definition TAG_SIZE :: nat where "TAG_SIZE = 16"
definition NONCE_SIZE :: nat where "NONCE_SIZE = 12"
definition MAX_STORE_SIZE :: nat where "MAX_STORE_SIZE = 16 * 1024 * 1024"
definition MAX_CREDENTIALS :: nat where "MAX_CREDENTIALS = 4096"
definition MAX_CREDENTIAL_BLOB_SIZE :: nat where "MAX_CREDENTIAL_BLOB_SIZE = 4096"

section \<open>Validation\<close>

definition validate_credential :: "StoredCredential \<Rightarrow> unit result" where
  "validate_credential c =
     (if length (cred_id c) < 16 \<or> length (cred_id c) > 1024 then
        Inl (InvalidArgument ''Credential ID must contain between 16 and 1024 bytes'')
      else if cred_rpId c = [] \<or> length (cred_rpId c) > 253 then
        Inl (InvalidArgument ''Relying Party ID must contain between 1 and 253 bytes'')
      else if cred_userId c = [] \<or> length (cred_userId c) > 64 then
        Inl (InvalidArgument ''User ID must contain between 1 and 64 bytes'')
      else if cred_alg c \<noteq> -7 then Inl (InvalidArgument ''Unsupported credential algorithm'')
      else if cred_private_blob c = [] \<or> length (cred_private_blob c) > MAX_CREDENTIAL_BLOB_SIZE then
        Inl (InvalidArgument ''Invalid private credential blob size'')
      else if cred_public_blob c = [] \<or> length (cred_public_blob c) > MAX_CREDENTIAL_BLOB_SIZE then
        Inl (InvalidArgument ''Invalid public credential blob size'')
      else if cred_creationOrder c = 0 then
        Inl (InvalidArgument ''Credential creation order must be non-zero'')
      else Inr ())"

section \<open>JSON documents\<close>

text \<open>
  The value type of the JSON library: numbers are unsigned, negative or floating (represented by
  their integral part), objects list their members in key order.
\<close>

datatype json =
    JNull
  | JBool bool
  | JUnsigned u64
  | JInteger int
  | JFloat int
  | JString string
  | JArray "json list"
  | JObject "(string \<times> json) list"

definition json_is_object :: "json \<Rightarrow> bool" where
  "json_is_object j = (case j of JObject _ \<Rightarrow> True | _ \<Rightarrow> False)"

definition json_at :: "json \<Rightarrow> string \<Rightarrow> json result" where
  "json_at j key =
     (case j of
        JObject members \<Rightarrow>
          (case map_of members key of
             Some v \<Rightarrow> Inr v
           | None \<Rightarrow> Inl (OutOfRange ''key not found''))
      | _ \<Rightarrow> Inl (InvalidArgument ''cannot use at()''))"

definition json_get_string :: "json \<Rightarrow> string result" where
  "json_get_string j = (case j of JString s \<Rightarrow> Inr s | _ \<Rightarrow> Inl (InvalidArgument ''type must be string''))"

definition json_get_int :: "json \<Rightarrow> int result" where
  "json_get_int j =
     (case j of
        JUnsigned n \<Rightarrow> Inr (sint (ucast n :: u32))
      | JInteger i \<Rightarrow> Inr (sint (word_of_int i :: u32))
      | JFloat i \<Rightarrow> Inr (sint (word_of_int i :: u32))
      | JBool b \<Rightarrow> Inr (if b then 1 else 0)
      | _ \<Rightarrow> Inl (InvalidArgument ''type must be number''))"

definition json_bytes :: "bytes \<Rightarrow> json" where
  "json_bytes bs = JArray (map (\<lambda>b. JUnsigned (ucast b)) bs)"

definition read_byte :: "string \<Rightarrow> json \<Rightarrow> u8 result" where
  "read_byte field_name element =
     (case element of
        JUnsigned number \<Rightarrow>
          if number > 255 then Inl (RuntimeError (field_name @ '' contains a value above 255''))
          else Inr (ucast number)
      | _ \<Rightarrow> Inl (RuntimeError (field_name @ '' contains a value that is not an unsigned integer'')))"

definition read_byte_array :: "json \<Rightarrow> string \<Rightarrow> bytes result" where
  "read_byte_array entry field_name =
     bind_result (json_at entry field_name) (\<lambda>value.
       case value of
         JArray elements \<Rightarrow>
           if length elements > MAX_CREDENTIAL_BLOB_SIZE then
             Inl (RuntimeError (field_name @ '' exceeds the size limit''))
           else map_result (read_byte field_name) elements
       | _ \<Rightarrow> Inl (RuntimeError (field_name @ '' is not a byte array'')))"

text \<open>A required unsigned member with an upper bound.\<close>

definition read_unsigned :: "json \<Rightarrow> string \<Rightarrow> u64 \<Rightarrow> exn \<Rightarrow> exn \<Rightarrow> u64 result" where
  "read_unsigned entry key limit type_error range_error =
     bind_result (json_at entry key) (\<lambda>value.
       case value of
         JUnsigned n \<Rightarrow> if n > limit then Inl range_error else Inr n
       | _ \<Rightarrow> Inl type_error)"

section \<open>The document of a store\<close>

definition credential_json :: "StoredCredential \<Rightarrow> json result" where
  "credential_json c =
     bind_result (hex_encode (cred_id c)) (\<lambda>id.
     bind_result (hex_encode (cred_userId c)) (\<lambda>user_id.
       Inr (JObject
         [(''alg'', if cred_alg c < 0 then JInteger (cred_alg c) else JUnsigned (word_of_int (cred_alg c))),
          (''creationOrder'', JUnsigned (cred_creationOrder c)),
          (''discoverable'', JBool (cred_discoverable c)),
          (''id'', JString id),
          (''ownerUid'', JUnsigned (ucast (cred_ownerUid c))),
          (''private_blob'', json_bytes (cred_private_blob c)),
          (''public_blob'', json_bytes (cred_public_blob c)),
          (''rpId'', JString (cred_rpId c)),
          (''signCount'', JUnsigned (ucast (cred_signCount c))),
          (''userDisplayName'', JString (cred_userDisplayName c)),
          (''userId'', JString user_id),
          (''userName'', JString (cred_userName c))])))"

definition storage_json :: "Storage \<Rightarrow> json result" where
  "storage_json storage =
     bind_result (map_result credential_json (map snd storage)) (\<lambda>entries. Inr (JArray entries))"

definition parse_entry :: "json \<Rightarrow> StoredCredential result" where
  "parse_entry entry =
     (if json_is_object entry then
          bind_result (bind_result (json_at entry ''id'') json_get_string) (\<lambda>id_text.
          bind_result (hex_decode id_text) (\<lambda>id.
          bind_result (require (16 \<le> length id) (RuntimeError ''Invalid Credential ID'')) (\<lambda>_.
          bind_result (read_unsigned entry ''ownerUid'' 0xFFFFFFFF
            (RuntimeError ''Invalid credential owner UID type'')
            (RuntimeError ''Credential owner UID is out of range'')) (\<lambda>owner_uid.
          bind_result (json_at entry ''discoverable'') (\<lambda>discoverable_value.
          bind_result (case discoverable_value of
              JBool b \<Rightarrow> Inr b
            | _ \<Rightarrow> Inl (RuntimeError ''Invalid discoverable credential type'')) (\<lambda>discoverable.
          bind_result (read_unsigned entry ''creationOrder'' (-1)
            (RuntimeError ''Invalid credential creation order type'')
            (RuntimeError ''Invalid credential creation order'')) (\<lambda>creation_order.
          bind_result (require (creation_order \<noteq> 0)
            (RuntimeError ''Invalid credential creation order'')) (\<lambda>_.
          bind_result (bind_result (json_at entry ''rpId'') json_get_string) (\<lambda>rp_id.
          bind_result (require (rp_id \<noteq> []) (RuntimeError ''Empty Relying Party ID'')) (\<lambda>_.
          bind_result (bind_result (json_at entry ''userId'') json_get_string) (\<lambda>user_text.
          bind_result (hex_decode user_text) (\<lambda>user_id.
          bind_result (require (user_id \<noteq> [] \<and> length user_id \<le> 64)
            (RuntimeError ''Invalid User ID'')) (\<lambda>_.
          bind_result (bind_result (json_at entry ''userName'') json_get_string) (\<lambda>user_name.
          bind_result (bind_result (json_at entry ''userDisplayName'') json_get_string) (\<lambda>display_name.
          bind_result (bind_result (json_at entry ''alg'') json_get_int) (\<lambda>alg.
          bind_result (require (alg = -7) (RuntimeError ''Invalid encryption alrogithm'')) (\<lambda>_.
          bind_result (read_unsigned entry ''signCount'' 0xFFFFFFFF
            (RuntimeError ''Invalid Sign Count type'') (RuntimeError ''Sign Count out of range''))
            (\<lambda>sign_count.
          bind_result (read_byte_array entry ''public_blob'') (\<lambda>public_blob.
          bind_result (read_byte_array entry ''private_blob'') (\<lambda>private_blob.
          let cred = \<lparr>cred_id = id, cred_ownerUid = ucast owner_uid, cred_rpId = rp_id,
                cred_userId = user_id, cred_userName = user_name, cred_userDisplayName = display_name,
                cred_alg = alg, cred_signCount = ucast sign_count, cred_private_blob = private_blob,
                cred_public_blob = public_blob, cred_discoverable = discoverable,
                cred_creationOrder = creation_order\<rparr>
          in bind_result (validate_credential cred) (\<lambda>_. Inr cred)))))))))))))))))))))
      else Inl (RuntimeError ''Storage entry is not an object''))"

primrec parse_entries :: "json list \<Rightarrow> Storage \<Rightarrow> Storage result" where
  "parse_entries [] loaded = Inr loaded"
| "parse_entries (entry # entries) loaded =
     bind_result (parse_entry entry) (\<lambda>cred.
     bind_result (hex_encode (cred_id cred)) (\<lambda>credential_id.
       if map_of loaded credential_id \<noteq> None then Inl (RuntimeError ''Duplicate Credential ID'')
       else parse_entries entries (loaded @ [(credential_id, cred)])))"

definition parse_storage :: "json \<Rightarrow> Storage result" where
  "parse_storage j =
     (case j of
        JArray entries \<Rightarrow>
          if length entries > MAX_CREDENTIALS then
            Inl (RuntimeError ''Credential store contains too many credentials'')
          else parse_entries entries []
      | _ \<Rightarrow> Inl (RuntimeError ''Storage is not an array''))"

section \<open>The encrypted envelope\<close>

text \<open>
  The third-party operations of the store: AES-256-GCM sealing and opening (key, nonce, additional
  data, text and tag) and the printer and parser of the JSON library.
\<close>

record StoreBackend =
  gcm_seal :: "bytes \<Rightarrow> bytes \<Rightarrow> bytes \<Rightarrow> bytes \<Rightarrow> (bytes \<times> bytes) result"
  gcm_open :: "bytes \<Rightarrow> bytes \<Rightarrow> bytes \<Rightarrow> bytes \<Rightarrow> bytes \<Rightarrow> bytes option"
  json_dump :: "json \<Rightarrow> bytes result"
  json_parse :: "bytes \<Rightarrow> json result"

definition envelope_header :: "u64 \<Rightarrow> bytes \<Rightarrow> bytes" where
  "envelope_header generation iv = STORE_MAGIC @ [STORE_FORMAT_VERSION] @ be64 generation @ iv"

definition openssl_checked_size :: "nat \<Rightarrow> string \<Rightarrow> int result" where
  "openssl_checked_size n value_name =
     (if n > 2147483647 then Inl (LengthError (value_name @ '' is too large for OpenSSL''))
      else Inr (int n))"

definition encrypt_store :: "StoreBackend \<Rightarrow> bytes \<Rightarrow> bytes \<Rightarrow> bytes \<Rightarrow> u64 \<Rightarrow> bytes result" where
  "encrypt_store backend key iv plaintext generation =
     (let header = envelope_header generation iv in
      bind_result (openssl_checked_size (length header) ''credential store header'') (\<lambda>_.
      bind_result (openssl_checked_size (length plaintext) ''credential plaintext'') (\<lambda>_.
      bind_result (gcm_seal backend key iv header plaintext) (\<lambda>(cipher, tag).
        Inr (header @ cipher @ tag)))))"

definition decrypt_store :: "StoreBackend \<Rightarrow> bytes \<Rightarrow> bytes \<Rightarrow> (u64 \<times> bytes) result" where
  "decrypt_store backend key ciphertext =
     (if length ciphertext < HEADER_SIZE + TAG_SIZE then
        Inl (RuntimeError ''Credential store envelope is too short'')
      else if take 8 ciphertext \<noteq> STORE_MAGIC then
        Inl (RuntimeError ''Credential store has an invalid format marker'')
      else if ciphertext ! 8 \<noteq> STORE_FORMAT_VERSION then
        Inl (RuntimeError ''Credential store has an unsupported version'')
      else
        let generation = of_be64 (take 8 (drop 9 ciphertext));
            iv = take NONCE_SIZE (drop 17 ciphertext);
            cipher = take (length ciphertext - HEADER_SIZE - TAG_SIZE) (drop HEADER_SIZE ciphertext);
            tag = drop (length ciphertext - TAG_SIZE) ciphertext
        in bind_result (openssl_checked_size (length ciphertext - HEADER_SIZE - TAG_SIZE)
             ''credential ciphertext'') (\<lambda>_.
           case gcm_open backend key iv (take HEADER_SIZE ciphertext) cipher tag of
             None \<Rightarrow> Inl (RuntimeError ''EVP_DecryptFinal_ex (GCM authentication failed)'')
           | Some plain \<Rightarrow> Inr (generation, plain)))"

section \<open>Well-formedness and the backend's contract\<close>

definition credential_ok :: "StoredCredential \<Rightarrow> bool" where
  "credential_ok c \<longleftrightarrow>
     16 \<le> length (cred_id c) \<and> length (cred_id c) \<le> 1024 \<and>
     cred_rpId c \<noteq> [] \<and> length (cred_rpId c) \<le> 253 \<and>
     cred_userId c \<noteq> [] \<and> length (cred_userId c) \<le> 64 \<and> cred_alg c = -7 \<and>
     cred_private_blob c \<noteq> [] \<and> length (cred_private_blob c) \<le> 4096 \<and>
     cred_public_blob c \<noteq> [] \<and> length (cred_public_blob c) \<le> 4096 \<and> cred_creationOrder c \<noteq> 0"

definition storage_ok :: "Storage \<Rightarrow> bool" where
  "storage_ok storage \<longleftrightarrow>
     distinct (map fst storage) \<and> length storage \<le> MAX_CREDENTIALS \<and>
     (\<forall>(key, c) \<in> set storage. key = hex_text (cred_id c) \<and> credential_ok c)"

text \<open>The documents the printer and the parser of the JSON library exchange faithfully: integers
  below zero, no floating numbers, members in strictly increasing key order.\<close>

fun json_canonical :: "json \<Rightarrow> bool" where
  "json_canonical (JInteger i) \<longleftrightarrow> - (2 ^ 63) \<le> i \<and> i < 0"
| "json_canonical (JFloat _) \<longleftrightarrow> False"
| "json_canonical (JArray js) \<longleftrightarrow> (\<forall>j \<in> set js. json_canonical j)"
| "json_canonical (JObject members) \<longleftrightarrow>
     sorted_wrt (<) (map fst members) \<and>
     (\<forall>m \<in> set members. json_canonical (snd m))"
| "json_canonical _ \<longleftrightarrow> True"

definition backend_ok :: "StoreBackend \<Rightarrow> bool" where
  "backend_ok backend \<longleftrightarrow>
     (\<forall>key iv aad plain cipher tag. gcm_seal backend key iv aad plain = Inr (cipher, tag) \<longrightarrow>
        length tag = TAG_SIZE \<and> length cipher = length plain \<and> gcm_open backend key iv aad cipher tag = Some plain) \<and>
     (\<forall>j text. json_canonical j \<longrightarrow> json_dump backend j = Inr text \<longrightarrow> json_parse backend text = Inr j)"

section \<open>Lemmas\<close>

lemma validate_credential_iff [simp]: "validate_credential c = Inr u \<longleftrightarrow> credential_ok c"
  by (auto simp: validate_credential_def credential_ok_def MAX_CREDENTIAL_BLOB_SIZE_def not_less)

lemma validate_credential_ok [simp]: "credential_ok c \<Longrightarrow> validate_credential c = Inr ()"
  by simp

lemma hex_encode_short [simp]: "length v \<le> 65536 \<Longrightarrow> hex_encode v = Inr (hex_text v)"
  by (simp add: hex_encode_def string_max_size_def)

lemma read_byte_ucast [simp]: "read_byte f (JUnsigned (ucast (b :: u8))) = Inr b"
  by (simp add: read_byte_def word_less_nat_alt)

lemma map_read_byte: "map_result (read_byte f) (map (\<lambda>b. JUnsigned (ucast b)) bs) = Inr bs"
  by (induction bs) simp_all

lemma ucast_u32_bound: "ucast (w :: u32) \<le> (0xFFFFFFFF :: u64)"
  by (simp add: word_le_nat_alt)

lemma credential_json_Inr:
  "credential_ok c \<Longrightarrow> \<exists>j. credential_json c = Inr j \<and> json_canonical j \<and> parse_entry j = Inr c"
proof -
  assume ok: "credential_ok c"
  then have hex: "hex_encode (cred_id c) = Inr (hex_text (cred_id c))"
    "hex_encode (cred_userId c) = Inr (hex_text (cred_userId c))"
    by (simp_all add: credential_ok_def)
  have alg: "cred_alg c = -7" using ok by (simp add: credential_ok_def)
  define j where "j = JObject
         [(''alg'', JInteger (-7)), (''creationOrder'', JUnsigned (cred_creationOrder c)),
          (''discoverable'', JBool (cred_discoverable c)), (''id'', JString (hex_text (cred_id c))),
          (''ownerUid'', JUnsigned (ucast (cred_ownerUid c))),
          (''private_blob'', json_bytes (cred_private_blob c)),
          (''public_blob'', json_bytes (cred_public_blob c)), (''rpId'', JString (cred_rpId c)),
          (''signCount'', JUnsigned (ucast (cred_signCount c))),
          (''userDisplayName'', JString (cred_userDisplayName c)),
          (''userId'', JString (hex_text (cred_userId c))), (''userName'', JString (cred_userName c))]"
  have members: "json_at j ''alg'' = Inr (JInteger (-7))"
    "json_at j ''creationOrder'' = Inr (JUnsigned (cred_creationOrder c))"
    "json_at j ''discoverable'' = Inr (JBool (cred_discoverable c))"
    "json_at j ''id'' = Inr (JString (hex_text (cred_id c)))"
    "json_at j ''ownerUid'' = Inr (JUnsigned (ucast (cred_ownerUid c)))"
    "json_at j ''private_blob'' = Inr (json_bytes (cred_private_blob c))"
    "json_at j ''public_blob'' = Inr (json_bytes (cred_public_blob c))"
    "json_at j ''rpId'' = Inr (JString (cred_rpId c))"
    "json_at j ''signCount'' = Inr (JUnsigned (ucast (cred_signCount c)))"
    "json_at j ''userDisplayName'' = Inr (JString (cred_userDisplayName c))"
    "json_at j ''userId'' = Inr (JString (hex_text (cred_userId c)))"
    "json_at j ''userName'' = Inr (JString (cred_userName c))"
    by (simp_all add: json_at_def j_def)
  have "credential_json c = Inr j"
    by (simp add: credential_json_def hex alg j_def)
  moreover have "json_canonical j"
    by (simp add: j_def json_bytes_def)
  moreover have "parse_entry j = Inr c"
  proof -
    have "read_byte_array j ''public_blob'' = Inr (cred_public_blob c)"
      "read_byte_array j ''private_blob'' = Inr (cred_private_blob c)"
      using ok by (simp_all add: read_byte_array_def members json_bytes_def map_read_byte
          credential_ok_def MAX_CREDENTIAL_BLOB_SIZE_def)
    moreover have "read_unsigned j ''ownerUid'' 0xFFFFFFFF e1 e2 = Inr (ucast (cred_ownerUid c))"
      "read_unsigned j ''signCount'' 0xFFFFFFFF e1 e2 = Inr (ucast (cred_signCount c))"
      "read_unsigned j ''creationOrder'' (-1) e1 e2 = Inr (cred_creationOrder c)" for e1 e2
      by (simp_all add: read_unsigned_def members not_less ucast_u32_bound)
    moreover have "json_get_int (JInteger (-7)) = Inr (-7)"
      by (simp add: json_get_int_def)
    moreover have "json_is_object j" by (simp add: json_is_object_def j_def)
    ultimately show ?thesis
      using ok alg by (simp add: parse_entry_def members json_get_string_def) (simp add: credential_ok_def)
  qed
  ultimately show ?thesis by blast
qed

lemma parse_entries_storage:
  assumes "\<And>key c. (key, c) \<in> set storage \<Longrightarrow> key = hex_text (cred_id c) \<and> credential_ok c"
    and "distinct (map fst loaded @ map fst storage)"
  shows "\<exists>js. map_result credential_json (map snd storage) = Inr js \<and> length js = length storage \<and>
    (\<forall>j \<in> set js. json_canonical j) \<and> parse_entries js loaded = Inr (loaded @ storage)"
  using assms
proof (induction storage arbitrary: loaded)
  case Nil
  show ?case by simp
next
  case (Cons item storage)
  obtain key c where item: "item = (key, c)" by (cases item)
  with Cons.prems(1) have c: "key = hex_text (cred_id c)" "credential_ok c" by auto
  obtain j where j: "credential_json c = Inr j" "json_canonical j" "parse_entry j = Inr c"
    using credential_json_Inr [OF c(2)] by blast
  have "\<exists>js. map_result credential_json (map snd storage) = Inr js \<and> length js = length storage \<and>
    (\<forall>j \<in> set js. json_canonical j) \<and> parse_entries js (loaded @ [item]) = Inr ((loaded @ [item]) @ storage)"
    by (rule Cons.IH) (use Cons.prems item in auto)
  then obtain js where js: "map_result credential_json (map snd storage) = Inr js"
    "length js = length storage" "\<forall>j \<in> set js. json_canonical j"
    "parse_entries js (loaded @ [item]) = Inr ((loaded @ [item]) @ storage)" by blast
  have "hex_encode (cred_id c) = Inr key" using c by (simp add: credential_ok_def)
  moreover have "map_of loaded key = None"
    using Cons.prems(2) item by (auto simp: map_of_eq_None_iff)
  ultimately have "parse_entries (j # js) loaded = Inr (loaded @ item # storage)"
    using j js(4) item by simp
  then show ?case using j js item by (intro exI [of _ "j # js"]) simp
qed

lemma storage_json_roundtrip:
  assumes "storage_ok storage"
  shows "\<exists>j. storage_json storage = Inr j \<and> json_canonical j \<and> parse_storage j = Inr storage"
proof -
  have "\<exists>js. map_result credential_json (map snd storage) = Inr js \<and> length js = length storage \<and>
    (\<forall>j \<in> set js. json_canonical j) \<and> parse_entries js [] = Inr ([] @ storage)"
    by (rule parse_entries_storage) (use assms in \<open>auto simp: storage_ok_def\<close>)
  with assms show ?thesis
    by (auto simp: storage_json_def parse_storage_def storage_ok_def)
qed

lemma length_STORE_MAGIC [simp]: "length STORE_MAGIC = 8"
  by (simp add: STORE_MAGIC_def)

lemma envelope_roundtrip:
  assumes "backend_ok backend" "length iv = NONCE_SIZE"
    and "encrypt_store backend key iv plain generation = Inr envelope"
  shows "decrypt_store backend key envelope = Inr (generation, plain)"
proof -
  obtain cipher tag where seal: "gcm_seal backend key iv (envelope_header generation iv) plain = Inr (cipher, tag)"
    and envelope: "envelope = envelope_header generation iv @ cipher @ tag" and size: "length plain \<le> 2147483647"
    using assms(3) by (auto simp: encrypt_store_def bind_result_eq_Inr openssl_checked_size_def Let_def
        split: if_splits)
  then have tag: "length tag = 16" "length cipher = length plain"
    "gcm_open backend key iv (envelope_header generation iv) cipher tag = Some plain"
    using assms(1) by (auto simp: backend_ok_def TAG_SIZE_def)
  have iv: "length iv = 12" using assms(2) by (simp add: NONCE_SIZE_def)
  have header: "length (envelope_header generation iv) = 29"
    by (simp add: envelope_header_def iv)
  have parts: "take 8 (envelope_header generation iv) = STORE_MAGIC"
    "envelope_header generation iv ! 8 = STORE_FORMAT_VERSION"
    "take 8 (drop 9 (envelope_header generation iv)) = be64 generation"
    "take 12 (drop 17 (envelope_header generation iv)) = iv"
    by (simp_all add: envelope_header_def nth_append iv)
  show ?thesis
    using tag header parts iv size unfolding envelope
    by (simp add: decrypt_store_def HEADER_SIZE_def TAG_SIZE_def NONCE_SIZE_def Let_def nth_append
        of_be64_be64 openssl_checked_size_def)
qed

end
