(* ===== verification/Credential_Store.thy ===== *)
theory Credential_Store
  imports Credential
begin

text \<open>
  The credential store (\<open>class CredentialStore\<close> of \<open>credentials/credential.cpp\<close>) with the file it
  keeps and the rollback counter it consults (\<open>storage/generation_counter.hpp\<close>).  The file system is
  part of the state: a directory and a file with the attributes the code inspects.  Every operation
  that saves takes a \<open>SaveIO\<close>: the nonce drawn and the outcome of the atomic write.
\<close>

section \<open>File system and context\<close>

datatype 'a OpenResult = Missing | Open_failed | Inspect_failed | Opened 'a

record DirStatus =
  dir_is_directory :: bool
  dir_uid :: u32
  dir_mode :: u32

record FileStatus =
  file_is_regular :: bool
  file_nlink :: nat
  file_uid :: u32
  file_mode :: u32
  file_size :: int
  file_contents :: "bytes result"

record 'c CounterOps =
  ctr_read :: "'c \<Rightarrow> u64 result \<times> 'c"
  ctr_increment :: "'c \<Rightarrow> unit result \<times> 'c"

text \<open>What a store object holds for its whole life.\<close>

record 'c StoreContext =
  ctx_backend :: StoreBackend
  ctx_key :: bytes
  ctx_filename :: string
  ctx_euid :: u32
  ctx_counter :: "'c CounterOps option"

record 'c World =
  w_dir :: "DirStatus OpenResult"
  w_file :: "FileStatus OpenResult"
  w_counter :: 'c

record CredentialStore =
  stored :: Storage
  generation :: u64
  requiresReload :: bool

text \<open>The write of a temporary file and its renaming either succeed, fail and leave the old file, or
  fail after the new file has replaced the old one.\<close>

datatype WriteOutcome = Written | Failed_before exn | Failed_after exn

record SaveIO =
  io_iv :: "bytes result"
  io_write :: WriteOutcome

section \<open>Files\<close>

definition valid_filename :: "string \<Rightarrow> bool" where
  "valid_filename filename \<longleftrightarrow> filename \<noteq> [] \<and> filename \<noteq> ''.'' \<and> filename \<noteq> ''..''"

definition check_directory :: "u32 \<Rightarrow> DirStatus \<Rightarrow> unit result" where
  "check_directory euid status =
     (if \<not> dir_is_directory status then Inl (RuntimeError ''Credential store parent is not a directory'')
      else if dir_uid status \<noteq> euid then
        Inl (RuntimeError ''Credential store directory must be owned by the service user'')
      else if dir_mode status AND 0x1FF \<noteq> 0x1C0 then
        Inl (RuntimeError ''Credential store directory permissions must be 0700'')
      else Inr ())"

definition open_store_directory :: "u32 \<Rightarrow> DirStatus OpenResult \<Rightarrow> unit result" where
  "open_store_directory euid d =
     (case d of
        Opened status \<Rightarrow> check_directory euid status
      | Inspect_failed \<Rightarrow> Inl (SystemError ''inspect credential store directory'')
      | _ \<Rightarrow> Inl (SystemError ''open credential store directory''))"

text \<open>\<open>mkdir\<close> creates a missing directory, owned by the service user and with mode 0700.\<close>

definition prepare_store_directory :: "u32 \<Rightarrow> DirStatus OpenResult \<Rightarrow> DirStatus OpenResult" where
  "prepare_store_directory euid d =
     (case d of
        Missing \<Rightarrow> Opened \<lparr>dir_is_directory = True, dir_uid = euid, dir_mode = 0x1C0\<rparr>
      | _ \<Rightarrow> d)"

definition read_store_file :: "'c StoreContext \<Rightarrow> 'c World \<Rightarrow> bytes option result" where
  "read_store_file ctx w =
     (if \<not> valid_filename (ctx_filename ctx) then
        Inl (InvalidArgument ''Credential store path must include a valid filename'')
      else case w_dir w of
        Missing \<Rightarrow> Inr None
      | Open_failed \<Rightarrow> Inl (SystemError ''open credential store directory'')
      | Inspect_failed \<Rightarrow> Inl (SystemError ''inspect credential store directory'')
      | Opened d \<Rightarrow>
          bind_result (check_directory (ctx_euid ctx) d) (\<lambda>_.
            case w_file w of
              Missing \<Rightarrow> Inr None
            | Open_failed \<Rightarrow> Inl (SystemError ''open credential store'')
            | Inspect_failed \<Rightarrow> Inl (SystemError ''inspect credential store'')
            | Opened f \<Rightarrow>
                if \<not> file_is_regular f \<or> file_nlink f \<noteq> 1 then
                  Inl (RuntimeError ''Credential store must be a regular file with one link'')
                else if file_uid f \<noteq> ctx_euid ctx then
                  Inl (RuntimeError ''Credential store must be owned by the service user'')
                else if file_mode f AND 0x1FF \<noteq> 0x180 then
                  Inl (RuntimeError ''Credential store permissions must be 0600'')
                else if file_size f < 0 \<or> file_size f > int MAX_STORE_SIZE then
                  Inl (RuntimeError ''Credential store exceeds the size limit'')
                else bind_result (file_contents f) (\<lambda>contents. Inr (Some contents))))"

text \<open>The file a completed rename leaves behind.\<close>

definition store_file :: "u32 \<Rightarrow> bytes \<Rightarrow> FileStatus" where
  "store_file euid contents = \<lparr>file_is_regular = True, file_nlink = 1, file_uid = euid,
     file_mode = 0x180, file_size = int (length contents), file_contents = Inr contents\<rparr>"

definition atomic_write_file ::
    "'c StoreContext \<Rightarrow> WriteOutcome \<Rightarrow> bytes \<Rightarrow> 'c World \<Rightarrow> unit result \<times> 'c World" where
  "atomic_write_file ctx outcome contents w =
     (if \<not> valid_filename (ctx_filename ctx) then
        (Inl (InvalidArgument ''Credential store path must include a valid filename''), w)
      else
        let w1 = w\<lparr>w_dir := prepare_store_directory (ctx_euid ctx) (w_dir w)\<rparr>;
            w2 = w1\<lparr>w_file := Opened (store_file (ctx_euid ctx) contents)\<rparr>
        in case open_store_directory (ctx_euid ctx) (w_dir w1) of
             Inl e \<Rightarrow> (Inl e, w1)
           | Inr _ \<Rightarrow>
               (case outcome of
                  Written \<Rightarrow> (Inr (), w2)
                | Failed_before e \<Rightarrow> (Inl e, w1)
                | Failed_after e \<Rightarrow> (Inl e, w2)))"

section \<open>Saving\<close>

text \<open>\<open>read_generation\<close>: the generation to build on, checked against the counter when there is one.\<close>

definition read_generation :: "'c StoreContext \<Rightarrow> CredentialStore \<Rightarrow> 'c World \<Rightarrow> u64 result \<times> 'c World" where
  "read_generation ctx st w =
     (case ctx_counter ctx of
        None \<Rightarrow> (Inr (generation st), w)
      | Some ops \<Rightarrow>
          (case ctr_read ops (w_counter w) of
             (Inl e, c) \<Rightarrow> (Inl e, w\<lparr>w_counter := c\<rparr>)
           | (Inr current, c) \<Rightarrow>
               (if current \<noteq> generation st then
                  Inl (RuntimeError ''Credential store generation changed unexpectedly'')
                else Inr current, w\<lparr>w_counter := c\<rparr>)))"

text \<open>The body of the \<open>try\<close> block: advance the counter and read it back.\<close>

definition advance_counter :: "'c CounterOps \<Rightarrow> u64 \<Rightarrow> 'c \<Rightarrow> unit result \<times> 'c" where
  "advance_counter ops next_generation c =
     (case ctr_increment ops c of
        (Inl e, c1) \<Rightarrow> (Inl e, c1)
      | (Inr _, c1) \<Rightarrow>
          (case ctr_read ops c1 of
             (Inl e, c2) \<Rightarrow> (Inl e, c2)
           | (Inr v, c2) \<Rightarrow>
               (if v \<noteq> next_generation then
                  Inl (RuntimeError ''Credential store counter did not advance exactly once'')
                else Inr (), c2)))"

definition commit_generation ::
    "'c StoreContext \<Rightarrow> u64 \<Rightarrow> CredentialStore \<Rightarrow> 'c World \<Rightarrow> unit result \<times> CredentialStore \<times> 'c World" where
  "commit_generation ctx next_generation st w =
     (case ctx_counter ctx of
        None \<Rightarrow> (Inr (), st\<lparr>generation := next_generation\<rparr>, w)
      | Some ops \<Rightarrow>
          (case advance_counter ops next_generation (w_counter w) of
             (Inr _, c) \<Rightarrow> (Inr (), st\<lparr>generation := next_generation\<rparr>, w\<lparr>w_counter := c\<rparr>)
           | (Inl e, c) \<Rightarrow>
               (case ctr_read ops c of
                  (Inl e', c') \<Rightarrow> (Inl e', st\<lparr>requiresReload := True\<rparr>, w\<lparr>w_counter := c'\<rparr>)
                | (Inr v, c') \<Rightarrow>
                    if v \<noteq> next_generation then
                      (Inl e, st\<lparr>requiresReload := True\<rparr>, w\<lparr>w_counter := c'\<rparr>)
                    else (Inr (), st\<lparr>requiresReload := False, generation := next_generation\<rparr>,
                          w\<lparr>w_counter := c'\<rparr>))))"

definition store_envelope :: "'c StoreContext \<Rightarrow> SaveIO \<Rightarrow> Storage \<Rightarrow> u64 \<Rightarrow> bytes result" where
  "store_envelope ctx io storage next_generation =
     bind_result (bind_result (storage_json storage) (json_dump (ctx_backend ctx))) (\<lambda>plain.
     bind_result (io_iv io) (\<lambda>iv.
       encrypt_store (ctx_backend ctx) (ctx_key ctx) iv plain next_generation))"

definition save_storage ::
    "'c StoreContext \<Rightarrow> SaveIO \<Rightarrow> Storage \<Rightarrow> CredentialStore \<Rightarrow> 'c World \<Rightarrow>
     unit result \<times> CredentialStore \<times> 'c World" where
  "save_storage ctx io storage st w =
     (if requiresReload st then
        (Inl (RuntimeError ''Credential store must be reloaded after an interrupted commit''), st, w)
      else case read_generation ctx st w of
        (Inl e, w1) \<Rightarrow> (Inl e, st, w1)
      | (Inr current, w1) \<Rightarrow>
          if current = -1 then (Inl (OverflowError ''Credential store generation overflow''), st, w1)
          else
            (case store_envelope ctx io storage (current + 1) of
               Inl e \<Rightarrow> (Inl e, st, w1)
             | Inr encrypted \<Rightarrow>
                 (case atomic_write_file ctx (io_write io) encrypted w1 of
                    (Inl e, w2) \<Rightarrow> (Inl e, st, w2)
                  | (Inr _, w2) \<Rightarrow> commit_generation ctx (current + 1) st w2)))"

text \<open>Every mutation saves the updated map and then swaps it in.\<close>

definition save_and_swap ::
    "'c StoreContext \<Rightarrow> SaveIO \<Rightarrow> Storage \<Rightarrow> CredentialStore \<Rightarrow> 'c World \<Rightarrow>
     unit result \<times> CredentialStore \<times> 'c World" where
  "save_and_swap ctx io updated st w =
     (case save_storage ctx io updated st w of
        (Inl e, st', w') \<Rightarrow> (Inl e, st', w')
      | (Inr _, st', w') \<Rightarrow> (Inr (), st'\<lparr>stored := updated\<rparr>, w'))"

section \<open>Loading\<close>

definition initial_store :: CredentialStore where
  "initial_store = \<lparr>stored = [], generation = 0, requiresReload = False\<rparr>"

text \<open>The constructor.\<close>

definition make_store :: "bytes \<Rightarrow> CredentialStore result" where
  "make_store key =
     (if length key \<noteq> 32 then Inl (InvalidArgument ''Credential store key must be 32 bytes'')
      else Inr initial_store)"

definition load_missing ::
    "'c StoreContext \<Rightarrow> CredentialStore \<Rightarrow> 'c World \<Rightarrow> unit result \<times> CredentialStore \<times> 'c World" where
  "load_missing ctx st w =
     (let cleared = st\<lparr>stored := [], generation := 0, requiresReload := False\<rparr> in
      case ctx_counter ctx of
        None \<Rightarrow> (Inr (), cleared, w)
      | Some ops \<Rightarrow>
          (case ctr_read ops (w_counter w) of
             (Inl e, c) \<Rightarrow> (Inl e, st, w\<lparr>w_counter := c\<rparr>)
           | (Inr v, c) \<Rightarrow>
               if v \<noteq> 0 then
                 (Inl (RuntimeError
                   ''Credential store is missing but its rollback counter is not zero''),
                  st, w\<lparr>w_counter := c\<rparr>)
               else (Inr (), cleared, w\<lparr>w_counter := c\<rparr>)))"

definition check_generation :: "u64 \<Rightarrow> u64 \<Rightarrow> unit result" where
  "check_generation file_generation counter_generation =
     (if file_generation < counter_generation then Inl (RuntimeError ''Credential store rollback detected'')
      else if file_generation > counter_generation \<and>
        (counter_generation = -1 \<or> file_generation \<noteq> counter_generation + 1) then
        Inl (RuntimeError ''Credential store generation is inconsistent'')
      else Inr ())"

text \<open>Completion of a commit that was interrupted between the write and the counter.\<close>

definition recover_counter :: "'c StoreContext \<Rightarrow> u64 \<Rightarrow> u64 \<Rightarrow> 'c World \<Rightarrow> unit result \<times> 'c World" where
  "recover_counter ctx file_generation counter_generation w =
     (case ctx_counter ctx of
        None \<Rightarrow> (Inr (), w)
      | Some ops \<Rightarrow>
          if file_generation = counter_generation + 1 then
            (case ctr_increment ops (w_counter w) of
               (Inl e, c) \<Rightarrow> (Inl e, w\<lparr>w_counter := c\<rparr>)
             | (Inr _, c) \<Rightarrow>
                 (case ctr_read ops c of
                    (Inl e, c') \<Rightarrow> (Inl e, w\<lparr>w_counter := c'\<rparr>)
                  | (Inr v, c') \<Rightarrow>
                      (if v \<noteq> file_generation then
                         Inl (RuntimeError ''Credential store crash recovery counter verification failed'')
                       else Inr (), w\<lparr>w_counter := c'\<rparr>)))
          else (Inr (), w))"

definition load_envelope ::
    "'c StoreContext \<Rightarrow> bytes \<Rightarrow> CredentialStore \<Rightarrow> 'c World \<Rightarrow> unit result \<times> CredentialStore \<times> 'c World" where
  "load_envelope ctx encrypted st w =
     (case decrypt_store (ctx_backend ctx) (ctx_key ctx) encrypted of
        Inl e \<Rightarrow> (Inl e, st, w)
      | Inr (file_generation, plaintext) \<Rightarrow>
          let (counter_result, w1) =
            (case ctx_counter ctx of
               None \<Rightarrow> (Inr file_generation, w)
             | Some ops \<Rightarrow>
                 let (r, c) = ctr_read ops (w_counter w) in (r, w\<lparr>w_counter := c\<rparr>))
          in
          (case counter_result of
             Inl e \<Rightarrow> (Inl e, st, w1)
           | Inr counter_generation \<Rightarrow>
               (case bind_result (check_generation file_generation counter_generation) (\<lambda>_.
                     bind_result (json_parse (ctx_backend ctx) plaintext) parse_storage) of
                  Inl e \<Rightarrow> (Inl e, st, w1)
                | Inr loaded \<Rightarrow>
                    (case recover_counter ctx file_generation counter_generation w1 of
                       (Inl e, w2) \<Rightarrow> (Inl e, st, w2)
                     | (Inr _, w2) \<Rightarrow>
                         (Inr (), st\<lparr>stored := loaded, generation := file_generation,
                                    requiresReload := False\<rparr>, w2)))))"

definition load_store ::
    "'c StoreContext \<Rightarrow> CredentialStore \<Rightarrow> 'c World \<Rightarrow> unit result \<times> CredentialStore \<times> 'c World" where
  "load_store ctx st w =
     (case read_store_file ctx w of
        Inl e \<Rightarrow> (Inl e, st, w)
      | Inr None \<Rightarrow> load_missing ctx st w
      | Inr (Some encrypted) \<Rightarrow> load_envelope ctx encrypted st w)"

definition clear_store ::
    "'c StoreContext \<Rightarrow> SaveIO \<Rightarrow> CredentialStore \<Rightarrow> 'c World \<Rightarrow> unit result \<times> CredentialStore \<times> 'c World" where
  "clear_store ctx io st w = save_and_swap ctx io [] st w"

section \<open>Queries\<close>

definition require_ready :: "CredentialStore \<Rightarrow> unit result" where
  "require_ready st =
     (if requiresReload st then
        Inl (RuntimeError ''Credential store must be reloaded after an interrupted commit'')
      else Inr ())"

definition find_credential :: "CredentialStore \<Rightarrow> bytes \<Rightarrow> StoredCredential option result" where
  "find_credential st credential_id =
     bind_result (hex_encode credential_id) (\<lambda>key. Inr (map_of (stored st) key))"

definition has_credential :: "CredentialStore \<Rightarrow> bytes \<Rightarrow> u32 \<Rightarrow> bool result" where
  "has_credential st credential_id owner_uid =
     bind_result (require_ready st) (\<lambda>_.
     bind_result (find_credential st credential_id) (\<lambda>found.
       Inr (case found of None \<Rightarrow> False | Some c \<Rightarrow> cred_ownerUid c = owner_uid)))"

definition has_for_rp :: "CredentialStore \<Rightarrow> bytes \<Rightarrow> string \<Rightarrow> u32 \<Rightarrow> bool result" where
  "has_for_rp st credential_id rp_id owner_uid =
     bind_result (require_ready st) (\<lambda>_.
     bind_result (find_credential st credential_id) (\<lambda>found.
       Inr (case found of None \<Rightarrow> False | Some c \<Rightarrow> cred_ownerUid c = owner_uid \<and> cred_rpId c = rp_id)))"

definition get_by_credId :: "CredentialStore \<Rightarrow> bytes \<Rightarrow> u32 \<Rightarrow> StoredCredential result" where
  "get_by_credId st credential_id owner_uid =
     bind_result (require_ready st) (\<lambda>_.
     bind_result (find_credential st credential_id) (\<lambda>found.
       case found of
         Some c \<Rightarrow> if cred_ownerUid c \<noteq> owner_uid then
             Inl (OutOfRange ''Credential ID was not found for local user'') else Inr c
       | None \<Rightarrow> Inl (OutOfRange ''Credential ID was not found for local user'')))"

fun match_allow_list ::
    "CredentialStore \<Rightarrow> string \<Rightarrow> u32 \<Rightarrow> string list \<Rightarrow> PublicKeyCredentialDescriptor list \<Rightarrow>
     StoredCredential list result" where
  "match_allow_list st rp_id owner_uid seen [] = Inr []"
| "match_allow_list st rp_id owner_uid seen (descriptor # rest) =
     (if desc_type descriptor \<noteq> ''public-key'' then match_allow_list st rp_id owner_uid seen rest
      else bind_result (hex_encode (desc_id descriptor)) (\<lambda>key.
        if key \<in> set seen then match_allow_list st rp_id owner_uid seen rest
        else bind_result (match_allow_list st rp_id owner_uid (key # seen) rest) (\<lambda>matches.
          case map_of (stored st) key of
            Some c \<Rightarrow> if cred_ownerUid c = owner_uid \<and> cred_rpId c = rp_id
                      then Inr (c # matches) else Inr matches
          | None \<Rightarrow> Inr matches)))"

definition assertion_before :: "StoredCredential \<Rightarrow> StoredCredential \<Rightarrow> bool" where
  "assertion_before left right =
     (if cred_creationOrder left \<noteq> cred_creationOrder right
      then cred_creationOrder left > cred_creationOrder right
      else cred_id left < cred_id right)"

definition find_for_assertion ::
    "CredentialStore \<Rightarrow> string \<Rightarrow> PublicKeyCredentialDescriptor list \<Rightarrow> u32 \<Rightarrow> StoredCredential list result" where
  "find_for_assertion st rp_id allow_list owner_uid =
     bind_result (require_ready st) (\<lambda>_.
       if allow_list \<noteq> [] then match_allow_list st rp_id owner_uid [] allow_list
       else Inr (sort_by assertion_before
         (filter (\<lambda>c. cred_ownerUid c = owner_uid \<and> cred_discoverable c \<and> cred_rpId c = rp_id)
            (map snd (stored st)))))"

definition credential_summary :: "StoredCredential \<Rightarrow> CredentialSummary" where
  "credential_summary c = \<lparr>sum_id = cred_id c, sum_ownerUid = cred_ownerUid c, sum_rpId = cred_rpId c,
     sum_userName = cred_userName c, sum_userDisplayName = cred_userDisplayName c,
     sum_signCount = cred_signCount c, sum_discoverable = cred_discoverable c,
     sum_creationOrder = cred_creationOrder c\<rparr>"

definition summary_before :: "CredentialSummary \<Rightarrow> CredentialSummary \<Rightarrow> bool" where
  "summary_before left right =
     (if sum_ownerUid left \<noteq> sum_ownerUid right then sum_ownerUid left < sum_ownerUid right
      else if sum_rpId left \<noteq> sum_rpId right then sum_rpId left < sum_rpId right
      else if sum_creationOrder left \<noteq> sum_creationOrder right then
        sum_creationOrder left < sum_creationOrder right
      else sum_id left < sum_id right)"

definition list_credentials :: "CredentialStore \<Rightarrow> CredentialSummary list result" where
  "list_credentials st =
     bind_result (require_ready st) (\<lambda>_.
       Inr (sort_by summary_before (map (credential_summary \<circ> snd) (stored st))))"

section \<open>Mutations\<close>

text \<open>The map \<open>put\<close> saves, or the exception it throws before saving.\<close>

definition put_storage :: "CredentialStore \<Rightarrow> StoredCredential \<Rightarrow> u32 \<Rightarrow> Storage result" where
  "put_storage st cred owner_uid =
     bind_result (require_ready st) (\<lambda>_.
       if generation st = -1 then Inl (OverflowError ''Credential store generation overflow'')
       else
         let new = cred\<lparr>cred_ownerUid := owner_uid, cred_creationOrder := generation st + 1\<rparr> in
         bind_result (validate_credential new) (\<lambda>_.
         bind_result (hex_encode (cred_id new)) (\<lambda>key.
           if map_of (stored st) key \<noteq> None then Inl (InvalidArgument ''Credential ID already exists'')
           else
             let updated =
               (if cred_discoverable new then
                  filter (\<lambda>(_, existing). \<not> (cred_discoverable existing \<and>
                     cred_ownerUid existing = cred_ownerUid new \<and> cred_rpId existing = cred_rpId new \<and>
                     cred_userId existing = cred_userId new)) (stored st)
                else stored st)
             in if length updated \<ge> MAX_CREDENTIALS then
                  Inl (RuntimeError ''Credential store contains too many credentials'')
                else Inr ((key, new) # updated))))"

definition erase_storage :: "CredentialStore \<Rightarrow> bytes \<Rightarrow> u32 \<Rightarrow> Storage result" where
  "erase_storage st credential_id owner_uid =
     bind_result (require_ready st) (\<lambda>_.
     bind_result (hex_encode credential_id) (\<lambda>key.
       case map_of (stored st) key of
         Some c \<Rightarrow>
           if cred_ownerUid c \<noteq> owner_uid then
             Inl (OutOfRange ''Credential ID was not found for local user'')
           else Inr (filter (\<lambda>(k, _). k \<noteq> key) (stored st))
       | None \<Rightarrow> Inl (OutOfRange ''Credential ID was not found for local user'')))"

definition increment_storage :: "CredentialStore \<Rightarrow> bytes \<Rightarrow> u32 \<Rightarrow> Storage result" where
  "increment_storage st credential_id owner_uid =
     bind_result (require_ready st) (\<lambda>_.
     bind_result (hex_encode credential_id) (\<lambda>key.
       case map_of (stored st) key of
         Some c \<Rightarrow>
           if cred_ownerUid c \<noteq> owner_uid then
             Inl (OutOfRange ''Credential ID was not found for local user'')
           else if cred_signCount c = -1 then
             Inl (OverflowError ''Signature counter cannot be incremented'')
           else Inr (map (\<lambda>(k, c). (k, if k = key then c\<lparr>cred_signCount := cred_signCount c + 1\<rparr> else c))
                       (stored st))
       | None \<Rightarrow> Inl (OutOfRange ''Credential ID was not found for local user'')))"

definition save_result ::
    "'c StoreContext \<Rightarrow> SaveIO \<Rightarrow> Storage result \<Rightarrow> CredentialStore \<Rightarrow> 'c World \<Rightarrow>
     unit result \<times> CredentialStore \<times> 'c World" where
  "save_result ctx io r st w =
     (case r of Inl e \<Rightarrow> (Inl e, st, w) | Inr updated \<Rightarrow> save_and_swap ctx io updated st w)"

definition put_credential ::
    "'c StoreContext \<Rightarrow> SaveIO \<Rightarrow> StoredCredential \<Rightarrow> u32 \<Rightarrow> CredentialStore \<Rightarrow> 'c World \<Rightarrow>
     unit result \<times> CredentialStore \<times> 'c World" where
  "put_credential ctx io cred owner_uid st w = save_result ctx io (put_storage st cred owner_uid) st w"

definition erase_credential ::
    "'c StoreContext \<Rightarrow> SaveIO \<Rightarrow> bytes \<Rightarrow> u32 \<Rightarrow> CredentialStore \<Rightarrow> 'c World \<Rightarrow>
     unit result \<times> CredentialStore \<times> 'c World" where
  "erase_credential ctx io credential_id owner_uid st w =
     save_result ctx io (erase_storage st credential_id owner_uid) st w"

definition incrementSigCount ::
    "'c StoreContext \<Rightarrow> SaveIO \<Rightarrow> bytes \<Rightarrow> u32 \<Rightarrow> CredentialStore \<Rightarrow> 'c World \<Rightarrow>
     unit result \<times> CredentialStore \<times> 'c World" where
  "incrementSigCount ctx io credential_id owner_uid st w =
     save_result ctx io (increment_storage st credential_id owner_uid) st w"

section \<open>Invariant and contracts\<close>

text \<open>Besides well-formed records under their own keys: creation orders are distinct and at most the
  generation, and a user has at most one discoverable credential per relying party.\<close>

definition store_ok :: "CredentialStore \<Rightarrow> bool" where
  "store_ok st \<longleftrightarrow>
     storage_ok (stored st) \<and>
     (\<forall>c \<in> set (map snd (stored st)). cred_creationOrder c \<le> generation st) \<and>
     distinct (map (cred_creationOrder \<circ> snd) (stored st)) \<and>
     (\<forall>c \<in> set (map snd (stored st)). \<forall>d \<in> set (map snd (stored st)).
        cred_discoverable c \<and> cred_discoverable d \<and> cred_ownerUid c = cred_ownerUid d \<and>
        cred_rpId c = cred_rpId d \<and> cred_userId c = cred_userId d \<longrightarrow> c = d)"

text \<open>A counter that never loses a count: reads return its value, and an increment that reports
  success has advanced it by one; one that reports failure may or may not have.\<close>

definition counter_contract :: "'c CounterOps \<Rightarrow> ('c \<Rightarrow> u64) \<Rightarrow> bool" where
  "counter_contract ops val \<longleftrightarrow>
     (\<forall>c r c'. ctr_read ops c = (r, c') \<longrightarrow> val c' = val c \<and> (\<forall>v. r = Inr v \<longrightarrow> v = val c)) \<and>
     (\<forall>c r c'. ctr_increment ops c = (r, c') \<longrightarrow>
        val c' = val c + 1 \<or> (val c' = val c \<and> r \<noteq> Inr ()))"

definition counter_reliable :: "'c CounterOps \<Rightarrow> ('c \<Rightarrow> u64) \<Rightarrow> bool" where
  "counter_reliable ops val \<longleftrightarrow>
     (\<forall>c. fst (ctr_read ops c) = Inr (val c) \<and> val (snd (ctr_read ops c)) = val c \<and>
          fst (ctr_increment ops c) = Inr () \<and> val (snd (ctr_increment ops c)) = val c + 1)"

text \<open>What the file of a store holds: a generation and a map; nothing, for a file not yet written.\<close>

definition disk_holds :: "'c StoreContext \<Rightarrow> 'c World \<Rightarrow> u64 \<Rightarrow> Storage \<Rightarrow> bool" where
  "disk_holds ctx w g storage \<longleftrightarrow>
     (read_store_file ctx w = Inr None \<and> g = 0 \<and> storage = []) \<or>
     (\<exists>envelope plain. read_store_file ctx w = Inr (Some envelope) \<and>
        decrypt_store (ctx_backend ctx) (ctx_key ctx) envelope = Inr (g, plain) \<and>
        bind_result (json_parse (ctx_backend ctx) plain) parse_storage = Inr storage)"

section \<open>Lemmas: saving\<close>

lemma storage_ok_Nil [simp]: "storage_ok []"
  by (simp add: storage_ok_def)

lemma read_generation_world:
  "read_generation ctx st w = (r, w1) \<Longrightarrow>
   (\<exists>c. w1 = w\<lparr>w_counter := c\<rparr>) \<and> (\<forall>current. r = Inr current \<longrightarrow> current = generation st)"
proof (cases "ctx_counter ctx")
  case None
  assume "read_generation ctx st w = (r, w1)"
  with None have "w1 = w\<lparr>w_counter := w_counter w\<rparr>" "r = Inr (generation st)"
    by (simp_all add: read_generation_def)
  then show ?thesis by blast
next
  case (Some ops)
  assume run: "read_generation ctx st w = (r, w1)"
  obtain r1 c where "ctr_read ops (w_counter w) = (r1, c)" by fastforce
  with run Some show ?thesis
    by (cases r1) (auto simp: read_generation_def split: if_splits)
qed

lemma commit_generation_cases:
  assumes "commit_generation ctx g st w = (r, st', w')"
  obtains (committed) c where "r = Inr ()" "st' = st\<lparr>generation := g\<rparr> \<or> st' = st\<lparr>requiresReload := False, generation := g\<rparr>"
      "w' = w\<lparr>w_counter := c\<rparr>"
  | (interrupted) c e where "r = Inl e" "st' = st\<lparr>requiresReload := True\<rparr>" "w' = w\<lparr>w_counter := c\<rparr>"
proof (cases "ctx_counter ctx")
  case None
  with assms have "r = Inr ()" "st' = st\<lparr>generation := g\<rparr>" "w' = w\<lparr>w_counter := w_counter w\<rparr>"
    by (simp_all add: commit_generation_def)
  then show ?thesis using committed by blast
next
  case (Some ops)
  obtain r1 c where adv: "advance_counter ops g (w_counter w) = (r1, c)" by fastforce
  show ?thesis
  proof (cases r1)
    case (Inr u)
    with assms Some adv committed [of c] show ?thesis by (simp add: commit_generation_def)
  next
    case (Inl e)
    obtain r2 c' where rd: "ctr_read ops c = (r2, c')" by fastforce
    show ?thesis
    proof (cases r2)
      case Inl2: (Inl e')
      with assms Some adv Inl rd interrupted [of e' c'] show ?thesis
        by (simp add: commit_generation_def)
    next
      case (Inr v)
      with assms Some adv Inl rd interrupted [of e c'] committed [of c'] show ?thesis
        by (cases "v = g") (simp_all add: commit_generation_def)
    qed
  qed
qed

text \<open>The stages of a save: it stops before the write, at the write, or after it.\<close>

lemma save_storage_cases:
  assumes "save_storage ctx io storage st w = (r, st', w')"
  obtains (early) e c where "r = Inl e" "st' = st" "w' = w\<lparr>w_counter := c\<rparr>"
      "c = w_counter w \<or> (\<exists>r1. read_generation ctx st w = (r1, w'))"
  | (written) w1 encrypted r2 w2 where "\<not> requiresReload st" "generation st \<noteq> -1"
      "read_generation ctx st w = (Inr (generation st), w1)"
      "store_envelope ctx io storage (generation st + 1) = Inr encrypted"
      "atomic_write_file ctx (io_write io) encrypted w1 = (r2, w2)"
      "case r2 of Inl e \<Rightarrow> r = Inl e \<and> st' = st \<and> w' = w2
       | Inr _ \<Rightarrow> commit_generation ctx (generation st + 1) st w2 = (r, st', w')"
proof (cases "requiresReload st")
  case True
  with assms have "r = Inl (RuntimeError ''Credential store must be reloaded after an interrupted commit'')"
    "st' = st" "w' = w\<lparr>w_counter := w_counter w\<rparr>"
    by (simp_all add: save_storage_def)
  then show ?thesis using early by blast
next
  case ready: False
  obtain r1 w1 where gen: "read_generation ctx st w = (r1, w1)" by fastforce
  then obtain c where w1: "w1 = w\<lparr>w_counter := c\<rparr>" and current: "\<forall>current. r1 = Inr current \<longrightarrow> current = generation st"
    using read_generation_world [OF gen] by auto
  show ?thesis
  proof (cases r1)
    case (Inl e)
    with assms ready gen w1 early [of e c] show ?thesis by (simp add: save_storage_def)
  next
    case (Inr x)
    with current have x: "x = generation st" by simp
    show ?thesis
    proof (cases "generation st = -1 \<or> (\<exists>e. store_envelope ctx io storage (generation st + 1) = Inl e)")
      case True
      then show ?thesis
        using assms ready gen w1 early [of _ c] x Inr by (auto simp: save_storage_def split: if_splits)
    next
      case False
      then obtain encrypted where env: "store_envelope ctx io storage (generation st + 1) = Inr encrypted"
        by (cases "store_envelope ctx io storage (generation st + 1)") auto
      obtain r2 w2 where wr: "atomic_write_file ctx (io_write io) encrypted w1 = (r2, w2)" by fastforce
      show ?thesis
        by (rule written [OF ready _ _ env wr])
           (use assms ready gen x Inr False env wr in \<open>auto simp: save_storage_def split: sum.splits\<close>)
    qed
  qed
qed

lemma save_storage_Inr:
  assumes "save_storage ctx io storage st w = (Inr u, st', w')"
  shows "generation st \<noteq> -1 \<and> st' = st\<lparr>generation := generation st + 1\<rparr> \<and> \<not> requiresReload st"
  using assms
proof (cases rule: save_storage_cases)
  case (written w1 encrypted r2 w2)
  then have "commit_generation ctx (generation st + 1) st w2 = (Inr u, st', w')"
    by (cases r2) auto
  then show ?thesis
    by (cases rule: commit_generation_cases) (use written in auto)
qed auto

lemma save_storage_Inl:
  assumes "save_storage ctx io storage st w = (Inl e, st', w')"
  shows "stored st' = stored st \<and> generation st' = generation st"
  using assms
proof (cases rule: save_storage_cases)
  case (written w1 encrypted r2 w2)
  show ?thesis
  proof (cases r2)
    case (Inr u)
    with written have "commit_generation ctx (generation st + 1) st w2 = (Inl e, st', w')" by auto
    then show ?thesis by (cases rule: commit_generation_cases) auto
  qed (use written in auto)
qed auto

lemma save_and_swap_cases:
  assumes "save_and_swap ctx io updated st w = (r, st', w')"
  obtains (saved) "r = Inr ()" "generation st \<noteq> -1"
      "st' = st\<lparr>stored := updated, generation := generation st + 1\<rparr>" "\<not> requiresReload st"
  | (failed) e where "r = Inl e" "stored st' = stored st" "generation st' = generation st"
proof -
  obtain r1 st1 w1 where run: "save_storage ctx io updated st w = (r1, st1, w1)"
    by (metis prod_cases3)
  show ?thesis
  proof (cases r1)
    case (Inl e)
    with assms run have "r = Inl e" "st' = st1" by (simp_all add: save_and_swap_def)
    with failed save_storage_Inl [OF run [unfolded Inl]] show ?thesis by simp
  next
    case (Inr u)
    with assms run have "r = Inr ()" "st' = st1\<lparr>stored := updated\<rparr>"
      by (simp_all add: save_and_swap_def)
    with saved save_storage_Inr [OF run [unfolded Inr]] show ?thesis by simp
  qed
qed

lemma atomic_write_cases:
  assumes "atomic_write_file ctx outcome contents w = (r, w')"
  obtains (kept) e d where "r = Inl e" "w' = w\<lparr>w_dir := d\<rparr>"
      "d = w_dir w \<or> d = prepare_store_directory (ctx_euid ctx) (w_dir w)"
  | (replaced) d where "w' = w\<lparr>w_dir := d, w_file := Opened (store_file (ctx_euid ctx) contents)\<rparr>"
      "open_store_directory (ctx_euid ctx) d = Inr ()" "valid_filename (ctx_filename ctx)"
      "r = Inr () \<or> (\<exists>e. r = Inl e)"
proof (cases "valid_filename (ctx_filename ctx)")
  case False
  with assms have "r = Inl (InvalidArgument ''Credential store path must include a valid filename'')"
    "w' = w\<lparr>w_dir := w_dir w\<rparr>"
    by (simp_all add: atomic_write_file_def)
  then show ?thesis using kept by blast
next
  case True
  let ?d = "prepare_store_directory (ctx_euid ctx) (w_dir w)"
  show ?thesis
  proof (cases "open_store_directory (ctx_euid ctx) ?d")
    case (Inl e)
    with assms True have "r = Inl e" "w' = w\<lparr>w_dir := ?d\<rparr>"
      by (simp_all add: atomic_write_file_def Let_def)
    then show ?thesis using kept by blast
  next
    case (Inr u)
    then have run: "(case outcome of
        Written \<Rightarrow> (Inr (), w\<lparr>w_dir := ?d, w_file := Opened (store_file (ctx_euid ctx) contents)\<rparr>)
      | Failed_before e \<Rightarrow> (Inl e, w\<lparr>w_dir := ?d\<rparr>)
      | Failed_after e \<Rightarrow> (Inl e, w\<lparr>w_dir := ?d, w_file := Opened (store_file (ctx_euid ctx) contents)\<rparr>)) = (r, w')"
      using assms True by (simp add: atomic_write_file_def Let_def)
    show ?thesis
    proof (cases outcome)
      case Written
      with run Inr True replaced [of ?d] show ?thesis by simp
    next
      case (Failed_before e)
      with run kept [of e ?d] show ?thesis by simp
    next
      case (Failed_after e)
      with run Inr True replaced [of ?d] show ?thesis by auto
    qed
  qed
qed

lemma read_store_file_written:
  assumes "valid_filename (ctx_filename ctx)" "open_store_directory (ctx_euid ctx) d = Inr u"
    and "length contents \<le> MAX_STORE_SIZE"
    and "w_dir w = d" "w_file w = Opened (store_file (ctx_euid ctx) contents)"
  shows "read_store_file ctx w = Inr (Some contents)"
  using assms by (cases d) (simp_all add: read_store_file_def open_store_directory_def store_file_def)

lemma read_store_file_prepare:
  assumes "w_dir w = Missing \<Longrightarrow> w_file w = Missing" "read_store_file ctx w = Inr c"
    and "w_dir w' = w_dir w \<or> w_dir w' = prepare_store_directory (ctx_euid ctx) (w_dir w)"
    and "w_file w' = w_file w"
  shows "read_store_file ctx w' = Inr c"
  using assms
  by (cases "w_dir w") (auto simp: read_store_file_def prepare_store_directory_def check_directory_def split: if_splits)

lemma store_envelope_opens:
  assumes "backend_ok (ctx_backend ctx)" "storage_ok storage" "\<forall>iv. io_iv io = Inr iv \<longrightarrow> length iv = NONCE_SIZE"
    and "store_envelope ctx io storage g = Inr envelope"
  shows "\<exists>plain. decrypt_store (ctx_backend ctx) (ctx_key ctx) envelope = Inr (g, plain) \<and>
    bind_result (json_parse (ctx_backend ctx) plain) parse_storage = Inr storage"
proof -
  obtain j where j: "storage_json storage = Inr j" "json_canonical j" "parse_storage j = Inr storage"
    using storage_json_roundtrip [OF assms(2)] by blast
  with assms(4) obtain plain iv where plain: "json_dump (ctx_backend ctx) j = Inr plain" and iv: "io_iv io = Inr iv"
    and enc: "encrypt_store (ctx_backend ctx) (ctx_key ctx) iv plain g = Inr envelope"
    by (auto simp: store_envelope_def bind_result_eq_Inr)
  have "json_parse (ctx_backend ctx) plain = Inr j"
    using assms(1) j(2) plain by (auto simp: backend_ok_def)
  with j(3) envelope_roundtrip [OF assms(1) _ enc] assms(3) iv show ?thesis by auto
qed

section \<open>Crash atomicity\<close>

text \<open>The store and its surroundings agree: file, memory and counter are at the same generation.\<close>

definition synced :: "'c StoreContext \<Rightarrow> ('c \<Rightarrow> u64) \<Rightarrow> CredentialStore \<Rightarrow> 'c World \<Rightarrow> bool" where
  "synced ctx val st w \<longleftrightarrow>
     (w_dir w = Missing \<longrightarrow> w_file w = Missing) \<and>
     disk_holds ctx w (generation st) (stored st) \<and> val (w_counter w) = generation st"

lemma counter_contract_read:
  "counter_contract ops val \<Longrightarrow> ctr_read ops c = (r, c') \<Longrightarrow> val c' = val c \<and> (\<forall>v. r = Inr v \<longrightarrow> v = val c)"
  by (simp add: counter_contract_def)

lemma counter_contract_increment:
  "counter_contract ops val \<Longrightarrow> ctr_increment ops c = (r, c') \<Longrightarrow>
   val c' = val c + 1 \<or> (val c' = val c \<and> r \<noteq> Inr ())"
  by (simp add: counter_contract_def)

lemma advance_counter_value:
  assumes "counter_contract ops val" "advance_counter ops g c = (r, c')"
  shows "val c' = val c \<or> val c' = val c + 1" "r = Inr () \<Longrightarrow> val c' = g"
proof -
  obtain r1 c1 where inc: "ctr_increment ops c = (r1, c1)" by fastforce
  obtain r2 c2 where rd: "ctr_read ops c1 = (r2, c2)" by fastforce
  note contract = counter_contract_increment [OF assms(1) inc] counter_contract_read [OF assms(1) rd]
  show "val c' = val c \<or> val c' = val c + 1"
    using assms(2) inc rd contract
    by (cases r1; cases r2) (auto simp: advance_counter_def split: if_splits)
  show "val c' = g" if "r = Inr ()"
    using that assms(2) inc rd contract
    by (cases r1; cases r2) (auto simp: advance_counter_def split: if_splits)
qed

lemma commit_generation_value:
  assumes ops: "ctx_counter ctx = Some ops" "counter_contract ops val"
    and run: "commit_generation ctx g st w = (r, st', w')"
  shows "val (w_counter w') = val (w_counter w) \<or> val (w_counter w') = val (w_counter w) + 1"
    "r = Inr () \<Longrightarrow> val (w_counter w') = g"
proof -
  obtain r1 c1 where adv: "advance_counter ops g (w_counter w) = (r1, c1)" by fastforce
  obtain r2 c2 where rd: "ctr_read ops c1 = (r2, c2)" by fastforce
  note contract = advance_counter_value [OF ops(2) adv] counter_contract_read [OF ops(2) rd]
  show "val (w_counter w') = val (w_counter w) \<or> val (w_counter w') = val (w_counter w) + 1"
    using run ops adv rd contract
    by (cases r1; cases r2) (auto simp: commit_generation_def split: if_splits)
  show "val (w_counter w') = g" if "r = Inr ()"
    using that run ops adv rd contract
    by (cases r1; cases r2) (auto simp: commit_generation_def split: if_splits)
qed

text \<open>What an interrupted save leaves: the old file with the old count, or the new file with the
  counter not yet or already advanced.\<close>

definition recoverable ::
    "'c StoreContext \<Rightarrow> ('c \<Rightarrow> u64) \<Rightarrow> u64 \<Rightarrow> Storage \<Rightarrow> Storage \<Rightarrow> 'c World \<Rightarrow> bool" where
  "recoverable ctx val g old new w \<longleftrightarrow>
     (disk_holds ctx w g old \<and> val (w_counter w) = g) \<or>
     (g \<noteq> -1 \<and> disk_holds ctx w (g + 1) new \<and> val (w_counter w) \<in> {g, g + 1})"

lemma disk_holds_cong:
  "read_store_file ctx w' = read_store_file ctx w \<Longrightarrow> disk_holds ctx w' g s = disk_holds ctx w g s"
  by (simp add: disk_holds_def)

lemma read_store_file_counter [simp]: "read_store_file ctx (w\<lparr>w_counter := c\<rparr>) = read_store_file ctx w"
  by (cases "w_dir w") (simp_all add: read_store_file_def)

lemma disk_holds_read: "disk_holds ctx w g s \<Longrightarrow> \<exists>c. read_store_file ctx w = Inr c"
  by (auto simp: disk_holds_def)

lemma save_storage_atomic:
  assumes backend: "backend_ok (ctx_backend ctx)" and iv: "\<forall>iv. io_iv io = Inr iv \<longrightarrow> length iv = NONCE_SIZE"
    and ops: "ctx_counter ctx = Some ops" "counter_contract ops val"
    and sync: "synced ctx val st w" and ok: "storage_ok updated"
    and size: "\<forall>env. store_envelope ctx io updated (generation st + 1) = Inr env \<longrightarrow> length env \<le> MAX_STORE_SIZE"
    and run: "save_storage ctx io updated st w = (r, st', w')"
  shows "(w_dir w' = Missing \<longrightarrow> w_file w' = Missing) \<and>
    (case r of
       Inr _ \<Rightarrow> disk_holds ctx w' (generation st + 1) updated \<and> val (w_counter w') = generation st + 1
     | Inl _ \<Rightarrow> recoverable ctx val (generation st) (stored st) updated w')"
  using run
proof (cases rule: save_storage_cases)
  case (early e c)
  have "val c = generation st"
  proof -
    consider "c = w_counter w" | r1 where "read_generation ctx st w = (r1, w')" using early(4) by blast
    then show ?thesis
    proof cases
      case 1
      then show ?thesis using sync by (simp add: synced_def)
    next
      case (2 r1)
      obtain r3 c3 where rd: "ctr_read ops (w_counter w) = (r3, c3)" by fastforce
      have "w_counter w' = c3"
        using 2 ops(1) rd by (cases r3) (auto simp: read_generation_def split: if_splits)
      then show ?thesis
        using early(3) counter_contract_read [OF ops(2) rd] sync by (simp add: synced_def)
    qed
  qed
  with early sync show ?thesis
    by (auto simp: synced_def recoverable_def disk_holds_def)
next
  case (written w1 encrypted r2 w2)
  obtain r3 c3 where rd: "ctr_read ops (w_counter w) = (r3, c3)" by fastforce
  have w1: "w1 = w\<lparr>w_counter := c3\<rparr>" "val c3 = generation st"
    using written(3) ops(1) rd counter_contract_read [OF ops(2) rd] sync
    by (cases r3; auto simp: read_generation_def synced_def split: if_splits)+
  obtain c where c: "read_store_file ctx w = Inr c"
    using disk_holds_read [of ctx w "generation st" "stored st"] sync by (auto simp: synced_def)
  have missing: "w_dir w = Missing \<Longrightarrow> w_file w = Missing" using sync by (simp add: synced_def)
  obtain plain where new: "decrypt_store (ctx_backend ctx) (ctx_key ctx) encrypted = Inr (generation st + 1, plain)"
    "bind_result (json_parse (ctx_backend ctx) plain) parse_storage = Inr updated"
    using store_envelope_opens [OF backend ok iv written(4)] by blast
  have limit: "length encrypted \<le> MAX_STORE_SIZE" using size written(4) by blast
  from written(5) show ?thesis
  proof (cases rule: atomic_write_cases)
    case (kept e d)
    have "read_store_file ctx w2 = Inr c"
      by (rule read_store_file_prepare [OF missing c]) (use kept w1 in auto)
    then have "disk_holds ctx w2 (generation st) (stored st)"
      using disk_holds_cong [of ctx w2 w] c sync by (simp add: synced_def)
    moreover have "w_dir w2 = Missing \<longrightarrow> w_file w2 = Missing"
      using kept w1 missing by (auto simp: prepare_store_directory_def split: OpenResult.splits)
    ultimately show ?thesis
      using written(6) kept w1 by (simp add: recoverable_def)
  next
    case (replaced d)
    have d: "d \<noteq> Missing" using replaced(2) by (auto simp: open_store_directory_def)
    have "read_store_file ctx w2 = Inr (Some encrypted)"
      by (rule read_store_file_written [OF replaced(3,2) limit]) (use replaced(1) in simp_all)
    then have disk: "disk_holds ctx w3 (generation st + 1) updated" if "w3 = w2\<lparr>w_counter := c'\<rparr>" for w3 c'
      using new that by (auto simp: disk_holds_def)
    have val2: "val (w_counter w2) = generation st" using replaced(1) w1 by simp
    show ?thesis
    proof (cases r2)
      case (Inl e)
      with written(2,6) val2 disk [of w2 "w_counter w2"] d replaced(1) show ?thesis
        by (simp add: recoverable_def)
    next
      case (Inr u)
      with written(6) have commit: "commit_generation ctx (generation st + 1) st w2 = (r, st', w')" by simp
      then obtain c' where w': "w' = w2\<lparr>w_counter := c'\<rparr>"
        by (cases rule: commit_generation_cases) auto
      note vals = commit_generation_value [OF ops commit]
      show ?thesis
        using disk [OF w'] vals val2 d replaced(1) w' written(2)
        by (cases r) (auto simp: recoverable_def)
    qed
  qed
qed

section \<open>Lemmas: loading\<close>

lemma recover_counter_reliable:
  assumes "ctx_counter ctx = Some ops" "counter_reliable ops val"
    and "val (w_counter w) = counter" "file = counter \<or> file = counter + 1"
  shows "\<exists>c. recover_counter ctx file counter w = (Inr (), w\<lparr>w_counter := c\<rparr>) \<and> val c = file"
proof -
  obtain r1 c1 where inc: "ctr_increment ops (w_counter w) = (r1, c1)" by fastforce
  obtain r2 c2 where rd: "ctr_read ops c1 = (r2, c2)" by fastforce
  have facts: "r1 = Inr ()" "val c1 = counter + 1" "r2 = Inr (val c1)" "val c2 = val c1"
    using assms(2,3) inc rd unfolding counter_reliable_def by (metis fst_conv snd_conv)+
  show ?thesis
  proof (cases "file = counter + 1")
    case True
    with assms(1) inc rd facts show ?thesis
      by (simp add: recover_counter_def) blast
  next
    case False
    with assms show ?thesis
      by (intro exI [of _ "w_counter w"]) (simp add: recover_counter_def)
  qed
qed

lemma word_succ_greater: "x \<noteq> -1 \<Longrightarrow> x < x + (1 :: u64)"
  by (metis add.commute add_eq_0_iff word_less_nat_alt lessI unatSuc)

lemma check_generation_iff:
  "check_generation file counter = Inr u \<longleftrightarrow> file = counter \<or> (file = counter + 1 \<and> counter \<noteq> -1)"
proof (cases "counter = -1")
  case True
  then show ?thesis by (auto simp: check_generation_def not_less word_order.extremum_unique)
next
  case False
  then have succ: "\<not> counter + 1 < counter" "counter + 1 \<noteq> counter"
    using word_succ_greater [of counter] less_asym by auto
  show ?thesis
    by (rule linorder_cases [of "file" counter])
       (use False succ in \<open>auto simp: check_generation_def\<close>)
qed

lemma load_recovers:
  assumes ops: "ctx_counter ctx = Some ops" "counter_reliable ops val"
    and disk: "disk_holds ctx w g storage"
    and count: "val (w_counter w) = g \<or> (val (w_counter w) + 1 = g \<and> g \<noteq> 0)"
  shows "\<exists>c. load_store ctx st w =
      (Inr (), st\<lparr>stored := storage, generation := g, requiresReload := False\<rparr>, w\<lparr>w_counter := c\<rparr>) \<and> val c = g"
proof -
  obtain r1 c1 where rd: "ctr_read ops (w_counter w) = (r1, c1)" by fastforce
  have facts: "r1 = Inr (val (w_counter w))" "val c1 = val (w_counter w)"
    using ops(2) rd unfolding counter_reliable_def by (metis fst_conv snd_conv)+
  from disk consider "read_store_file ctx w = Inr None" "g = 0" "storage = []"
    | envelope plain where "read_store_file ctx w = Inr (Some envelope)"
        "decrypt_store (ctx_backend ctx) (ctx_key ctx) envelope = Inr (g, plain)"
        "bind_result (json_parse (ctx_backend ctx) plain) parse_storage = Inr storage"
    by (auto simp: disk_holds_def)
  then show ?thesis
  proof cases
    case 1
    with count ops rd facts show ?thesis
      by (intro exI [of _ c1]) (auto simp: load_store_def load_missing_def Let_def)
  next
    case (2 envelope plain)
    have wrap: "val (w_counter w) \<noteq> -1 \<or> g \<noteq> val (w_counter w) + 1" using count by auto
    then have check: "check_generation g (val (w_counter w)) = Inr ()"
      using count by (auto simp: check_generation_iff)
    obtain c where "recover_counter ctx g (val (w_counter w)) (w\<lparr>w_counter := c1\<rparr>) =
        (Inr (), w\<lparr>w_counter := c1, w_counter := c\<rparr>)" "val c = g"
      using recover_counter_reliable [OF ops, of "w\<lparr>w_counter := c1\<rparr>"] count facts by auto
    with 2 ops rd facts check show ?thesis
      by (intro exI [of _ c]) (simp add: load_store_def load_envelope_def Let_def)
  qed
qed

lemma disk_holds_counter [simp]: "disk_holds (ctx\<lparr>ctx_counter := x\<rparr>) w g s = disk_holds ctx w g s"
proof -
  have "read_store_file (ctx\<lparr>ctx_counter := x\<rparr>) w = read_store_file ctx w"
    by (cases "w_dir w"; cases "w_file w") (simp_all add: read_store_file_def)
  then show ?thesis by (simp add: disk_holds_def)
qed

lemma load_after_save:
  assumes rel: "counter_reliable ops' val" and rec: "recoverable ctx val g old new w"
  shows "\<exists>st'' w''. load_store (ctx\<lparr>ctx_counter := Some ops'\<rparr>) st w = (Inr (), st'', w'') \<and>
    (stored st'' = old \<and> generation st'' = g \<or> stored st'' = new \<and> generation st'' = g + 1) \<and>
    \<not> requiresReload st'' \<and> val (w_counter w'') = generation st''"
proof -
  let ?ctx = "ctx\<lparr>ctx_counter := Some ops'\<rparr>"
  from rec consider "disk_holds ?ctx w g old" "val (w_counter w) = g"
    | "g \<noteq> -1" "disk_holds ?ctx w (g + 1) new" "val (w_counter w) = g \<or> val (w_counter w) = g + 1"
    by (auto simp: recoverable_def)
  then show ?thesis
  proof cases
    case 1
    from load_recovers [OF _ rel 1(1), of st] 1(2) show ?thesis by auto
  next
    case 2
    then have "g + 1 \<noteq> 0" by (metis add.right_neutral add_eq_0_iff minus_equation_iff)
    with load_recovers [OF _ rel 2(2), of st] 2(3) show ?thesis by auto
  qed
qed

text \<open>A load that succeeds leaves the store at the counter's value, and never behind the value the
  counter had.\<close>

lemma load_fresh:
  assumes ops: "ctx_counter ctx = Some ops" "counter_contract ops val"
    and run: "load_store ctx st w = (Inr (), st', w')"
  shows "val (w_counter w') = generation st' \<and>
    (generation st' = val (w_counter w) \<or> generation st' = val (w_counter w) + 1 \<and> val (w_counter w) \<noteq> -1) \<and>
    \<not> requiresReload st'"
proof -
  obtain r1 c1 where rd: "ctr_read ops (w_counter w) = (r1, c1)" by fastforce
  note read1 = counter_contract_read [OF ops(2) rd]
  from run obtain f where f: "read_store_file ctx w = Inr f"
    by (auto simp: load_store_def split: sum.splits)
  show ?thesis
  proof (cases f)
    case None
    with run f ops(1) rd read1 show ?thesis
      by (cases r1) (auto simp: load_store_def load_missing_def Let_def split: if_splits)
  next
    case (Some envelope)
    with run f have run1: "load_envelope ctx envelope st w = (Inr (), st', w')"
      by (simp add: load_store_def)
    then obtain g plain where dec: "decrypt_store (ctx_backend ctx) (ctx_key ctx) envelope = Inr (g, plain)"
      by (auto simp: load_envelope_def split: sum.splits)
    from run1 dec ops(1) rd obtain v where v: "r1 = Inr v"
      by (cases r1) (auto simp: load_envelope_def Let_def)
    then have val: "v = val (w_counter w)" "val c1 = val (w_counter w)" using read1 by simp_all
    from run1 dec ops(1) rd v obtain loaded where
      check: "check_generation g v = Inr ()"
      and rec: "recover_counter ctx g v (w\<lparr>w_counter := c1\<rparr>) = (Inr (), w')"
      and st': "st' = st\<lparr>stored := loaded, generation := g, requiresReload := False\<rparr>"
      by (auto simp: load_envelope_def Let_def bind_result_def split: sum.splits prod.splits)
    obtain r2 c2 where inc: "ctr_increment ops c1 = (r2, c2)" by fastforce
    obtain r3 c3 where rd3: "ctr_read ops c2 = (r3, c3)" by fastforce
    note contract = counter_contract_increment [OF ops(2) inc] counter_contract_read [OF ops(2) rd3]
    have "val (w_counter w') = g"
    proof (cases "g = v + 1")
      case True
      with rec ops(1) inc rd3 contract show ?thesis
        by (cases r2; cases r3) (auto simp: recover_counter_def split: if_splits)
    next
      case False
      with rec ops(1) check val show ?thesis
        by (auto simp: recover_counter_def check_generation_iff)
    qed
    with check val st' show ?thesis by (auto simp: check_generation_iff)
  qed
qed

end
