(* ===== verification/Store_Laws.thy ===== *)
theory Store_Laws
  imports Credential_Store "HOL-Library.Sublist"
begin

text \<open>
  The behaviour of the credential store: every operation keeps the invariant, what each mutation
  changes, what the queries return and in which order, and what survives an interrupted save.
\<close>

section \<open>Lemmas: mutations\<close>

definition new_credential :: "CredentialStore \<Rightarrow> StoredCredential \<Rightarrow> u32 \<Rightarrow> StoredCredential" where
  "new_credential st cred owner_uid =
     cred\<lparr>cred_ownerUid := owner_uid, cred_creationOrder := generation st + 1\<rparr>"

text \<open>The credentials that a new discoverable credential replaces.\<close>

definition superseded_by :: "StoredCredential \<Rightarrow> StoredCredential \<Rightarrow> bool" where
  "superseded_by new existing \<longleftrightarrow>
     cred_discoverable new \<and> cred_discoverable existing \<and> cred_ownerUid existing = cred_ownerUid new \<and>
     cred_rpId existing = cred_rpId new \<and> cred_userId existing = cred_userId new"

lemma put_storage_Inr:
  assumes "put_storage st cred owner_uid = Inr updated"
  shows "credential_ok (new_credential st cred owner_uid)" "generation st \<noteq> -1"
    "map_of (stored st) (hex_text (cred_id cred)) = None"
    "updated = (hex_text (cred_id cred), new_credential st cred owner_uid) #
       filter (\<lambda>(_, c). \<not> superseded_by (new_credential st cred owner_uid) c) (stored st)"
    "length updated \<le> MAX_CREDENTIALS"
proof -
  let ?new = "new_credential st cred owner_uid"
  from assms have ok: "credential_ok ?new" and gen: "generation st \<noteq> -1"
    by (auto simp: put_storage_def bind_result_eq_Inr Let_def new_credential_def split: if_splits)
  have hex: "hex_encode (cred_id cred) = Inr (hex_text (cred_id cred))"
    using ok by (simp add: credential_ok_def new_credential_def)
  show "credential_ok ?new" "generation st \<noteq> -1" by (fact ok, fact gen)
  show "map_of (stored st) (hex_text (cred_id cred)) = None"
    using assms hex by (auto simp: put_storage_def bind_result_eq_Inr Let_def split: if_splits)
  show "updated = (hex_text (cred_id cred), ?new) # filter (\<lambda>(_, c). \<not> superseded_by ?new c) (stored st)"
    using assms hex
    by (auto simp: put_storage_def bind_result_eq_Inr Let_def new_credential_def superseded_by_def
        split: if_splits intro!: filter_cong)
  show "length updated \<le> MAX_CREDENTIALS"
    using assms by (auto simp: put_storage_def bind_result_eq_Inr Let_def not_le split: if_splits)
qed

lemma erase_storage_Inr:
  assumes "erase_storage st credential_id owner_uid = Inr updated"
  shows "\<exists>key c. hex_encode credential_id = Inr key \<and> map_of (stored st) key = Some c \<and>
    cred_ownerUid c = owner_uid \<and> updated = filter (\<lambda>(k, _). k \<noteq> key) (stored st)"
  using assms
  by (auto simp: erase_storage_def bind_result_eq_Inr split: option.splits if_splits)

definition bump :: "string \<Rightarrow> string \<times> StoredCredential \<Rightarrow> string \<times> StoredCredential" where
  "bump key = (\<lambda>(k, c). (k, if k = key then c\<lparr>cred_signCount := cred_signCount c + 1\<rparr> else c))"

lemma increment_storage_Inr:
  assumes "increment_storage st credential_id owner_uid = Inr updated"
  shows "\<exists>key c. hex_encode credential_id = Inr key \<and> map_of (stored st) key = Some c \<and>
    cred_ownerUid c = owner_uid \<and> cred_signCount c \<noteq> -1 \<and> updated = map (bump key) (stored st)"
  using assms
  by (auto simp: increment_storage_def bump_def bind_result_eq_Inr split: option.splits if_splits)

lemma storage_ok_filter: "storage_ok s \<Longrightarrow> storage_ok (filter P s)"
  unfolding storage_ok_def
  by (auto simp: distinct_map_filter intro: order.trans [OF length_filter_le])

lemma store_ok_unique:
  assumes "store_ok st" "c \<in> set (map snd (stored st))" "d \<in> set (map snd (stored st))"
    and "cred_discoverable c" "cred_discoverable d" "cred_ownerUid c = cred_ownerUid d"
    "cred_rpId c = cred_rpId d" "cred_userId c = cred_userId d"
  shows "c = d"
  using assms unfolding store_ok_def by blast

lemma store_ok_restrict:
  assumes "store_ok st" "generation st \<le> g"
  shows "store_ok (st\<lparr>stored := filter P (stored st), generation := g\<rparr>)"
  using assms storage_ok_filter [of "stored st" P]
  unfolding store_ok_def by (auto simp: distinct_map_filter comp_def)

lemma store_ok_put:
  assumes st: "store_ok st" and put: "put_storage st cred owner_uid = Inr updated"
  shows "store_ok (st\<lparr>stored := updated, generation := generation st + 1\<rparr>)"
proof -
  let ?new = "new_credential st cred owner_uid" and ?g = "generation st + 1"
  let ?keep = "filter (\<lambda>(_, c). \<not> superseded_by ?new c) (stored st)"
  note facts = put_storage_Inr [OF put]
  have less: "generation st < ?g" using word_succ_greater facts(2) by blast
  have keep: "store_ok (st\<lparr>stored := ?keep, generation := ?g\<rparr>)"
    by (rule store_ok_restrict [OF st]) (use less in simp)
  have "hex_text (cred_id cred) \<notin> fst ` set (stored st)"
    using facts(3) by (simp add: map_of_eq_None_iff)
  then have storage: "storage_ok updated"
    using keep facts(1,4,5) by (auto simp: store_ok_def storage_ok_def new_credential_def)
  have older: "cred_creationOrder c \<noteq> ?g" if "c \<in> snd ` set (stored st)" for c
    using that st less by (auto simp: store_ok_def)
  have unique: "\<not> superseded_by ?new c" if "(k, c) \<in> set ?keep" for k c
    using that by auto
  show ?thesis
    unfolding store_ok_def
  proof (intro conjI ballI impI)
    show "storage_ok (stored (st\<lparr>stored := updated, generation := ?g\<rparr>))" using storage by simp
    show "distinct (map (cred_creationOrder \<circ> snd) (stored (st\<lparr>stored := updated, generation := ?g\<rparr>)))"
      using keep older facts(4) by (force simp: store_ok_def new_credential_def)
  next
    fix c assume "c \<in> set (map snd (stored (st\<lparr>stored := updated, generation := ?g\<rparr>)))"
    then show "cred_creationOrder c \<le> generation (st\<lparr>stored := updated, generation := ?g\<rparr>)"
      using keep facts(4) by (auto simp: store_ok_def new_credential_def)
  next
    fix c d
    assume "c \<in> set (map snd (stored (st\<lparr>stored := updated, generation := ?g\<rparr>)))"
      "d \<in> set (map snd (stored (st\<lparr>stored := updated, generation := ?g\<rparr>)))"
      and same: "cred_discoverable c \<and> cred_discoverable d \<and> cred_ownerUid c = cred_ownerUid d \<and>
        cred_rpId c = cred_rpId d \<and> cred_userId c = cred_userId d"
    then have "c = ?new \<or> c \<in> snd ` set ?keep" "d = ?new \<or> d \<in> snd ` set ?keep"
      using facts(4) by auto
    then show "c = d"
      using same keep unique by (fastforce simp: store_ok_def superseded_by_def)
  qed
qed

lemma bump_simps [simp]:
  "fst (bump key kc) = fst kc" "cred_creationOrder (snd (bump key kc)) = cred_creationOrder (snd kc)"
  "cred_id (snd (bump key kc)) = cred_id (snd kc)"
  "cred_discoverable (snd (bump key kc)) = cred_discoverable (snd kc)"
  "cred_ownerUid (snd (bump key kc)) = cred_ownerUid (snd kc)"
  "cred_rpId (snd (bump key kc)) = cred_rpId (snd kc)" "cred_userId (snd (bump key kc)) = cred_userId (snd kc)"
  "credential_ok (snd (bump key kc)) = credential_ok (snd kc)"
  by (cases kc; simp add: bump_def credential_ok_def)+

lemma storage_okD: "storage_ok s \<Longrightarrow> kc \<in> set s \<Longrightarrow> fst kc = hex_text (cred_id (snd kc))"
  by (auto simp: storage_ok_def)

lemma store_ok_bump:
  assumes st: "store_ok st" and g: "generation st \<le> g"
  shows "store_ok (st\<lparr>stored := map (bump key) (stored st), generation := g\<rparr>)"
proof -
  have ok: "storage_ok (stored st)" using st by (simp add: store_ok_def)
  then have "storage_ok (map (bump key) (stored st))"
    by (auto simp: storage_ok_def comp_def split_beta)
  have "bump key a = bump key b" if "a \<in> set (stored st)" "b \<in> set (stored st)" "snd a = snd b" for a b
    using that storage_okD [OF ok] by (metis prod.expand)
  note same = this
  let ?st = "st\<lparr>stored := map (bump key) (stored st), generation := g\<rparr>"
  have creds: "\<exists>a \<in> set (stored st). c = snd (bump key a)" if "c \<in> set (map snd (stored ?st))" for c
    using that by auto
  show ?thesis
    unfolding store_ok_def
  proof (intro conjI ballI impI)
    show "storage_ok (stored ?st)" using \<open>storage_ok (map (bump key) (stored st))\<close> by simp
    show "distinct (map (cred_creationOrder \<circ> snd) (stored ?st))"
      using st by (simp add: store_ok_def comp_def)
  next
    fix c assume "c \<in> set (map snd (stored ?st))"
    from creds [OF this] obtain a where "a \<in> set (stored st)" "c = snd (bump key a)" by blast
    then show "cred_creationOrder c \<le> generation ?st"
      using st g by (auto simp: store_ok_def intro: order.trans)
  next
    fix c d
    assume "c \<in> set (map snd (stored ?st))" "d \<in> set (map snd (stored ?st))"
      and eq: "cred_discoverable c \<and> cred_discoverable d \<and> cred_ownerUid c = cred_ownerUid d \<and>
        cred_rpId c = cred_rpId d \<and> cred_userId c = cred_userId d"
    then obtain a b where ab: "a \<in> set (stored st)" "b \<in> set (stored st)"
      "c = snd (bump key a)" "d = snd (bump key b)"
      using creds by metis
    have "snd a \<in> set (map snd (stored st))" "snd b \<in> set (map snd (stored st))"
      using ab(1,2) by simp_all
    from store_ok_unique [OF st this] have "snd a = snd b"
      using eq [unfolded ab(3,4) bump_simps] by blast
    then show "c = d" unfolding ab(3,4) using same [OF ab(1,2)] by simp
  qed
qed

lemma store_ok_save_and_swap:
  assumes "store_ok st" "save_and_swap ctx io updated st w = (r, st', w')"
    and "generation st \<noteq> -1 \<Longrightarrow> store_ok (st\<lparr>stored := updated, generation := generation st + 1\<rparr>)"
  shows "store_ok st'"
  using assms(2)
proof (cases rule: save_and_swap_cases)
  case saved
  with assms(3) show ?thesis by simp
next
  case (failed e)
  with assms(1) show ?thesis by (simp add: store_ok_def)
qed

lemma store_ok_save_result:
  assumes "store_ok st" "save_result ctx io u st w = (r, st', w')"
    and "\<And>updated. u = Inr updated \<Longrightarrow> generation st \<noteq> -1 \<Longrightarrow>
      store_ok (st\<lparr>stored := updated, generation := generation st + 1\<rparr>)"
  shows "store_ok st'"
proof (cases u)
  case (Inl e)
  with assms(1,2) show ?thesis by (simp add: save_result_def)
next
  case (Inr updated)
  then have "save_and_swap ctx io updated st w = (r, st', w')" using assms(2) by (simp add: save_result_def)
  then show ?thesis by (rule store_ok_save_and_swap [OF assms(1)]) (use assms(3) Inr in blast)
qed

lemma store_ok_updates:
  assumes st: "store_ok st" and g: "generation st \<noteq> -1"
  shows "erase_storage st credential_id owner_uid = Inr updated \<Longrightarrow>
      store_ok (st\<lparr>stored := updated, generation := generation st + 1\<rparr>)"
    "increment_storage st credential_id owner_uid = Inr updated \<Longrightarrow>
      store_ok (st\<lparr>stored := updated, generation := generation st + 1\<rparr>)"
    "store_ok (st\<lparr>stored := [], generation := generation st + 1\<rparr>)"
proof -
  have le: "generation st \<le> generation st + 1"
    using word_succ_greater [OF g] by simp
  show "store_ok (st\<lparr>stored := updated, generation := generation st + 1\<rparr>)"
    if "erase_storage st credential_id owner_uid = Inr updated"
    using erase_storage_Inr [OF that] store_ok_restrict [OF st le] by blast
  show "store_ok (st\<lparr>stored := updated, generation := generation st + 1\<rparr>)"
    if "increment_storage st credential_id owner_uid = Inr updated"
    using increment_storage_Inr [OF that] store_ok_bump [OF st le] by blast
  show "store_ok (st\<lparr>stored := [], generation := generation st + 1\<rparr>)"
    by (simp add: store_ok_def)
qed

section \<open>Lemmas: queries\<close>

lemma assertion_before_order: "transp assertion_before" "irreflp assertion_before"
  by (auto simp: transp_def irreflp_def assertion_before_def split: if_splits)

lemma summary_before_order: "transp summary_before" "irreflp summary_before"
  unfolding transp_def irreflp_def summary_before_def
  by (auto split: if_splits)

lemma stored_distinct:
  assumes "store_ok st"
  shows "distinct (map snd (stored st))" "c \<in> snd ` set (stored st) \<Longrightarrow> d \<in> snd ` set (stored st) \<Longrightarrow>
    cred_creationOrder c = cred_creationOrder d \<Longrightarrow> c = d"
proof -
  have d: "distinct (map (cred_creationOrder \<circ> snd) (stored st))"
    using assms by (simp add: store_ok_def)
  then show "distinct (map snd (stored st))"
    by (metis distinct_map list.map_comp)
  show "c = d" if "c \<in> snd ` set (stored st)" "d \<in> snd ` set (stored st)"
    "cred_creationOrder c = cred_creationOrder d"
  proof -
    have "inj_on cred_creationOrder (set (map snd (stored st)))"
      using d by (metis distinct_map list.map_comp)
    with that show ?thesis by (auto dest: inj_onD)
  qed
qed

lemma find_discoverable:
  assumes st: "store_ok st" and ready: "\<not> requiresReload st"
  shows "\<exists>cs. find_for_assertion st rp_id [] owner_uid = Inr cs \<and>
    set cs = {c \<in> snd ` set (stored st). cred_ownerUid c = owner_uid \<and> cred_discoverable c \<and> cred_rpId c = rp_id} \<and>
    distinct cs \<and> sorted_wrt (\<lambda>c d. cred_creationOrder c > cred_creationOrder d) cs"
proof -
  let ?m = "filter (\<lambda>c. cred_ownerUid c = owner_uid \<and> cred_discoverable c \<and> cred_rpId c = rp_id)
            (map snd (stored st))"
  have dist: "distinct ?m" using stored_distinct(1) [OF st] by simp
  have total: "cred_creationOrder x \<noteq> cred_creationOrder y" if "x \<in> set ?m" "y \<in> set ?m" "x \<noteq> y" for x y
    using that stored_distinct(2) [OF st, of x y] by auto
  have either: "assertion_before x y \<or> assertion_before y x" if "x \<in> set ?m" "y \<in> set ?m" "x \<noteq> y" for x y
    using total [OF that] linorder_neq_iff [of "cred_creationOrder x" "cred_creationOrder y"]
    by (simp add: assertion_before_def) blast
  have "sorted_wrt assertion_before (sort_by assertion_before ?m)"
    by (rule sorted_sort_by [OF assertion_before_order(1) dist either])
  then have "sorted_wrt (\<lambda>c d. cred_creationOrder c > cred_creationOrder d) (sort_by assertion_before ?m)"
  proof (rule sorted_wrt_mono_rel [rotated])
    fix x y
    assume xy: "x \<in> set (sort_by assertion_before ?m)" "y \<in> set (sort_by assertion_before ?m)" "assertion_before x y"
    have "x \<noteq> y" using assertion_before_order(2) xy(3) by (metis irreflpD)
    with total xy(1,2) have "cred_creationOrder x \<noteq> cred_creationOrder y" unfolding set_sort_by by blast
    then show "cred_creationOrder x > cred_creationOrder y"
      using xy(3) unfolding assertion_before_def by simp
  qed
  moreover have "distinct (sort_by assertion_before ?m)" using dist by simp
  ultimately show ?thesis
    using ready by (auto simp: find_for_assertion_def require_ready_def)
qed

text \<open>The credential an allow-list descriptor selects.\<close>

definition descriptor_match ::
    "CredentialStore \<Rightarrow> string \<Rightarrow> u32 \<Rightarrow> PublicKeyCredentialDescriptor \<Rightarrow> StoredCredential option" where
  "descriptor_match st rp_id owner_uid d =
     (if desc_type d = ''public-key'' then
        (case map_of (stored st) (hex_text (desc_id d)) of
           Some c \<Rightarrow> if cred_ownerUid c = owner_uid \<and> cred_rpId c = rp_id then Some c else None
         | None \<Rightarrow> None)
      else None)"

lemma descriptor_match_id:
  "storage_ok (stored st) \<Longrightarrow> descriptor_match st rp_id owner_uid d = Some c \<Longrightarrow> cred_id c = desc_id d"
  by (auto simp: descriptor_match_def storage_ok_def split: if_splits option.splits dest!: map_of_SomeD)

lemma match_allow_list_spec:
  assumes ok: "storage_ok (stored st)" and ids: "\<forall>d \<in> set allow_list. length (desc_id d) \<le> 65536"
  shows "\<exists>cs. match_allow_list st rp_id owner_uid seen allow_list = Inr cs \<and>
    set cs = {c. \<exists>d \<in> set allow_list. hex_text (desc_id d) \<notin> set seen \<and>
      descriptor_match st rp_id owner_uid d = Some c} \<and>
    distinct cs \<and> subseq cs (List.map_filter (descriptor_match st rp_id owner_uid) allow_list)"
  using ids
proof (induction allow_list arbitrary: seen)
  case Nil
  show ?case by (simp add: List.map_filter_simps)
next
  case (Cons d allow_list)
  let ?m = "descriptor_match st rp_id owner_uid"
  have step: "List.map_filter ?m (d # allow_list) =
      (case ?m d of None \<Rightarrow> List.map_filter ?m allow_list | Some c \<Rightarrow> c # List.map_filter ?m allow_list)"
    by (simp add: List.map_filter_simps)
  have hex: "hex_encode (desc_id d) = Inr (hex_text (desc_id d))" using Cons.prems by simp
  show ?case
  proof (cases "desc_type d = ''public-key'' \<and> hex_text (desc_id d) \<notin> set seen")
    case False
    obtain cs where "match_allow_list st rp_id owner_uid seen allow_list = Inr cs"
      "set cs = {c. \<exists>d \<in> set allow_list. hex_text (desc_id d) \<notin> set seen \<and> ?m d = Some c}"
      "distinct cs" "subseq cs (List.map_filter ?m allow_list)"
      using Cons.IH [of seen] Cons.prems by auto
    moreover have "\<not> (hex_text (desc_id d) \<notin> set seen \<and> ?m d = Some c)" for c
      using False by (auto simp: descriptor_match_def)
    ultimately show ?thesis
      using False hex by (auto simp: step split: option.splits)
  next
    case True
    let ?seen = "hex_text (desc_id d) # seen"
    obtain cs where cs: "match_allow_list st rp_id owner_uid ?seen allow_list = Inr cs"
      "set cs = {c. \<exists>d \<in> set allow_list. hex_text (desc_id d) \<notin> set ?seen \<and> ?m d = Some c}"
      "distinct cs" "subseq cs (List.map_filter ?m allow_list)"
      using Cons.IH [of ?seen] Cons.prems by auto
    have sel: "c = c'" if "?m d = Some c" "?m d' = Some c'" "desc_id d' = desc_id d" for c c' d'
      using that by (auto simp: descriptor_match_def split: if_splits option.splits)
    have none: "desc_id d' \<noteq> desc_id d" if "?m d = None" "?m d' = Some c" for c d'
      using that True by (auto simp: descriptor_match_def split: if_splits option.splits)
    show ?thesis
    proof (cases "?m d")
      case None
      have "match_allow_list st rp_id owner_uid seen (d # allow_list) = Inr cs"
        using True None hex cs(1) by (auto simp: descriptor_match_def split: option.splits if_splits)
      moreover have "set cs = {c. \<exists>d \<in> set (d # allow_list). hex_text (desc_id d) \<notin> set seen \<and> ?m d = Some c}"
        using cs(2) None none by fastforce
      ultimately show ?thesis using cs(3,4) by (simp add: step None)
    next
      case (Some c)
      have "match_allow_list st rp_id owner_uid seen (d # allow_list) = Inr (c # cs)"
        using True Some hex cs(1) by (auto simp: descriptor_match_def split: option.splits if_splits)
      moreover have "set (c # cs) = {c. \<exists>d \<in> set (d # allow_list). hex_text (desc_id d) \<notin> set seen \<and> ?m d = Some c}"
      proof (intro equalityI subsetI)
        fix x assume "x \<in> set (c # cs)"
        then show "x \<in> {c. \<exists>d \<in> set (d # allow_list). hex_text (desc_id d) \<notin> set seen \<and> ?m d = Some c}"
          using cs(2) Some True by (cases "x = c") auto
      next
        fix x assume "x \<in> {c. \<exists>d \<in> set (d # allow_list). hex_text (desc_id d) \<notin> set seen \<and> ?m d = Some c}"
        then obtain d' where d': "d' \<in> set (d # allow_list)" "hex_text (desc_id d') \<notin> set seen" "?m d' = Some x"
          by blast
        show "x \<in> set (c # cs)"
        proof (cases "desc_id d' = desc_id d")
          case True
          with sel [OF Some d'(3)] show ?thesis by simp
        next
          case False
          then have "d' \<in> set allow_list" using d'(1) by auto
          with False d' show ?thesis by (auto simp: cs(2))
        qed
      qed
      moreover have "c \<notin> set cs"
        using cs(2) descriptor_match_id [OF ok Some] descriptor_match_id [OF ok] by auto
      ultimately show ?thesis using cs(3,4) by (simp add: step Some)
    qed
  qed
qed

lemma map_of_filter_snd:
  "distinct (map fst s) \<Longrightarrow>
   map_of (filter (\<lambda>(_, c). P c) s) k = (case map_of s k of Some c \<Rightarrow> if P c then Some c else None | None \<Rightarrow> None)"
  by (induction s) (auto simp: map_of_eq_None_iff image_iff split: option.splits)

lemma map_of_bump:
  "map_of (map (bump key) s) k =
     (if k = key then map_option (\<lambda>c. c\<lparr>cred_signCount := cred_signCount c + 1\<rparr>) (map_of s k) else map_of s k)"
  by (induction s) (auto simp: bump_def)

lemma save_result_Inr:
  assumes "save_result ctx io u st w = (Inr (), st', w')"
  obtains updated where "u = Inr updated" "generation st \<noteq> -1"
    "st' = st\<lparr>stored := updated, generation := generation st + 1\<rparr>"
proof (cases u)
  case (Inl e)
  with assms show ?thesis by (simp add: save_result_def)
next
  case (Inr updated)
  then have "save_and_swap ctx io updated st w = (Inr (), st', w')"
    using assms by (simp add: save_result_def)
  then show ?thesis
    by (cases rule: save_and_swap_cases) (use that Inr in auto)
qed

section \<open>Sample store\<close>

text \<open>A concrete credential, context and world on which the properties below are exercised.\<close>

definition sample_credential :: StoredCredential where
  "sample_credential = \<lparr>cred_id = replicate 16 1, cred_ownerUid = 0, cred_rpId = ''rp'',
     cred_userId = [7], cred_userName = [], cred_userDisplayName = [], cred_alg = -7,
     cred_signCount = 0, cred_private_blob = [1], cred_public_blob = [2], cred_discoverable = True,
     cred_creationOrder = 0\<rparr>"

definition sample_storage :: Storage where
  "sample_storage =
     [(hex_text (replicate 16 1), sample_credential\<lparr>cred_ownerUid := 1000, cred_creationOrder := 1\<rparr>)]"

definition sample_store :: CredentialStore where
  "sample_store = \<lparr>stored = sample_storage, generation = 1, requiresReload = False\<rparr>"

definition sample_counter :: "u64 CounterOps" where
  "sample_counter = \<lparr>ctr_read = (\<lambda>c. (Inr c, c)), ctr_increment = (\<lambda>c. (Inr (), c + 1))\<rparr>"

text \<open>A counter whose increments fail.\<close>

definition failing_counter :: "u64 CounterOps" where
  "failing_counter = \<lparr>ctr_read = (\<lambda>c. (Inr c, c)),
     ctr_increment = (\<lambda>c. (Inl (RuntimeError ''Fapi_NvIncrement''), c))\<rparr>"

definition sample_backend :: StoreBackend where
  "sample_backend =
     \<lparr>gcm_seal = (\<lambda>key iv aad plain. Inr (plain, replicate 16 0)),
      gcm_open = (\<lambda>key iv aad cipher tag. if tag = replicate 16 0 then Some cipher else None),
      json_dump = (\<lambda>j. if storage_json [] = Inr j then Inr [0]
         else if storage_json sample_storage = Inr j then Inr [1] else Inl (RuntimeError ''dump'')),
      json_parse = (\<lambda>s. if s = [0] then storage_json [] else storage_json sample_storage)\<rparr>"

definition sample_context :: "u64 CounterOps \<Rightarrow> u64 StoreContext" where
  "sample_context ops = \<lparr>ctx_backend = sample_backend, ctx_key = replicate 32 9,
     ctx_filename = ''store'', ctx_euid = 900, ctx_counter = Some ops\<rparr>"

definition sample_world :: "u64 World" where
  "sample_world = \<lparr>w_dir = Missing, w_file = Missing, w_counter = 0\<rparr>"

definition sample_io :: SaveIO where
  "sample_io = \<lparr>io_iv = Inr (replicate 12 3), io_write = Written\<rparr>"

lemma sample_backend_ok: "backend_ok sample_backend"
  by (simp add: backend_ok_def sample_backend_def TAG_SIZE_def)

lemma sample_counters:
  "counter_contract sample_counter id" "counter_reliable sample_counter id" "counter_contract failing_counter id"
  by (simp_all add: counter_contract_def counter_reliable_def sample_counter_def failing_counter_def)

lemma sample_put: "put_storage initial_store sample_credential 1000 = Inr sample_storage"
  by (simp add: put_storage_def initial_store_def require_ready_def sample_credential_def
      validate_credential_def MAX_CREDENTIALS_def MAX_CREDENTIAL_BLOB_SIZE_def sample_storage_def)

lemma store_ok_initial: "store_ok initial_store"
  by (simp add: store_ok_def initial_store_def)

lemma store_ok_sample: "store_ok sample_store"
  using store_ok_put [OF store_ok_initial sample_put] by (simp add: sample_store_def initial_store_def)

lemma sample_ready: "\<not> requiresReload sample_store"
  by (simp add: sample_store_def)

lemma sample_synced: "synced (sample_context ops) id initial_store sample_world"
  by (simp add: synced_def disk_holds_def read_store_file_def sample_context_def sample_world_def
      initial_store_def valid_filename_def)

lemma sample_envelope:
  "store_envelope (sample_context ops) sample_io sample_storage 1 =
     Inr (envelope_header 1 (replicate 12 3) @ [1] @ replicate 16 0)"
proof -
  obtain j where j: "storage_json sample_storage = Inr j" "parse_storage j = Inr sample_storage"
    using storage_json_roundtrip [of sample_storage] store_ok_sample
    by (auto simp: store_ok_def sample_store_def)
  have "storage_json [] = Inr (JArray [])" by (simp add: storage_json_def)
  moreover have "j \<noteq> JArray []" using j(2) by (auto simp: parse_storage_def sample_storage_def)
  ultimately have "json_dump sample_backend j = Inr [1]"
    using j(1) by (simp add: sample_backend_def)
  with j(1) show ?thesis
    by (simp add: store_envelope_def sample_context_def sample_io_def encrypt_store_def Let_def
        openssl_checked_size_def envelope_header_def) (simp add: sample_backend_def)
qed

text \<open>A context in which every save succeeds.\<close>

definition lenient_context :: "u64 StoreContext" where
  "lenient_context = (sample_context sample_counter)\<lparr>ctx_backend := sample_backend\<lparr>json_dump := (\<lambda>_. Inr [])\<rparr>\<rparr>"

lemma lenient_save:
  assumes "storage_ok updated" "generation st \<noteq> -1" "\<not> requiresReload st"
    and w: "w = sample_world\<lparr>w_counter := generation st\<rparr>"
  shows "fst (save_storage lenient_context sample_io updated st w) = Inr ()"
proof -
  let ?g = "generation st + 1"
  obtain j where j: "storage_json updated = Inr j" using storage_json_roundtrip [OF assms(1)] by blast
  define env where "env = envelope_header ?g (replicate 12 3) @ replicate 16 0"
  have "store_envelope lenient_context sample_io updated ?g = Inr env"
    by (simp add: store_envelope_def j lenient_context_def sample_context_def sample_io_def encrypt_store_def Let_def
        openssl_checked_size_def envelope_header_def env_def) (simp add: sample_backend_def)
  moreover have "read_generation lenient_context st w = (Inr (generation st), w)"
    by (simp add: read_generation_def lenient_context_def sample_context_def sample_counter_def w)
  moreover have "atomic_write_file lenient_context (io_write sample_io) env w =
      (Inr (), \<lparr>w_dir = Opened \<lparr>dir_is_directory = True, dir_uid = 900, dir_mode = 0x1C0\<rparr>,
         w_file = Opened (store_file 900 env), w_counter = generation st\<rparr>)"
    by (simp add: atomic_write_file_def lenient_context_def sample_context_def sample_world_def sample_io_def
        valid_filename_def Let_def open_store_directory_def check_directory_def prepare_store_directory_def w)
  moreover have "fst (commit_generation lenient_context ?g st' \<lparr>w_dir = d, w_file = f, w_counter = generation st\<rparr>) = Inr ()"
    for st' d f
    by (simp add: commit_generation_def lenient_context_def sample_context_def sample_counter_def advance_counter_def)
  ultimately show ?thesis using assms(2,3) by (simp add: save_storage_def)
qed

lemma lenient_save_result:
  assumes "storage_ok updated" "generation st \<noteq> -1" "\<not> requiresReload st" "w = sample_world\<lparr>w_counter := generation st\<rparr>"
  shows "\<exists>st' w'. save_result lenient_context sample_io (Inr updated) st w = (Inr (), st', w')"
  using lenient_save [OF assms] by (auto simp: save_result_def save_and_swap_def split: prod.splits sum.splits)

lemma sample_increment:
  "\<exists>st' w'. incrementSigCount lenient_context sample_io (replicate 16 1) 1000 sample_store
     (sample_world\<lparr>w_counter := 1\<rparr>) = (Inr (), st', w')"
proof -
  let ?updated = "map (bump (hex_text (replicate 16 1))) sample_storage"
  have up: "increment_storage sample_store (replicate 16 1) 1000 = Inr ?updated"
    by (simp add: increment_storage_def require_ready_def sample_store_def sample_storage_def
        sample_credential_def bump_def)
  moreover from store_ok_updates(2) [OF store_ok_sample _ this] have "storage_ok ?updated"
    by (simp add: sample_store_def store_ok_def)
  ultimately show ?thesis
    using lenient_save_result [of ?updated sample_store] by (simp add: incrementSigCount_def sample_store_def)
qed

lemma sample_save:
  "fst (save_storage (sample_context sample_counter) sample_io sample_storage initial_store sample_world) = Inr ()"
proof -
  let ?ctx = "sample_context sample_counter"
  let ?env = "envelope_header 1 (replicate 12 3) @ [1] @ replicate 16 0"
  have rd: "read_generation ?ctx initial_store sample_world = (Inr 0, sample_world)"
    by (simp add: read_generation_def sample_context_def sample_counter_def sample_world_def initial_store_def)
  have wr: "atomic_write_file ?ctx (io_write sample_io) ?env sample_world =
      (Inr (), \<lparr>w_dir = Opened \<lparr>dir_is_directory = True, dir_uid = 900, dir_mode = 0x1C0\<rparr>,
         w_file = Opened (store_file 900 ?env), w_counter = 0\<rparr>)"
    by (simp add: atomic_write_file_def sample_context_def sample_world_def sample_io_def valid_filename_def
        Let_def open_store_directory_def check_directory_def prepare_store_directory_def)
  have commit: "fst (commit_generation ?ctx 1 st \<lparr>w_dir = d, w_file = f, w_counter = 0\<rparr>) = Inr ()" for st d f
    by (simp add: commit_generation_def sample_context_def sample_counter_def advance_counter_def)
  show ?thesis
    using sample_envelope [of sample_counter] rd wr commit
    by (simp add: save_storage_def initial_store_def)
qed

section \<open>Properties\<close>



text \<open>
  A successful \<open>put\<close> adds the credential under its identifier with the caller's owner and the
  next generation as creation order, removes exactly the discoverable credentials of the same owner,
  relying party and user when the new one is discoverable, keeps every other record, and advances
  the generation by one.
\<close>

theorem put_credential_success:
  assumes st: "store_ok st" and run: "put_credential ctx io cred uid st w = (Inr (), st', w')"
  shows "(\<forall>k. map_of (stored st') k =
      (if k = hex_text (cred_id cred) then Some (new_credential st cred uid)
       else case map_of (stored st) k of
              Some c \<Rightarrow> if superseded_by (new_credential st cred uid) c then None else Some c
            | None \<Rightarrow> None)) \<and>
    generation st' = generation st + 1 \<and> map_of (stored st) (hex_text (cred_id cred)) = None"
proof -
  from run obtain updated where u: "put_storage st cred uid = Inr updated"
    and st': "st' = st\<lparr>stored := updated, generation := generation st + 1\<rparr>"
    unfolding put_credential_def by (rule save_result_Inr) blast
  have "distinct (map fst (stored st))" using st by (simp add: store_ok_def storage_ok_def)
  from map_of_filter_snd [OF this] show ?thesis
    by (auto simp: st' put_storage_Inr(3,4) [OF u] split: option.splits)
qed

theorem put_credential_success_witness:
  "map_of (stored (fst (snd (put_credential (sample_context sample_counter) sample_io sample_credential 1000
      initial_store sample_world)))) (hex_text (replicate 16 1)) =
    Some (new_credential initial_store sample_credential 1000)"
proof -
  obtain r st' w' where run: "put_credential (sample_context sample_counter) sample_io sample_credential 1000
      initial_store sample_world = (r, st', w')" by (metis prod_cases3)
  have save: "put_credential (sample_context sample_counter) sample_io sample_credential 1000
      initial_store sample_world =
      save_and_swap (sample_context sample_counter) sample_io sample_storage initial_store sample_world"
    by (simp add: put_credential_def sample_put save_result_def)
  have "r = Inr ()"
    using run sample_save unfolding save by (auto simp: save_and_swap_def split: prod.splits sum.splits)
  with run have "put_credential (sample_context sample_counter) sample_io sample_credential 1000
      initial_store sample_world = (Inr (), st', w')" by simp
  from put_credential_success [OF store_ok_initial this] run show ?thesis
    by (simp add: sample_credential_def)
qed



text \<open>
  C6.  No rollback: a load that succeeds with a counter leaves the store at the counter's value,
  which is the value the counter had or, when an interrupted commit is completed, its successor.
\<close>

theorem load_never_rolls_back:
  assumes "ctx_counter ctx = Some ops" "counter_contract ops val"
    and "load_store ctx st w = (Inr (), st', w')"
  shows "val (w_counter w') = generation st' \<and> val (w_counter w) \<le> generation st' \<and>
    (generation st' = val (w_counter w) \<or> generation st' = val (w_counter w) + 1)"
  using load_fresh [OF assms] word_succ_greater [of "val (w_counter w)"] by auto

theorem load_never_rolls_back_witness:
  "generation (fst (snd (load_store (sample_context sample_counter) sample_store sample_world))) = 0"
proof -
  have "load_store (sample_context sample_counter) sample_store sample_world =
      (Inr (), sample_store\<lparr>stored := [], generation := 0, requiresReload := False\<rparr>, sample_world)"
    by (simp add: load_store_def load_missing_def read_store_file_def sample_context_def sample_world_def
        valid_filename_def sample_counter_def)
  with load_never_rolls_back [OF _ sample_counters(1) this] show ?thesis
    by (simp add: sample_context_def sample_world_def)
qed

text \<open>
  C8.  Discoverable lookup: without an allow list the result is exactly the discoverable credentials
  of the caller for the relying party, each once, most recently created first.
\<close>

theorem find_discoverable_exact:
  assumes "store_ok st" "\<not> requiresReload st"
  shows "\<exists>cs. find_for_assertion st rp_id [] owner_uid = Inr cs \<and>
    set cs = {c \<in> snd ` set (stored st). cred_ownerUid c = owner_uid \<and> cred_discoverable c \<and> cred_rpId c = rp_id} \<and>
    distinct cs \<and> sorted_wrt (\<lambda>c d. cred_creationOrder c > cred_creationOrder d) cs"
  by (rule find_discoverable [OF assms])

theorem find_discoverable_exact_witness:
  "\<exists>cs. find_for_assertion sample_store ''rp'' [] 1000 = Inr cs \<and> set cs = snd ` set sample_storage"
proof -
  have all: "{c \<in> snd ` set (stored sample_store). cred_ownerUid c = 1000 \<and> cred_discoverable c \<and>
      cred_rpId c = ''rp''} = snd ` set sample_storage"
    by (auto simp: sample_store_def sample_storage_def sample_credential_def)
  show ?thesis
    using find_discoverable_exact [OF store_ok_sample sample_ready, of "''rp''" 1000]
    unfolding all by blast
qed

text \<open>
  Allow-list lookup: the result is exactly the credentials of the caller and relying party that
  some public-key descriptor names, each once, in the order of the allow list.
\<close>

theorem find_allow_list_exact:
  assumes "store_ok st" "\<not> requiresReload st" "allow_list \<noteq> []"
    and "\<forall>d \<in> set allow_list. length (desc_id d) \<le> 65536"
  shows "\<exists>cs. find_for_assertion st rp_id allow_list owner_uid = Inr cs \<and>
    set cs = {c. \<exists>d \<in> set allow_list. descriptor_match st rp_id owner_uid d = Some c} \<and>
    distinct cs \<and> subseq cs (List.map_filter (descriptor_match st rp_id owner_uid) allow_list)"
  using match_allow_list_spec [OF _ assms(4), of st rp_id owner_uid "[]"] assms(1-3)
  by (simp add: find_for_assertion_def require_ready_def store_ok_def)

theorem find_allow_list_exact_witness:
  "\<exists>cs. find_for_assertion sample_store ''rp''
      [\<lparr>desc_type = ''public-key'', desc_id = replicate 16 1, desc_transports = []\<rparr>] 1000 = Inr cs \<and>
    set cs = snd ` set sample_storage"
proof -
  let ?d = "\<lparr>desc_type = ''public-key'', desc_id = replicate 16 1, desc_transports = []\<rparr>"
  have "descriptor_match sample_store ''rp'' 1000 ?d = Some (snd (hd sample_storage))"
    by (simp add: sample_store_def sample_storage_def sample_credential_def descriptor_match_def)
  then have all: "{c. \<exists>d \<in> set [?d]. descriptor_match sample_store ''rp'' 1000 d = Some c} = snd ` set sample_storage"
    by (auto simp: sample_storage_def)
  have "[?d] \<noteq> []" "\<forall>d \<in> set [?d]. length (desc_id d) \<le> 65536" by simp_all
  from find_allow_list_exact [OF store_ok_sample sample_ready this, of "''rp''" 1000] show ?thesis
    unfolding all by blast
qed

text \<open>
  C9.  A successful \<open>incrementSigCount\<close> raises the signature counter of the caller's credential by
  exactly one, without wrap-around, and changes no other record.
\<close>

theorem incrementSigCount_strict:
  assumes "incrementSigCount ctx io credential_id uid st w = (Inr (), st', w')"
  shows "\<exists>key c. hex_encode credential_id = Inr key \<and> map_of (stored st) key = Some c \<and> cred_ownerUid c = uid \<and>
    unat (cred_signCount c + 1) = unat (cred_signCount c) + 1 \<and>
    (\<forall>k. map_of (stored st') k =
       (if k = key then Some (c\<lparr>cred_signCount := cred_signCount c + 1\<rparr>) else map_of (stored st) k))"
proof -
  from assms obtain updated where u: "increment_storage st credential_id uid = Inr updated"
    and st': "st' = st\<lparr>stored := updated, generation := generation st + 1\<rparr>"
    unfolding incrementSigCount_def by (rule save_result_Inr) blast
  obtain key c where kc: "hex_encode credential_id = Inr key" "map_of (stored st) key = Some c"
    "cred_ownerUid c = uid" "cred_signCount c \<noteq> -1" "updated = map (bump key) (stored st)"
    using increment_storage_Inr [OF u] by blast
  have "unat (cred_signCount c + 1) = unat (cred_signCount c) + 1"
  proof -
    have "1 + cred_signCount c \<noteq> 0" using kc(4) by (metis add_eq_0_iff minus_equation_iff)
    from unatSuc [OF this] show ?thesis by (simp add: add.commute)
  qed
  with kc show ?thesis
    by (intro exI [of _ key] exI [of _ c]) (simp add: st' map_of_bump)
qed

theorem incrementSigCount_strict_witness:
  "cred_signCount (the (map_of (stored (fst (snd (incrementSigCount lenient_context sample_io
      (replicate 16 1) 1000 sample_store (sample_world\<lparr>w_counter := 1\<rparr>))))) (hex_text (replicate 16 1)))) = 1"
proof -
  obtain st' w' where run: "incrementSigCount lenient_context sample_io (replicate 16 1) 1000 sample_store
      (sample_world\<lparr>w_counter := 1\<rparr>) = (Inr (), st', w')"
    using sample_increment by blast
  from incrementSigCount_strict [OF run] show ?thesis
    unfolding run by (auto simp: sample_store_def sample_storage_def sample_credential_def)
qed

text \<open>
  Isolation of owners: a lookup by identifier returns or confirms a credential only when it
  belongs to the caller (and to the relying party, where one is given), and reports the same error
  for another owner's credential as for an unknown one.
\<close>

theorem lookups_respect_owner:
  assumes "store_ok st" "\<not> requiresReload st" "length credential_id \<le> 65536"
  shows "(get_by_credId st credential_id uid =
      (if \<exists>c \<in> snd ` set (stored st). cred_id c = credential_id \<and> cred_ownerUid c = uid
       then Inr (the (map_of (stored st) (hex_text credential_id)))
       else Inl (OutOfRange ''Credential ID was not found for local user''))) \<and>
    (has_credential st credential_id uid =
      Inr (\<exists>c \<in> snd ` set (stored st). cred_id c = credential_id \<and> cred_ownerUid c = uid)) \<and>
    (has_for_rp st credential_id rp_id uid =
      Inr (\<exists>c \<in> snd ` set (stored st). cred_id c = credential_id \<and> cred_ownerUid c = uid \<and> cred_rpId c = rp_id))"
proof -
  have ok: "storage_ok (stored st)" using assms(1) by (simp add: store_ok_def)
  have hex: "hex_encode credential_id = Inr (hex_text credential_id)" using assms(3) by simp
  have found: "map_of (stored st) (hex_text credential_id) = Some c \<longleftrightarrow>
      c \<in> snd ` set (stored st) \<and> cred_id c = credential_id" for c
  proof -
    have "map_of (stored st) (hex_text credential_id) = Some c \<longleftrightarrow> (hex_text credential_id, c) \<in> set (stored st)"
      using ok by (intro map_of_eq_Some_iff) (simp add: storage_ok_def)
    also have "\<dots> \<longleftrightarrow> c \<in> snd ` set (stored st) \<and> cred_id c = credential_id"
      using storage_okD [OF ok] by force
    finally show ?thesis .
  qed
  have exists: "(\<exists>c \<in> snd ` set (stored st). cred_id c = credential_id \<and> Q c) \<longleftrightarrow>
      (case map_of (stored st) (hex_text credential_id) of None \<Rightarrow> False | Some c \<Rightarrow> Q c)" for Q
  proof (cases "map_of (stored st) (hex_text credential_id)")
    case None
    with found show ?thesis by simp
  next
    case (Some a)
    then have "c \<in> snd ` set (stored st) \<and> cred_id c = credential_id \<longleftrightarrow> c = a" for c
      using found [of c] by (metis option.inject)
    with Some show ?thesis by (metis (no_types, lifting) option.simps(5))
  qed
  show ?thesis
    unfolding exists using assms(2) hex
    by (auto simp: get_by_credId_def has_credential_def has_for_rp_def find_credential_def require_ready_def
        split: option.split)
qed

theorem lookups_respect_owner_witness:
  "get_by_credId sample_store (replicate 16 1) 1001 =
     Inl (OutOfRange ''Credential ID was not found for local user'') \<and>
   has_credential sample_store (replicate 16 1) 1000 = Inr True"
  using lookups_respect_owner [OF store_ok_sample sample_ready, of "replicate 16 1" 1001]
    lookups_respect_owner [OF store_ok_sample sample_ready, of "replicate 16 1" 1000]
  by (simp add: sample_store_def sample_storage_def sample_credential_def)

end
