(* ===== verification/Packet.thy ===== *)
theory Packet
  imports Prelude
begin

text \<open>
  Status codes (\<open>error.hpp\<close>), the CTAPHID messages of \<open>uhid_report.hpp\<close> and \<open>response.hpp\<close>, the
  fragmentation of an outgoing message into 64-byte frames (\<open>packet.cpp\<close>) and the packets built
  without the command handler (\<open>response.cpp\<close>, \<open>device.cpp\<close>).
\<close>

section \<open>Status codes\<close>

datatype (plugins only: code size) CTAPError =
    CTAP1_ERR_SUCCESS | CTAP1_ERR_INVALID_COMMAND | CTAP1_ERR_INVALID_PARAMETER
  | CTAP1_ERR_INVALID_LENGTH | CTAP2_ERR_CBOR_UNEXPECTED_TYPE | CTAP2_ERR_INVALID_CBOR
  | CTAP2_ERR_MISSING_PARAMETER | CTAP2_ERR_LIMIT_EXCEEDED | CTAP2_ERR_UNSUPPORTED_EXTENSION
  | CTAP2_ERR_CREDENTIAL_EXCLUDED | CTAP2_ERR_PROCESSING | CTAP2_ERR_INVALID_CREDENTIAL
  | CTAP2_ERR_USER_ACTION_PENDING | CTAP2_ERR_OPERATION_PENDING | CTAP2_ERR_NO_OPERATIONS
  | CTAP2_ERR_UNSUPPORTED_ALGORITHM | CTAP2_ERR_OPERATION_DENIED | CTAP2_ERR_KEY_STORE_FULL
  | CTAP2_ERR_NOT_BUSY | CTAP2_ERR_NO_OPERATION_PENDING | CTAP2_ERR_UNSUPPORTED_OPTION
  | CTAP2_ERR_INVALID_OPTION | CTAP2_ERR_KEEPALIVE_CANCEL | CTAP2_ERR_NO_CREDENTIALS
  | CTAP2_ERR_USER_ACTION_TIMEOUT | CTAP2_ERR_NOT_ALLOWED | CTAP2_ERR_PIN_INVALID
  | CTAP2_ERR_PIN_BLOCKED | CTAP2_ERR_PIN_AUTH_INVALID | CTAP2_ERR_PIN_AUTH_BLOCKED
  | CTAP2_ERR_PIN_NOT_SET | CTAP2_ERR_PIN_REQUIRED | CTAP2_ERR_PIN_POLICY_VIOLATION
  | CTAP2_ERR_PIN_TOKEN_EXPIRED | CTAP2_ERR_REQUEST_TOO_LARGE | CTAP2_ERR_ACTION_TIMEOUT
  | CTAP2_ERR_UP_REQUIRED | CTAP1_ERR_OTHER | CTAP2_ERR_SPEC_LAST | CTAP2_ERR_EXTENSION_FIRST
  | CTAP2_ERR_EXTENSION_LAST | CTAP2_ERR_VENDOR_FIRST | CTAP2_ERR_VENDOR_LAST

primrec ctap_error_code :: "CTAPError \<Rightarrow> u8" where
  "ctap_error_code CTAPError.CTAP1_ERR_SUCCESS = 0x00"
| "ctap_error_code CTAPError.CTAP1_ERR_INVALID_COMMAND = 0x01"
| "ctap_error_code CTAPError.CTAP1_ERR_INVALID_PARAMETER = 0x02"
| "ctap_error_code CTAPError.CTAP1_ERR_INVALID_LENGTH = 0x03"
| "ctap_error_code CTAP2_ERR_CBOR_UNEXPECTED_TYPE = 0x11"
| "ctap_error_code CTAP2_ERR_INVALID_CBOR = 0x12"
| "ctap_error_code CTAP2_ERR_MISSING_PARAMETER = 0x14"
| "ctap_error_code CTAP2_ERR_LIMIT_EXCEEDED = 0x15"
| "ctap_error_code CTAP2_ERR_UNSUPPORTED_EXTENSION = 0x16"
| "ctap_error_code CTAP2_ERR_CREDENTIAL_EXCLUDED = 0x19"
| "ctap_error_code CTAP2_ERR_PROCESSING = 0x21"
| "ctap_error_code CTAP2_ERR_INVALID_CREDENTIAL = 0x22"
| "ctap_error_code CTAP2_ERR_USER_ACTION_PENDING = 0x23"
| "ctap_error_code CTAP2_ERR_OPERATION_PENDING = 0x24"
| "ctap_error_code CTAP2_ERR_NO_OPERATIONS = 0x25"
| "ctap_error_code CTAP2_ERR_UNSUPPORTED_ALGORITHM = 0x26"
| "ctap_error_code CTAP2_ERR_OPERATION_DENIED = 0x27"
| "ctap_error_code CTAP2_ERR_KEY_STORE_FULL = 0x28"
| "ctap_error_code CTAP2_ERR_NOT_BUSY = 0x29"
| "ctap_error_code CTAP2_ERR_NO_OPERATION_PENDING = 0x2A"
| "ctap_error_code CTAP2_ERR_UNSUPPORTED_OPTION = 0x2B"
| "ctap_error_code CTAP2_ERR_INVALID_OPTION = 0x2C"
| "ctap_error_code CTAP2_ERR_KEEPALIVE_CANCEL = 0x2D"
| "ctap_error_code CTAP2_ERR_NO_CREDENTIALS = 0x2E"
| "ctap_error_code CTAP2_ERR_USER_ACTION_TIMEOUT = 0x2F"
| "ctap_error_code CTAP2_ERR_NOT_ALLOWED = 0x30"
| "ctap_error_code CTAP2_ERR_PIN_INVALID = 0x31"
| "ctap_error_code CTAP2_ERR_PIN_BLOCKED = 0x32"
| "ctap_error_code CTAP2_ERR_PIN_AUTH_INVALID = 0x33"
| "ctap_error_code CTAP2_ERR_PIN_AUTH_BLOCKED = 0x34"
| "ctap_error_code CTAP2_ERR_PIN_NOT_SET = 0x35"
| "ctap_error_code CTAP2_ERR_PIN_REQUIRED = 0x36"
| "ctap_error_code CTAP2_ERR_PIN_POLICY_VIOLATION = 0x37"
| "ctap_error_code CTAP2_ERR_PIN_TOKEN_EXPIRED = 0x38"
| "ctap_error_code CTAP2_ERR_REQUEST_TOO_LARGE = 0x39"
| "ctap_error_code CTAP2_ERR_ACTION_TIMEOUT = 0x3A"
| "ctap_error_code CTAP2_ERR_UP_REQUIRED = 0x3B"
| "ctap_error_code CTAPError.CTAP1_ERR_OTHER = 0x7F"
| "ctap_error_code CTAP2_ERR_SPEC_LAST = 0xDF"
| "ctap_error_code CTAP2_ERR_EXTENSION_FIRST = 0xE0"
| "ctap_error_code CTAP2_ERR_EXTENSION_LAST = 0xEF"
| "ctap_error_code CTAP2_ERR_VENDOR_FIRST = 0xF0"
| "ctap_error_code CTAP2_ERR_VENDOR_LAST = 0xFF"

definition ctap20_uv_failure_error :: CTAPError where
  "ctap20_uv_failure_error = CTAP2_ERR_OPERATION_DENIED"

datatype HIDError =
    CTAP1_ERR_SUCCESS | CTAP1_ERR_INVALID_COMMAND | CTAP1_ERR_INVALID_PARAMETER
  | CTAP1_ERR_INVALID_LENGTH | CTAP1_ERR_INVALID_SEQ | CTAP1_ERR_TIMEOUT
  | CTAP1_ERR_CHANNEL_BUSY | CTAP1_ERR_LOCK_REQUIRED | CTAP1_ERR_INVALID_CHANNEL

primrec hid_error_code :: "HIDError \<Rightarrow> u8" where
  "hid_error_code HIDError.CTAP1_ERR_SUCCESS = 0x00"
| "hid_error_code HIDError.CTAP1_ERR_INVALID_COMMAND = 0x01"
| "hid_error_code HIDError.CTAP1_ERR_INVALID_PARAMETER = 0x02"
| "hid_error_code HIDError.CTAP1_ERR_INVALID_LENGTH = 0x03"
| "hid_error_code CTAP1_ERR_INVALID_SEQ = 0x04"
| "hid_error_code CTAP1_ERR_TIMEOUT = 0x05"
| "hid_error_code CTAP1_ERR_CHANNEL_BUSY = 0x06"
| "hid_error_code CTAP1_ERR_LOCK_REQUIRED = 0x0A"
| "hid_error_code CTAP1_ERR_INVALID_CHANNEL = 0x0B"

section \<open>Messages\<close>

definition CTAPHID_MAX_PAYLOAD_SIZE :: nat where "CTAPHID_MAX_PAYLOAD_SIZE = 7609"
definition MAX_INIT_PAYLOAD_SIZE :: nat where "MAX_INIT_PAYLOAD_SIZE = 57"
definition MAX_CONT_PAYLOAD_SIZE :: nat where "MAX_CONT_PAYLOAD_SIZE = 59"

record UHIDReport =
  rep_cid :: u32
  rep_cmd :: u8
  rep_len :: u16
  rep_payload :: bytes
  rep_seq :: u8

definition report_clear :: "UHIDReport \<Rightarrow> UHIDReport" where
  "report_clear r =
     r\<lparr>rep_payload := [], rep_cid := 0, rep_cmd := 0, rep_len := 0, rep_seq := 0\<rparr>"

definition MASK :: u8 where "MASK = 0x80"
definition CTAPHID_PING :: u8 where "CTAPHID_PING = 0x01"
definition CTAPHID_INIT :: u8 where "CTAPHID_INIT = 0x06"
definition CTAPHID_CBOR :: u8 where "CTAPHID_CBOR = 0x10"
definition CTAPHID_CANCEL :: u8 where "CTAPHID_CANCEL = 0x11"
definition CTAPHID_KEEPALIVE :: u8 where "CTAPHID_KEEPALIVE = 0x3B"
definition CTAPHID_ERROR :: u8 where "CTAPHID_ERROR = 0x3F"

lemmas ctaphid_defs =
  CTAPHID_MAX_PAYLOAD_SIZE_def MAX_INIT_PAYLOAD_SIZE_def MAX_CONT_PAYLOAD_SIZE_def MASK_def
  CTAPHID_PING_def CTAPHID_INIT_def CTAPHID_CBOR_def CTAPHID_CANCEL_def CTAPHID_KEEPALIVE_def
  CTAPHID_ERROR_def

record CTAPPacket =
  pkt_cid :: u32
  pkt_cmd :: u8
  pkt_len :: u16
  pkt_payload :: bytes

section \<open>Fragmentation\<close>

text \<open>The inner loop of \<open>stringify\<close>: pad a frame with payload, then with zeros, to 64 bytes.\<close>

function fill_frame :: "bytes \<Rightarrow> bytes \<Rightarrow> nat \<Rightarrow> bytes \<times> nat" where
  "fill_frame frame payload offset =
     (if length frame < 64 then
        if offset < length payload then fill_frame (frame @ [payload ! offset]) payload (offset + 1)
        else fill_frame (frame @ [0]) payload offset
      else (frame, offset))"
  by pat_completeness auto
termination by (relation "measure (\<lambda>(frame, payload, offset). 64 - length frame)") auto

declare fill_frame.simps [simp del]

lemma fill_frame_progress:
  "fill_frame frame payload offset = (frame', offset') \<Longrightarrow> length frame < 64 \<Longrightarrow>
   offset < length payload \<Longrightarrow> offset < offset'"
proof -
  have mono: "offset \<le> snd (fill_frame frame payload offset)" for frame payload offset
  proof (induction frame payload offset rule: fill_frame.induct)
    case (1 frame payload offset)
    then show ?case
      by (subst fill_frame.simps) (auto intro: Suc_leD)
  qed
  assume "fill_frame frame payload offset = (frame', offset')" "length frame < 64"
    "offset < length payload"
  then have "fill_frame (frame @ [payload ! offset]) payload (offset + 1) = (frame', offset')"
    by (subst (asm) fill_frame.simps) simp
  then show ?thesis
    using mono [of "offset + 1" "frame @ [payload ! offset]" payload] by simp
qed

text \<open>The outer loop: one continuation frame per iteration, with a \<open>uint8_t\<close> sequence number.\<close>

function continuations :: "u32 \<Rightarrow> bytes \<Rightarrow> nat \<Rightarrow> u8 \<Rightarrow> bytes list" where
  "continuations cid payload offset sequence =
     (if offset < length payload then
        (case fill_frame (be32 cid @ [sequence]) payload offset of
           (continuation, offset') \<Rightarrow>
             continuation # continuations cid payload offset' (sequence + 1))
      else [])"
  by pat_completeness auto
termination
proof (relation "measure (\<lambda>(cid, payload, offset, sequence). length payload - offset)", goal_cases)
  case 1
  show ?case by simp
next
  case (2 cid payload offset sequence frame offset')
  then have "offset < offset'"
    by (intro fill_frame_progress [OF 2(2) [symmetric]]) simp_all
  with 2 show ?case by simp
qed

declare continuations.simps [simp del]

definition stringify :: "CTAPPacket \<Rightarrow> bytes list result" where
  "stringify p =
     (if length (pkt_payload p) \<noteq> unat (pkt_len p) then
        Inl (InvalidArgument ''CTAPHID payload length mismatch'')
      else if length (pkt_payload p) > CTAPHID_MAX_PAYLOAD_SIZE then
        Inl (LengthError ''CTAPHID payload exceeds transport limit'')
      else
        (case fill_frame (be32 (pkt_cid p) @ [pkt_cmd p] @ be16 (pkt_len p)) (pkt_payload p) 0 of
           (frame, offset) \<Rightarrow> Inr (frame # continuations (pkt_cid p) (pkt_payload p) offset 0)))"

section \<open>Packets built by the transport\<close>

definition make_cbor_error :: "u32 \<Rightarrow> CTAPError \<Rightarrow> CTAPPacket" where
  "make_cbor_error cid error =
     \<lparr>pkt_cid = cid, pkt_cmd = CTAPHID_CBOR OR MASK, pkt_len = 1,
      pkt_payload = [ctap_error_code error]\<rparr>"

definition make_hid_error :: "u32 \<Rightarrow> HIDError \<Rightarrow> CTAPPacket" where
  "make_hid_error cid error =
     \<lparr>pkt_cid = cid, pkt_cmd = CTAPHID_ERROR OR MASK, pkt_len = 1,
      pkt_payload = [hid_error_code error]\<rparr>"

definition handle_init :: "UHIDReport \<Rightarrow> u32 \<Rightarrow> CTAPPacket" where
  "handle_init request assigned_cid =
     (if length (rep_payload request) \<noteq> 8 then
        make_hid_error (rep_cid request) HIDError.CTAP1_ERR_INVALID_LENGTH
      else
        let payload = take 8 (rep_payload request) @ be32 assigned_cid @
              [0x02, 0x01, 0x00, 0x00, 0x04 OR 0x08]
        in \<lparr>pkt_cid = rep_cid request, pkt_cmd = CTAPHID_INIT OR MASK,
            pkt_len = word_of_nat (length payload), pkt_payload = payload\<rparr>)"

definition handle_ping :: "UHIDReport \<Rightarrow> CTAPPacket" where
  "handle_ping request =
     \<lparr>pkt_cid = rep_cid request, pkt_cmd = CTAPHID_PING OR MASK,
      pkt_len = word_of_nat (length (rep_payload request)), pkt_payload = rep_payload request\<rparr>"

section \<open>Lemmas\<close>

lemma fill_frame_eq:
  "offset \<le> length payload \<Longrightarrow> length frame \<le> 64 \<Longrightarrow>
   fill_frame frame payload offset =
     (frame @ take (64 - length frame) (drop offset payload) @
        replicate (64 - length frame - (length payload - offset)) 0,
      min (offset + (64 - length frame)) (length payload))"
proof (induction frame payload offset rule: fill_frame.induct)
  case (1 frame payload offset)
  show ?case
  proof (cases "length frame < 64")
    case True
    then have room: "64 - length frame = Suc (63 - length frame)" by simp
    show ?thesis
    proof (cases "offset < length payload")
      case off: True
      with 1(1) [OF True off] True room show ?thesis
        by (subst fill_frame.simps) (simp add: Cons_nth_drop_Suc [symmetric] Suc_diff_Suc)
    next
      case off: False
      with 1(2) [OF True off] 1(3) True room show ?thesis
        by (subst fill_frame.simps) simp
    qed
  next
    case False
    with 1(3,4) show ?thesis by (subst fill_frame.simps) simp
  qed
qed

text \<open>The frames \<open>stringify\<close> produces, written down directly.\<close>

definition pad_zero :: "nat \<Rightarrow> bytes \<Rightarrow> bytes" where
  "pad_zero n bs = bs @ replicate (n - length bs) 0"

definition init_frame :: "CTAPPacket \<Rightarrow> bytes" where
  "init_frame p = be32 (pkt_cid p) @ [pkt_cmd p] @ be16 (pkt_len p) @ pad_zero 57 (take 57 (pkt_payload p))"

definition cont_frame :: "u32 \<Rightarrow> u8 \<Rightarrow> bytes \<Rightarrow> bytes" where
  "cont_frame cid sequence chunk = be32 cid @ [sequence] @ pad_zero 59 chunk"

lemma length_pad_zero [simp]: "length bs \<le> n \<Longrightarrow> length (pad_zero n bs) = n"
  by (simp add: pad_zero_def)

lemma pad_zero_full [simp]: "length bs = n \<Longrightarrow> pad_zero n bs = bs"
  by (simp add: pad_zero_def)

lemma take_pad_zero [simp]: "k \<le> length bs \<Longrightarrow> take k (pad_zero n bs) = take k bs"
  by (simp add: pad_zero_def)

lemma length_init_frame [simp]: "length (init_frame p) = 64"
  by (simp add: init_frame_def)

lemma length_cont_frame [simp]: "length chunk \<le> 59 \<Longrightarrow> length (cont_frame cid sequence chunk) = 64"
  by (simp add: cont_frame_def)

lemma continuations_done [simp]: "length payload \<le> offset \<Longrightarrow> continuations cid payload offset sequence = []"
  by (subst continuations.simps) simp

lemma continuations_step:
  "offset < length payload \<Longrightarrow>
   continuations cid payload offset sequence =
     cont_frame cid sequence (take 59 (drop offset payload)) #
     continuations cid payload (min (offset + 59) (length payload)) (sequence + 1)"
  by (subst continuations.simps) (simp add: fill_frame_eq cont_frame_def pad_zero_def)

lemma stringify_eq:
  "stringify p =
     (if length (pkt_payload p) \<noteq> unat (pkt_len p) then
        Inl (InvalidArgument ''CTAPHID payload length mismatch'')
      else if length (pkt_payload p) > CTAPHID_MAX_PAYLOAD_SIZE then
        Inl (LengthError ''CTAPHID payload exceeds transport limit'')
      else Inr (init_frame p # continuations (pkt_cid p) (pkt_payload p)
                  (min 57 (length (pkt_payload p))) 0))"
  by (simp add: stringify_def fill_frame_eq init_frame_def pad_zero_def min_def)

lemma continuations_frame_size:
  "frame \<in> set (continuations cid payload offset sequence) \<Longrightarrow> length frame = 64"
proof (induction "length payload - offset" arbitrary: offset sequence rule: less_induct)
  case less
  show ?case
  proof (cases "offset < length payload")
    case True
    with less.prems have "frame = cont_frame cid sequence (take 59 (drop offset payload)) \<or>
        frame \<in> set (continuations cid payload (min (offset + 59) (length payload)) (sequence + 1))"
      by (simp add: continuations_step)
    with less.hyps [of "min (offset + 59) (length payload)"] True show ?thesis
      by (auto simp: min_def split: if_splits)
  next
    case False
    with less.prems show ?thesis by simp
  qed
qed

lemma length_continuations:
  "length (continuations cid payload offset sequence) = (length payload - offset + 58) div 59"
proof (induction "length payload - offset" arbitrary: offset sequence rule: less_induct)
  case less
  show ?case
  proof (cases "offset < length payload")
    case True
    with less.hyps [of "min (offset + 59) (length payload)"]
    have "length (continuations cid payload (min (offset + 59) (length payload)) (sequence + 1)) =
        (length payload - min (offset + 59) (length payload) + 58) div 59"
      by (auto simp: min_def)
    with True show ?thesis
      by (simp add: continuations_step min_def) linarith
  next
    case False
    then show ?thesis by simp
  qed
qed

lemma packet_fields [simp]:
  "pkt_cid (make_cbor_error cid e) = cid" "pkt_cmd (make_cbor_error cid e) = CTAPHID_CBOR OR MASK"
  "pkt_cid (make_hid_error cid h) = cid" "pkt_cmd (make_hid_error cid h) = CTAPHID_ERROR OR MASK"
  "pkt_cid (handle_ping r) = rep_cid r" "pkt_cmd (handle_ping r) = CTAPHID_PING OR MASK"
  "pkt_cid (handle_init r assigned) = rep_cid r"
  by (simp_all add: make_cbor_error_def make_hid_error_def handle_ping_def handle_init_def Let_def)

lemma handle_init_cmd:
  "pkt_cmd (handle_init r assigned) \<in> {CTAPHID_INIT OR MASK, CTAPHID_ERROR OR MASK}"
  by (simp add: handle_init_def Let_def)

lemma stringify_error_packets [simp]:
  "is_ok (stringify (make_cbor_error cid e))" "is_ok (stringify (make_hid_error cid h))"
  by (simp_all add: stringify_eq make_cbor_error_def make_hid_error_def ctaphid_defs)

lemma stringify_handle_init [simp]: "is_ok (stringify (handle_init request cid))"
  by (simp add: handle_init_def Let_def) (simp add: stringify_eq ctaphid_defs)

lemma stringify_handle_ping [simp]:
  "length (rep_payload request) \<le> CTAPHID_MAX_PAYLOAD_SIZE \<Longrightarrow> is_ok (stringify (handle_ping request))"
  by (simp add: handle_ping_def stringify_eq ctaphid_defs unat_of_nat)

section \<open>Properties\<close>

text \<open>
  Shape of a fragmented message: every frame has 64 bytes, the number of frames is one plus the
  number of 59-byte pieces left after the first 57, there are at most 129 frames, and the
  continuation numbered \<open>i\<close> carries the channel, the number \<open>i\<close> with a clear type bit and the
  \<open>i\<close>-th piece of the payload.
\<close>

theorem stringify_frames:
  assumes "stringify p = Inr frames"
  shows "(\<forall>f \<in> set frames. length f = 64) \<and>
    length frames = 1 + (length (pkt_payload p) - 57 + 58) div 59 \<and> length frames \<le> 129 \<and>
    (\<forall>i < length frames - 1. frames ! Suc i =
       cont_frame (pkt_cid p) (word_of_nat i) (take 59 (drop (57 + 59 * i) (pkt_payload p))))"
proof -
  let ?n = "length (pkt_payload p)"
  let ?cs = "continuations (pkt_cid p) (pkt_payload p) (min 57 ?n) 0"
  have frames: "frames = init_frame p # ?cs" "?n \<le> 7609"
    using assms by (simp_all add: stringify_eq CTAPHID_MAX_PAYLOAD_SIZE_def split: if_splits)
  have nth: "continuations cid payload offset sequence ! i =
      cont_frame cid (sequence + word_of_nat i) (take 59 (drop (offset + 59 * i) payload))"
    if "i < length (continuations cid payload offset sequence)" for cid payload offset sequence i
    using that
  proof (induction i arbitrary: offset sequence)
    case 0
    then have "offset < length payload" by (cases "offset < length payload") auto
    then show ?case by (simp add: continuations_step)
  next
    case (Suc i)
    then have off: "offset < length payload" by (cases "offset < length payload") auto
    with Suc.prems have "i < length (continuations cid payload (min (offset + 59) (length payload)) (sequence + 1))"
      by (simp add: continuations_step)
    moreover from this have "min (offset + 59) (length payload) = offset + 59"
      by (auto simp: min_def split: if_splits)
    ultimately show ?case
      using Suc.IH [of "offset + 59" "sequence + 1"] off
      by (simp add: continuations_step [OF off] ac_simps)
  qed
  have count: "length frames = 1 + (?n - 57 + 58) div 59"
    by (simp add: frames length_continuations min_def)
  moreover have "length frames \<le> 129"
    using frames(2) by (simp add: count)
  moreover have "\<forall>f \<in> set frames. length f = 64"
    by (auto simp: frames dest: continuations_frame_size)
  moreover have "frames ! Suc i =
       cont_frame (pkt_cid p) (word_of_nat i) (take 59 (drop (57 + 59 * i) (pkt_payload p)))"
    if "i < length frames - 1" for i
  proof -
    have "i < length ?cs" using that by (simp add: frames)
    moreover from this have "57 < ?n" by (cases "57 < ?n") auto
    ultimately show ?thesis using nth [of i] by (simp add: frames min_def)
  qed
  ultimately show ?thesis by blast
qed

theorem stringify_frames_witness:
  "length (init_frame \<lparr>pkt_cid = 7, pkt_cmd = 0x81, pkt_len = 60, pkt_payload = replicate 60 5\<rparr> #
      [cont_frame 7 0 (replicate 3 5)]) = 2"
  using stringify_frames
    [of "\<lparr>pkt_cid = 7, pkt_cmd = 0x81, pkt_len = 60, pkt_payload = replicate 60 5\<rparr>"]
  by (simp add: stringify_eq continuations_step ctaphid_defs)

text \<open>
  \<open>stringify\<close> throws exactly when the length field disagrees with the payload or the payload
  exceeds the transport limit.
\<close>

theorem stringify_ok_iff:
  "is_ok (stringify p) \<longleftrightarrow>
     length (pkt_payload p) = unat (pkt_len p) \<and> length (pkt_payload p) \<le> CTAPHID_MAX_PAYLOAD_SIZE"
  by (auto simp: stringify_eq)

end
