(* ===== verification/Cbor.thy ===== *)
theory Cbor
  imports Credential Packet
begin

text \<open>
  The CBOR layer: reading (\<open>cbor_operations/cbor_utils.cpp\<close>, \<open>cbor_utils.hpp\<close>) and the encoding
  of responses (\<open>cbor_operations/cbor.cpp\<close>).  TinyCBOR itself is a parameter.  Of its parser the code
  observes, at each position, the type of the item, the outcome of its accessors and the outcome of
  advancing; a cursor is that tree of observations for one payload, and the parser is a function from
  payloads to cursors.  Of its encoder the code observes the chunks each call hands to the writer.
\<close>

section \<open>Reading\<close>

text \<open>\<open>Inl\<close> of a string is a TinyCBOR error, named by its error string.\<close>

type_synonym 'a tiny = "string + 'a"

datatype item =
    UInt u64
  | NegInt u64
  | Text "nat tiny" "string tiny"
  | Bytes "nat tiny" "bytes tiny"
  | Boolean bool
  | Array "cursor tiny"
  | Map "cursor tiny"
  | OtherItem
and cursor = AtEnd | At item "cursor tiny"

text \<open>Negative integers are \<open>-1 - n\<close>; as documented, \<open>cbor_value_get_int64\<close> truncates silently.\<close>

definition check :: "'a tiny \<Rightarrow> string \<Rightarrow> 'a result" where
  "check r operation =
     (case r of Inl error \<Rightarrow> Inl (CborParseError (operation @ '': '' @ error)) | Inr x \<Rightarrow> Inr x)"

definition read_text :: "cursor \<Rightarrow> nat \<Rightarrow> (string \<times> cursor) result" where
  "read_text v max_length =
     (case v of
        At (Text len copy) rest \<Rightarrow>
          bind_result (check len ''calculate text length'') (\<lambda>n.
          if n > max_length then Inl (CborParseError ''CBOR text string exceeds size limit'')
          else bind_result (check copy ''copy text string'') (\<lambda>s.
               bind_result (check rest ''copy text string'') (\<lambda>v'. Inr (s, v'))))
      | _ \<Rightarrow> Inl (CborParseError ''expected CBOR text string''))"

definition read_bytes :: "cursor \<Rightarrow> nat \<Rightarrow> (bytes \<times> cursor) result" where
  "read_bytes v max_length =
     (case v of
        At (Bytes len copy) rest \<Rightarrow>
          bind_result (check len ''calculate byte-string length'') (\<lambda>n.
          if n > max_length then Inl (CborParseError ''CBOR byte string exceeds size limit'')
          else bind_result (check copy ''copy byte string'') (\<lambda>bs.
               bind_result (check rest ''copy byte string'') (\<lambda>v'. Inr (bs, v'))))
      | _ \<Rightarrow> Inl (CborParseError ''expected CBOR byte string''))"

definition read_uint :: "cursor \<Rightarrow> (u64 \<times> cursor) result" where
  "read_uint v =
     (case v of
        At (UInt n) rest \<Rightarrow>
          bind_result (check rest ''advance past unsigned integer'') (\<lambda>v'. Inr (n, v'))
      | _ \<Rightarrow> Inl (CborParseError ''expected CBOR unsigned integer''))"

definition read_int :: "cursor \<Rightarrow> (int \<times> cursor) result" where
  "read_int v =
     (case v of
        At (UInt n) rest \<Rightarrow>
          bind_result (check rest ''advance past integer'') (\<lambda>v'. Inr (sint n, v'))
      | At (NegInt n) rest \<Rightarrow>
          bind_result (check rest ''advance past integer'') (\<lambda>v'. Inr (sint (NOT n), v'))
      | _ \<Rightarrow> Inl (CborParseError ''expected CBOR integer''))"

definition read_bool :: "cursor \<Rightarrow> (bool \<times> cursor) result" where
  "read_bool v =
     (case v of
        At (Boolean b) rest \<Rightarrow>
          bind_result (check rest ''advance past boolean'') (\<lambda>v'. Inr (b, v'))
      | _ \<Rightarrow> Inl (CborParseError ''expected CBOR boolean''))"

definition skip_value :: "cursor \<Rightarrow> cursor result" where
  "skip_value v =
     (case v of
        At _ rest \<Rightarrow> check rest ''skip CBOR value''
      | AtEnd \<Rightarrow> Inl (CborParseError ''skip CBOR value: attempt to advance past the end''))"

text \<open>A callback that skips its value and keeps what was read so far.\<close>

definition skip_member :: "'a \<Rightarrow> cursor \<Rightarrow> ('a \<times> cursor) result" where
  "skip_member acc v = bind_result (skip_value v) (\<lambda>v'. Inr (acc, v'))"

definition require_complete :: "cursor \<Rightarrow> string \<Rightarrow> unit result" where
  "require_complete v request_name =
     (if v \<noteq> AtEnd then Inl (CborParseError (''trailing data after '' @ request_name)) else Inr ())"

text \<open>
  The loop of \<open>read_map\<close> and \<open>read_array\<close>: the callback advances the cursor of the contents until
  it is at its end.  A callback that left the cursor where it was would be called forever; the last
  branch, which no callback of the program reaches, stands for that.
\<close>

function read_loop :: "('a \<Rightarrow> cursor \<Rightarrow> ('a \<times> cursor) result) \<Rightarrow> 'a \<Rightarrow> cursor \<Rightarrow> 'a result" where
  "read_loop f acc v =
     (if v = AtEnd then Inr acc
      else case f acc v of
        Inl e \<Rightarrow> Inl e
      | Inr (acc', v') \<Rightarrow>
          if size v' < size v then read_loop f acc' v' else Inl (LogicError ''cursor did not advance''))"
  by pat_completeness auto
termination
  by (relation "measure (\<lambda>(f, acc, v). size v)") auto

declare read_loop.simps [simp del]

definition read_map ::
    "('a \<Rightarrow> cursor \<Rightarrow> ('a \<times> cursor) result) \<Rightarrow> 'a \<Rightarrow> cursor \<Rightarrow> ('a \<times> cursor) result" where
  "read_map f acc v =
     (case v of
        At (Map entered) rest \<Rightarrow>
          bind_result (check entered ''enter map'') (\<lambda>contents.
          bind_result (read_loop f acc contents) (\<lambda>acc'.
          bind_result (check rest ''leave map'') (\<lambda>v'. Inr (acc', v'))))
      | _ \<Rightarrow> Inl (CborParseError ''expected CBOR map''))"

definition read_array ::
    "('a \<Rightarrow> cursor \<Rightarrow> ('a \<times> cursor) result) \<Rightarrow> 'a \<Rightarrow> cursor \<Rightarrow> ('a \<times> cursor) result" where
  "read_array f acc v =
     (case v of
        At (Array entered) rest \<Rightarrow>
          bind_result (check entered ''enter array'') (\<lambda>contents.
          bind_result (read_loop f acc contents) (\<lambda>acc'.
          bind_result (check rest ''leave array'') (\<lambda>v'. Inr (acc', v'))))
      | _ \<Rightarrow> Inl (CborParseError ''expected CBOR array''))"

section \<open>Encoding\<close>

datatype cbor_call =
    EncodeUint u64
  | EncodeInt int
  | EncodeBytes bytes
  | EncodeText string
  | EncodeBoolean bool
  | CreateMap nat
  | CreateArray nat
  | CloseContainer

text \<open>The chunks a call hands to the writer, in order.\<close>

type_synonym tiny_encoder = "cbor_call \<Rightarrow> bytes list"

text \<open>\<open>append_cbor\<close>; its failure \<open>CborErrorDataTooLarge\<close> is classified as a resource limit.\<close>

definition append_cbor :: "bytes \<Rightarrow> bytes \<Rightarrow> bytes result" where
  "append_cbor output chunk =
     (if length output > CTAPHID_MAX_PAYLOAD_SIZE \<or>
         length chunk > CTAPHID_MAX_PAYLOAD_SIZE - length output
      then Inl (CborEncodingError resource_limit)
      else Inr (output @ chunk))"

fun append_chunks :: "bytes \<Rightarrow> bytes list \<Rightarrow> bytes result" where
  "append_chunks output [] = Inr output"
| "append_chunks output (chunk # chunks) =
     bind_result (append_cbor output chunk) (\<lambda>output'. append_chunks output' chunks)"

fun run_calls :: "tiny_encoder \<Rightarrow> bytes \<Rightarrow> cbor_call list \<Rightarrow> bytes result" where
  "run_calls emit output [] = Inr output"
| "run_calls emit output (call # calls) =
     bind_result (append_chunks output (emit call)) (\<lambda>output'. run_calls emit output' calls)"

definition encode_cbor :: "tiny_encoder \<Rightarrow> bool \<Rightarrow> cbor_call list \<Rightarrow> bytes result" where
  "encode_cbor emit include_success_status calls =
     run_calls emit (if include_success_status then [0] else []) calls"

definition pad32 :: "bytes \<Rightarrow> bytes result" where
  "pad32 bs =
     (if length bs > 32 then Inl (CborEncodingError invalid_structure)
      else Inr (replicate (32 - length bs) 0 @ bs))"

definition aaguid :: bytes where
  "aaguid = [0x87, 0x91, 0xF7, 0xDC, 0x41, 0x8B, 0x45, 0x10, 0xBB, 0xF5, 0x3B, 0xAF, 0x30, 0x71, 0x53, 0x24]"

definition firmware_version :: u32 where
  "firmware_version = 1"

definition build_getinfo_response :: "tiny_encoder \<Rightarrow> bytes result" where
  "build_getinfo_response emit = encode_cbor emit True
     [CreateMap 6,
      EncodeUint 1, CreateArray 1, EncodeText ''FIDO_2_0'', CloseContainer,
      EncodeUint 3, EncodeBytes aaguid,
      EncodeUint 4, CreateMap 3, EncodeText ''rk'', EncodeBoolean True,
        EncodeText ''up'', EncodeBoolean True, EncodeText ''uv'', EncodeBoolean True, CloseContainer,
      EncodeUint 9, CreateArray 1, EncodeText ''usb'', CloseContainer,
      EncodeUint 10, CreateArray 1, CreateMap 2, EncodeText ''alg'', EncodeInt (-7),
        EncodeText ''type'', EncodeText ''public-key'', CloseContainer, CloseContainer,
      EncodeUint 14, EncodeUint (ucast firmware_version),
      CloseContainer]"

definition build_cose_key :: "tiny_encoder \<Rightarrow> bytes \<Rightarrow> bytes \<Rightarrow> bytes result" where
  "build_cose_key emit x y =
     bind_result (pad32 x) (\<lambda>x_padded.
     bind_result (pad32 y) (\<lambda>y_padded.
       encode_cbor emit False
         [CreateMap 5,
          EncodeInt 1, EncodeInt 2,
          EncodeInt 3, EncodeInt (-7),
          EncodeInt (-1), EncodeInt 1,
          EncodeInt (-2), EncodeBytes x_padded,
          EncodeInt (-3), EncodeBytes y_padded,
          CloseContainer]))"

definition build_authenticatorMakeCredential_response :: "tiny_encoder \<Rightarrow> bytes \<Rightarrow> bytes \<Rightarrow> bytes result" where
  "build_authenticatorMakeCredential_response emit auth_data signData = encode_cbor emit True
     [CreateMap 3,
      EncodeUint 1, EncodeText ''packed'',
      EncodeUint 2, EncodeBytes auth_data,
      EncodeUint 3, CreateMap 2, EncodeText ''alg'', EncodeInt (-7),
        EncodeText ''sig'', EncodeBytes signData, CloseContainer,
      CloseContainer]"

definition build_authenticatorGetAssertion_response ::
    "tiny_encoder \<Rightarrow> bytes \<Rightarrow> bytes \<Rightarrow> bool \<Rightarrow> StoredCredential \<Rightarrow> bool \<Rightarrow> u32 option \<Rightarrow> bytes result" where
  "build_authenticatorGetAssertion_response emit auth_data signature uv credential include_user
       number_of_credentials =
     encode_cbor emit True
       ([CreateMap (3 + (if include_user then 1 else 0) + (if number_of_credentials \<noteq> None then 1 else 0)),
         EncodeUint 1, CreateMap 2, EncodeText ''id'', EncodeBytes (cred_id credential),
           EncodeText ''type'', EncodeText ''public-key'', CloseContainer,
         EncodeUint 2, EncodeBytes auth_data,
         EncodeUint 3, EncodeBytes signature] @
        (if include_user then
           [EncodeUint 4, CreateMap (if uv then 3 else 1),
            EncodeText ''id'', EncodeBytes (cred_userId credential)] @
           (if uv then
              [EncodeText ''name'', EncodeText (cred_userName credential),
               EncodeText ''displayName'', EncodeText (cred_userDisplayName credential)]
            else []) @
           [CloseContainer]
         else []) @
        (case number_of_credentials of
           Some n \<Rightarrow> [EncodeUint 5, EncodeUint (ucast n)]
         | None \<Rightarrow> []) @
        [CloseContainer])"

section \<open>Readers\<close>

text \<open>A reader only throws \<open>cbor::Error\<close>, and it advances the cursor when it succeeds.\<close>

definition reader :: "(cursor \<Rightarrow> ('a \<times> cursor) result) \<Rightarrow> bool" where
  "reader f \<longleftrightarrow> (\<forall>v. case f v of
     Inl e \<Rightarrow> (\<exists>m. e = CborParseError m)
   | Inr (_, v') \<Rightarrow> size v' < size v)"

named_theorems readers "functions that read CBOR items"

lemma readerI:
  assumes "\<And>v e. f v = Inl e \<Longrightarrow> \<exists>m. e = CborParseError m" "\<And>v x v'. f v = Inr (x, v') \<Longrightarrow> size v' < size v"
  shows "reader f"
  using assms by (auto simp: reader_def split: sum.splits)

lemma readerD:
  assumes "reader f"
  shows "f v = Inl e \<Longrightarrow> \<exists>m. e = CborParseError m" "f v = Inr (x, v') \<Longrightarrow> size v' < size v"
  using assms by (auto simp: reader_def split: sum.splits dest: spec [of _ v])

lemma check_Inl: "check r op = Inl e \<Longrightarrow> \<exists>m. e = CborParseError m"
  by (cases r) (auto simp: check_def)

lemma check_Inr [simp]: "check r op = Inr x \<longleftrightarrow> r = Inr x"
  by (cases r) (auto simp: check_def)

lemma bind_result_eq_Inl: "bind_result r f = Inl e \<longleftrightarrow> r = Inl e \<or> (\<exists>x. r = Inr x \<and> f x = Inl e)"
  by (cases r) auto

lemma reader_primitives [readers]:
  "reader (\<lambda>v. read_text v n)" "reader (\<lambda>v. read_bytes v n)" "reader read_uint" "reader read_int" "reader read_bool"
  by (rule readerI; force simp: read_text_def read_bytes_def read_uint_def read_int_def read_bool_def
      bind_result_eq_Inl bind_result_eq_Inr dest: check_Inl split: cursor.splits item.splits if_splits)+

lemma reader_skip [readers]: "reader (skip_member acc)"
  by (rule readerI)
    (force simp: skip_member_def skip_value_def bind_result_eq_Inl bind_result_eq_Inr dest: check_Inl
      split: cursor.splits)+

text \<open>A weak reader may also leave the cursor in place.\<close>

definition weak_reader :: "(cursor \<Rightarrow> ('a \<times> cursor) result) \<Rightarrow> bool" where
  "weak_reader f \<longleftrightarrow> (\<forall>v. case f v of
     Inl e \<Rightarrow> (\<exists>m. e = CborParseError m)
   | Inr (_, v') \<Rightarrow> size v' \<le> size v)"

lemma weak_readerI:
  assumes "\<And>v e. f v = Inl e \<Longrightarrow> \<exists>m. e = CborParseError m" "\<And>v x v'. f v = Inr (x, v') \<Longrightarrow> size v' \<le> size v"
  shows "weak_reader f"
  using assms by (auto simp: weak_reader_def split: sum.splits)

lemma weak_readerD:
  assumes "weak_reader f"
  shows "f v = Inl e \<Longrightarrow> \<exists>m. e = CborParseError m" "f v = Inr (x, v') \<Longrightarrow> size v' \<le> size v"
  using assms by (auto simp: weak_reader_def split: sum.splits dest: spec [of _ v])

lemma weak_reader_simps [readers]:
  "weak_reader (\<lambda>v. Inr (x, v))" "weak_reader (\<lambda>v. Inl (CborParseError m))"
  by (rule weak_readerI; simp)+

lemma weak_reader_if [readers]:
  "weak_reader f \<Longrightarrow> weak_reader g \<Longrightarrow> weak_reader (\<lambda>v. if b then f v else g v)"
  by (cases b) simp_all

lemma reader_if [readers]: "reader f \<Longrightarrow> reader g \<Longrightarrow> reader (\<lambda>v. if b then f v else g v)"
  by (cases b) simp_all

lemma weak_reader_prod [readers]: "(\<And>a b. weak_reader (h a b)) \<Longrightarrow> weak_reader (case x of (a, b) \<Rightarrow> h a b)"
  by (cases x) simp

lemma reader_weak: "reader f \<Longrightarrow> weak_reader f"
  using readerD [of f] by (intro weak_readerI) (auto intro: less_imp_le)

lemma reader_bind [readers]:
  assumes "reader f" "\<And>x. weak_reader (g x)"
  shows "reader (\<lambda>v. bind_result (f v) (\<lambda>(x, v'). g x v'))"
proof (rule readerI)
  fix v e
  assume "bind_result (f v) (\<lambda>(x, v'). g x v') = Inl e"
  with readerD(1) [OF assms(1)] weak_readerD(1) [OF assms(2)] show "\<exists>m. e = CborParseError m"
    by (auto simp: bind_result_eq_Inl)
next
  fix v y w
  assume "bind_result (f v) (\<lambda>(x, v'). g x v') = Inr (y, w)"
  with readerD(2) [OF assms(1)] weak_readerD(2) [OF assms(2)] show "size w < size v"
    by (fastforce simp: bind_result_eq_Inr)
qed

lemma weak_reader_const [readers]:
  assumes "\<And>e. r = Inl e \<Longrightarrow> \<exists>m. e = CborParseError m" "\<And>y. weak_reader (h y)"
  shows "weak_reader (\<lambda>v. bind_result r (\<lambda>y. h y v))"
  using assms by (cases r) (auto simp: weak_reader_def)

lemma read_loop_error:
  assumes "\<And>acc. reader (f acc)" "read_loop f acc v = Inl e"
  shows "\<exists>m. e = CborParseError m"
  using assms
proof (induction f acc v rule: read_loop.induct)
  case (1 f acc v)
  show ?case
  proof (cases "f acc v")
    case (Inl e')
    with 1 readerD(1) [OF 1(2), of acc v e'] show ?thesis by (auto simp: read_loop.simps split: if_splits)
  next
    case (Inr r)
    obtain acc' v' where r: "r = (acc', v')" by (cases r)
    with Inr readerD(2) [OF 1(2)] have "size v' < size v" by blast
    moreover from this 1(3) Inr r have "v \<noteq> AtEnd" "read_loop f acc' v' = Inl e"
      by (auto simp: read_loop.simps [of f acc v] split: if_splits)
    ultimately show ?thesis using 1(1) [of r acc' v'] Inr r 1(2) by blast
  qed
qed

lemma read_loop_invariant:
  assumes "P acc" "\<And>acc v acc' v'. P acc \<Longrightarrow> f acc v = Inr (acc', v') \<Longrightarrow> P acc'"
    "read_loop f acc v = Inr acc'"
  shows "P acc'"
  using assms
proof (induction f acc v rule: read_loop.induct)
  case (1 f acc v)
  show ?case
  proof (cases "v = AtEnd")
    case True
    with 1 show ?thesis by (simp add: read_loop.simps)
  next
    case False
    with 1(4) obtain acc2 v2 where "f acc v = Inr (acc2, v2)" "size v2 < size v" "read_loop f acc2 v2 = Inr acc'"
      by (auto simp: read_loop.simps [of f acc v] split: sum.splits if_splits)
    with 1 False show ?thesis by blast
  qed
qed

lemma reader_map [readers]:
  assumes "\<And>acc. reader (f acc)"
  shows "reader (read_map f acc)" "reader (read_array f acc)"
  by (rule readerI; force simp: read_map_def read_array_def bind_result_eq_Inl bind_result_eq_Inr
      dest: check_Inl read_loop_error [OF assms] split: cursor.splits item.splits)+

text \<open>As documented, TinyCBOR copies at most the announced number of bytes of a string.\<close>

fun copies_ok :: "cursor \<Rightarrow> bool" and item_copies_ok :: "item \<Rightarrow> bool" where
  "copies_ok AtEnd = True"
| "copies_ok (At i rest) \<longleftrightarrow> item_copies_ok i \<and> (case rest of Inr v \<Rightarrow> copies_ok v | Inl _ \<Rightarrow> True)"
| "item_copies_ok (Text len copy) \<longleftrightarrow>
     (case (len, copy) of (Inr n, Inr s) \<Rightarrow> length s \<le> n | _ \<Rightarrow> True)"
| "item_copies_ok (Bytes len copy) \<longleftrightarrow>
     (case (len, copy) of (Inr n, Inr s) \<Rightarrow> length s \<le> n | _ \<Rightarrow> True)"
| "item_copies_ok (Array entered) \<longleftrightarrow> (case entered of Inr v \<Rightarrow> copies_ok v | Inl _ \<Rightarrow> True)"
| "item_copies_ok (Map entered) \<longleftrightarrow> (case entered of Inr v \<Rightarrow> copies_ok v | Inl _ \<Rightarrow> True)"
| "item_copies_ok _ = True"

definition yields :: "(cursor \<Rightarrow> ('a \<times> cursor) result) \<Rightarrow> ('a \<Rightarrow> bool) \<Rightarrow> bool" where
  "yields f P \<longleftrightarrow> (\<forall>v x v'. copies_ok v \<longrightarrow> f v = Inr (x, v') \<longrightarrow> P x \<and> copies_ok v')"

named_theorems yielding "what readers return"

lemma yieldsI: "(\<And>v x v'. copies_ok v \<Longrightarrow> f v = Inr (x, v') \<Longrightarrow> P x \<and> copies_ok v') \<Longrightarrow> yields f P"
  by (auto simp: yields_def)

lemma yieldsD: "yields f P \<Longrightarrow> copies_ok v \<Longrightarrow> f v = Inr (x, v') \<Longrightarrow> P x \<and> copies_ok v'"
  by (auto simp: yields_def)

lemma yields_primitives:
  "yields (\<lambda>v. read_text v n) (\<lambda>s. length s \<le> n)" "yields (\<lambda>v. read_bytes v n) (\<lambda>s. length s \<le> n)"
  "yields read_uint (\<lambda>_. True)" "yields read_int (\<lambda>_. True)" "yields read_bool (\<lambda>_. True)"
  by (rule yieldsI; auto simp: read_text_def read_bytes_def read_uint_def read_int_def read_bool_def
      bind_result_eq_Inr split: cursor.splits item.splits if_splits)+

lemma yields_skip: "P acc \<Longrightarrow> yields (skip_member acc) P"
  by (rule yieldsI) (auto simp: skip_member_def skip_value_def bind_result_eq_Inr split: cursor.splits)

lemma yields_return: "P x \<Longrightarrow> yields (\<lambda>v. Inr (x, v)) P"
  by (simp add: yields_def)

lemma yields_fail: "yields (\<lambda>v. Inl e) P"
  by (simp add: yields_def)

lemma yields_if: "(b \<Longrightarrow> yields f P) \<Longrightarrow> (\<not> b \<Longrightarrow> yields g P) \<Longrightarrow> yields (\<lambda>v. if b then f v else g v) P"
  by (cases b) simp_all

lemma yields_bind:
  assumes "yields f P" "\<And>x. P x \<Longrightarrow> yields (g x) Q"
  shows "yields (\<lambda>v. bind_result (f v) (\<lambda>(x, v'). g x v')) Q"
proof (rule yieldsI)
  fix v y w
  assume v: "copies_ok v" and "bind_result (f v) (\<lambda>(x, v'). g x v') = Inr (y, w)"
  then obtain x v' where "f v = Inr (x, v')" "g x v' = Inr (y, w)" by (auto simp: bind_result_eq_Inr)
  with v yieldsD [OF assms(1)] yieldsD [OF assms(2)] show "Q y \<and> copies_ok w" by blast
qed

lemma yields_const: "(\<And>y. r = Inr y \<Longrightarrow> yields (h y) P) \<Longrightarrow> yields (\<lambda>v. bind_result r (\<lambda>y. h y v)) P"
  by (cases r) (simp_all add: yields_def)

lemma read_loop_yields:
  assumes "\<And>acc. P acc \<Longrightarrow> yields (f acc) P" "P acc" "copies_ok v" "read_loop f acc v = Inr acc'"
  shows "P acc'"
  using assms
proof (induction f acc v rule: read_loop.induct)
  case (1 f acc v)
  show ?case
  proof (cases "v = AtEnd")
    case True
    with 1 show ?thesis by (simp add: read_loop.simps)
  next
    case False
    with 1(5) obtain acc2 v2 where s: "f acc v = Inr (acc2, v2)" "size v2 < size v" "read_loop f acc2 v2 = Inr acc'"
      by (auto simp: read_loop.simps [of f acc v] split: sum.splits if_splits)
    with yieldsD [OF 1(2) [OF 1(3)] 1(4)] have "P acc2 \<and> copies_ok v2" by blast
    with 1 False s show ?thesis by blast
  qed
qed

lemma yields_containers:
  assumes "\<And>acc. P acc \<Longrightarrow> yields (f acc) P" "P acc"
  shows "yields (read_map f acc) P" "yields (read_array f acc) P"
  by (rule yieldsI; auto simp: read_map_def read_array_def bind_result_eq_Inr
      intro: read_loop_yields [where P = P, OF assms] split: cursor.splits item.splits)+

section \<open>Encoded responses\<close>

text \<open>CBOR data items and their encoding (RFC 8949, shortest heads and definite lengths).\<close>

datatype cbor =
    CUint nat
  | CNint nat
  | CBytes bytes
  | CText string
  | CBool bool
  | CArray "cbor list"
  | CMap "(cbor \<times> cbor) list"

definition cbor_head :: "nat \<Rightarrow> nat \<Rightarrow> bytes" where
  "cbor_head major n =
     (if n < 24 then [word_of_nat (major * 32 + n)]
      else if n < 0x100 then [word_of_nat (major * 32 + 24), word_of_nat n]
      else if n < 0x10000 then word_of_nat (major * 32 + 25) # be16 (word_of_nat n)
      else if n < 0x100000000 then word_of_nat (major * 32 + 26) # be32 (word_of_nat n)
      else word_of_nat (major * 32 + 27) # be64 (word_of_nat n))"

fun cbor_encode :: "cbor \<Rightarrow> bytes" where
  "cbor_encode (CUint n) = cbor_head 0 n"
| "cbor_encode (CNint n) = cbor_head 1 n"
| "cbor_encode (CBytes bs) = cbor_head 2 (length bs) @ bs"
| "cbor_encode (CText s) = cbor_head 3 (length s) @ map byte_of_char s"
| "cbor_encode (CBool b) = [if b then 0xF5 else 0xF4]"
| "cbor_encode (CArray xs) = cbor_head 4 (length xs) @ concat (map cbor_encode xs)"
| "cbor_encode (CMap ps) = cbor_head 5 (length ps) @ concat (map (\<lambda>(k, v). cbor_encode k @ cbor_encode v) ps)"

text \<open>The documented behaviour of the encoder: each call writes the RFC 8949 encoding of its value,
  opening a container writes its head and closing one of known length writes nothing.\<close>

fun call_bytes :: "cbor_call \<Rightarrow> bytes" where
  "call_bytes (EncodeUint n) = cbor_head 0 (unat n)"
| "call_bytes (EncodeInt n) = (if n < 0 then cbor_head 1 (nat (-1 - n)) else cbor_head 0 (nat n))"
| "call_bytes (EncodeBytes bs) = cbor_head 2 (length bs) @ bs"
| "call_bytes (EncodeText s) = cbor_head 3 (length s) @ map byte_of_char s"
| "call_bytes (EncodeBoolean b) = [if b then 0xF5 else 0xF4]"
| "call_bytes (CreateMap n) = cbor_head 5 n"
| "call_bytes (CreateArray n) = cbor_head 4 n"
| "call_bytes CloseContainer = []"

definition rfc8949 :: "tiny_encoder \<Rightarrow> bool" where
  "rfc8949 emit \<longleftrightarrow> (\<forall>call. concat (emit call) = call_bytes call)"

lemma append_chunks_eq:
  "length out \<le> CTAPHID_MAX_PAYLOAD_SIZE \<Longrightarrow>
   append_chunks out chunks =
     (if length out + length (concat chunks) \<le> CTAPHID_MAX_PAYLOAD_SIZE then Inr (out @ concat chunks)
      else Inl (CborEncodingError resource_limit))"
  by (induction out chunks rule: append_chunks.induct) (auto simp: append_cbor_def bind_result_def)

lemma run_calls_eq:
  assumes "rfc8949 emit"
  shows "length out \<le> CTAPHID_MAX_PAYLOAD_SIZE \<Longrightarrow>
   run_calls emit out calls =
     (if length out + length (concat (map call_bytes calls)) \<le> CTAPHID_MAX_PAYLOAD_SIZE
      then Inr (out @ concat (map call_bytes calls))
      else Inl (CborEncodingError resource_limit))"
proof (induction calls arbitrary: out)
  case (Cons call calls)
  have "concat (emit call) = call_bytes call" using assms by (simp add: rfc8949_def)
  with Cons show ?case by (auto simp: append_chunks_eq)
qed simp

definition bounded :: "bytes \<Rightarrow> bytes result" where
  "bounded bs = (if length bs \<le> CTAPHID_MAX_PAYLOAD_SIZE then Inr bs else Inl (CborEncodingError resource_limit))"

lemma encode_cbor_eq:
  assumes "rfc8949 emit"
  shows "encode_cbor emit True calls = bounded (0 # concat (map call_bytes calls))"
    "encode_cbor emit False calls = bounded (concat (map call_bytes calls))"
  by (simp_all add: encode_cbor_def run_calls_eq [OF assms] bounded_def CTAPHID_MAX_PAYLOAD_SIZE_def)

text \<open>The items the responses mean.\<close>

definition getinfo_item :: cbor where
  "getinfo_item = CMap
    [(CUint 1, CArray [CText ''FIDO_2_0'']),
     (CUint 3, CBytes aaguid),
     (CUint 4, CMap [(CText ''rk'', CBool True), (CText ''up'', CBool True), (CText ''uv'', CBool True)]),
     (CUint 9, CArray [CText ''usb'']),
     (CUint 10, CArray [CMap [(CText ''alg'', CNint 6), (CText ''type'', CText ''public-key'')]]),
     (CUint 14, CUint 1)]"

definition cose_key_item :: "bytes \<Rightarrow> bytes \<Rightarrow> cbor" where
  "cose_key_item x y = CMap
    [(CUint 1, CUint 2), (CUint 3, CNint 6), (CNint 0, CUint 1),
     (CNint 1, CBytes (replicate (32 - length x) 0 @ x)), (CNint 2, CBytes (replicate (32 - length y) 0 @ y))]"

definition make_credential_item :: "bytes \<Rightarrow> bytes \<Rightarrow> cbor" where
  "make_credential_item auth_data sig = CMap
    [(CUint 1, CText ''packed''), (CUint 2, CBytes auth_data),
     (CUint 3, CMap [(CText ''alg'', CNint 6), (CText ''sig'', CBytes sig)])]"

definition get_assertion_item :: "bytes \<Rightarrow> bytes \<Rightarrow> bool \<Rightarrow> StoredCredential \<Rightarrow> bool \<Rightarrow> u32 option \<Rightarrow> cbor" where
  "get_assertion_item auth_data sig uv c include_user n = CMap
    ([(CUint 1, CMap [(CText ''id'', CBytes (cred_id c)), (CText ''type'', CText ''public-key'')]),
      (CUint 2, CBytes auth_data), (CUint 3, CBytes sig)] @
     (if include_user then
        [(CUint 4, CMap ((CText ''id'', CBytes (cred_userId c)) #
           (if uv then [(CText ''name'', CText (cred_userName c)), (CText ''displayName'', CText (cred_userDisplayName c))]
            else [])))] else []) @
     (case n of Some k \<Rightarrow> [(CUint 5, CUint (unat k))] | None \<Rightarrow> []))"

text \<open>The canonical order of map keys: shorter encodings first, equal lengths by bytes.\<close>

definition key_before :: "cbor \<Rightarrow> cbor \<Rightarrow> bool" where
  "key_before a b \<longleftrightarrow> length (cbor_encode a) < length (cbor_encode b) \<or>
     length (cbor_encode a) = length (cbor_encode b) \<and> cbor_encode a < cbor_encode b"

fun canonical :: "cbor \<Rightarrow> bool" where
  "canonical (CArray xs) \<longleftrightarrow> list_all canonical xs"
| "canonical (CMap ps) \<longleftrightarrow> sorted_wrt key_before (map fst ps) \<and> list_all (\<lambda>(k, v). canonical k \<and> canonical v) ps"
| "canonical _ \<longleftrightarrow> True"

lemma getinfo_eq:
  assumes "rfc8949 emit"
  shows "build_getinfo_response emit = bounded (0 # cbor_encode getinfo_item)"
  unfolding build_getinfo_response_def encode_cbor_eq [OF assms] getinfo_item_def
  by (simp add: firmware_version_def) (simp add: eval_nat_numeral)

lemma cose_key_eq:
  assumes "rfc8949 emit" "length x \<le> 32" "length y \<le> 32"
  shows "build_cose_key emit x y = bounded (cbor_encode (cose_key_item x y))"
  using assms by (simp add: build_cose_key_def pad32_def encode_cbor_eq cose_key_item_def) (simp add: eval_nat_numeral)

lemma make_credential_eq:
  assumes "rfc8949 emit"
  shows "build_authenticatorMakeCredential_response emit auth_data sig =
    bounded (0 # cbor_encode (make_credential_item auth_data sig))"
  unfolding build_authenticatorMakeCredential_response_def encode_cbor_eq [OF assms] make_credential_item_def
  by simp (simp add: eval_nat_numeral)

lemma get_assertion_eq:
  assumes "rfc8949 emit"
  shows "build_authenticatorGetAssertion_response emit auth_data sig uv c include_user n =
    bounded (0 # cbor_encode (get_assertion_item auth_data sig uv c include_user n))"
  unfolding build_authenticatorGetAssertion_response_def encode_cbor_eq [OF assms] get_assertion_item_def
  by (cases n; cases include_user; cases uv; simp; simp add: eval_nat_numeral)

lemmas key_order = key_before_def cbor_head_def byte_of_char_def

lemma items_canonical:
  "canonical getinfo_item" "canonical (cose_key_item x y)" "canonical (make_credential_item auth_data sig)"
  "canonical (get_assertion_item auth_data sig uv c include_user n)"
proof -
  show "canonical getinfo_item"
    by (simp add: getinfo_item_def key_order)
  show "canonical (cose_key_item x y)"
    by (simp add: cose_key_item_def key_order)
  show "canonical (make_credential_item auth_data sig)"
    by (simp add: make_credential_item_def key_order)
  show "canonical (get_assertion_item auth_data sig uv c include_user n)"
    by (cases n; cases include_user; cases uv) (simp_all add: get_assertion_item_def key_order)
qed

section \<open>Properties\<close>

text \<open>
  C18.  The responses are what they should mean: with an encoder that follows RFC 8949, each builder
  returns the success status followed by the encoding of its item, whose maps are in canonical key
  order, exactly when that fits in one CTAPHID message, and reports a resource limit otherwise.
\<close>

theorem cbor_responses_exact:
  assumes "rfc8949 emit" "length x \<le> 32" "length y \<le> 32"
  shows "build_getinfo_response emit = bounded (0 # cbor_encode getinfo_item) \<and>
    build_cose_key emit x y = bounded (cbor_encode (cose_key_item x y)) \<and>
    build_authenticatorMakeCredential_response emit auth_data sig =
      bounded (0 # cbor_encode (make_credential_item auth_data sig)) \<and>
    build_authenticatorGetAssertion_response emit auth_data sig uv c include_user n =
      bounded (0 # cbor_encode (get_assertion_item auth_data sig uv c include_user n)) \<and>
    canonical getinfo_item \<and> canonical (cose_key_item x y) \<and> canonical (make_credential_item auth_data sig) \<and>
    canonical (get_assertion_item auth_data sig uv c include_user n)"
  using assms by (simp add: getinfo_eq cose_key_eq make_credential_eq get_assertion_eq items_canonical)

theorem cbor_responses_exact_witness:
  "build_cose_key (\<lambda>call. [call_bytes call]) [1] [2] = bounded (cbor_encode (cose_key_item [1] [2]))"
proof -
  have "rfc8949 (\<lambda>call. [call_bytes call])" by (simp add: rfc8949_def)
  from cbor_responses_exact [OF this, of "[1]" "[2]"] show ?thesis by simp
qed

end
