(* ===== verification/Requests.thy ===== *)
theory Requests
  imports Cbor
begin

text \<open>
  The request objects of authenticatorMakeCredential and authenticatorGetAssertion and their
  parsing: \<open>registration/registration.hpp\<close>, \<open>registration/registration.cpp\<close>,
  \<open>cbor_operations/make_cred_parsing.cpp\<close>, \<open>authentication/authenticate.hpp\<close>,
  \<open>authentication/authenticate.cpp\<close> and \<open>cbor_operations/get_assertion_parsing.cpp\<close>.
  The parser \<open>tinycbor\<close> maps a payload to the cursor of its first item.
\<close>

section \<open>Request objects\<close>

record RelyingParty =
  rp_id :: string
  rp_name :: string

record UserEntity =
  ue_id :: bytes
  ue_name :: string
  ue_displayName :: string

record PubKeyCredParam =
  pk_type :: string
  pk_alg :: int

record CTAPMakeCredentialRequest =
  mc_rp :: RelyingParty
  mc_user :: UserEntity
  mc_clientDataHash :: bytes
  mc_publicKeyCredParams :: "PubKeyCredParam list"
  mc_excludeList :: "PublicKeyCredentialDescriptor list"
  mc_options :: "string \<Rightarrow> bool option"
  mc_up_option_present :: bool
  mc_pin_auth_present :: bool
  mc_pin_protocol_present :: bool

definition clear_make_credential :: CTAPMakeCredentialRequest where
  "clear_make_credential =
     \<lparr>mc_rp = \<lparr>rp_id = [], rp_name = []\<rparr>, mc_user = \<lparr>ue_id = [], ue_name = [], ue_displayName = []\<rparr>,
      mc_clientDataHash = [], mc_publicKeyCredParams = [], mc_excludeList = [],
      mc_options = [''rk'' \<mapsto> False, ''uv'' \<mapsto> False], mc_up_option_present = False,
      mc_pin_auth_present = False, mc_pin_protocol_present = False\<rparr>"

definition make_credential_validation_error :: "CTAPMakeCredentialRequest \<Rightarrow> CTAPError option" where
  "make_credential_validation_error req =
     (if mc_up_option_present req then Some CTAP2_ERR_INVALID_OPTION
      else if mc_pin_auth_present req \<or> mc_pin_protocol_present req then Some CTAP2_ERR_PIN_AUTH_INVALID
      else None)"

text \<open>The parsed fields of \<open>CTAPGetAssertionRequest\<close>; its sequence of pending assertions is separate.\<close>

record GetAssertionFields =
  ga_rpId :: string
  ga_clientDataHash :: bytes
  ga_allowList :: "PublicKeyCredentialDescriptor list"
  ga_options :: "string \<Rightarrow> bool option"
  ga_rk_option_present :: bool
  ga_pin_auth_present :: bool
  ga_pin_protocol_present :: bool

definition clear_get_assertion :: GetAssertionFields where
  "clear_get_assertion =
     \<lparr>ga_rpId = [], ga_clientDataHash = [], ga_allowList = [],
      ga_options = [''uv'' \<mapsto> False, ''up'' \<mapsto> True], ga_rk_option_present = False,
      ga_pin_auth_present = False, ga_pin_protocol_present = False\<rparr>"

definition get_assertion_validation_error :: "GetAssertionFields \<Rightarrow> CTAPError option" where
  "get_assertion_validation_error req =
     (if ga_pin_auth_present req \<or> ga_pin_protocol_present req then Some CTAP2_ERR_PIN_AUTH_INVALID
      else if ga_rk_option_present req then Some CTAP2_ERR_INVALID_OPTION
      else None)"

section \<open>Shared pieces\<close>

definition CLIENT_DATA_HASH_LENGTH :: nat where "CLIENT_DATA_HASH_LENGTH = 32"
definition MAX_RP_ID_LENGTH :: nat where "MAX_RP_ID_LENGTH = 253"
definition MAX_ENTITY_TEXT_LENGTH :: nat where "MAX_ENTITY_TEXT_LENGTH = 64"
definition MAX_USER_ID_LENGTH :: nat where "MAX_USER_ID_LENGTH = 64"
definition MAX_CREDENTIAL_ID_LENGTH :: nat where "MAX_CREDENTIAL_ID_LENGTH = 7609"
definition MAX_EXTENSION_NAME_LENGTH :: nat where "MAX_EXTENSION_NAME_LENGTH = 64"
definition MAX_TRANSPORT_NAME_LENGTH :: nat where "MAX_TRANSPORT_NAME_LENGTH = 32"
definition MAX_PIN_AUTH_LENGTH :: nat where "MAX_PIN_AUTH_LENGTH = 64"

lemmas request_limits =
  CLIENT_DATA_HASH_LENGTH_def MAX_RP_ID_LENGTH_def MAX_ENTITY_TEXT_LENGTH_def MAX_USER_ID_LENGTH_def
  MAX_CREDENTIAL_ID_LENGTH_def MAX_EXTENSION_NAME_LENGTH_def MAX_TRANSPORT_NAME_LENGTH_def
  MAX_PIN_AUTH_LENGTH_def

definition require_unique :: "string set \<Rightarrow> string \<Rightarrow> string \<Rightarrow> string set result" where
  "require_unique seen key context =
     (if key \<in> seen then Inl (CborParseError (''duplicate '' @ context @ '' member: '' @ key))
      else Inr (insert key seen))"

text \<open>A member of a text-keyed map: the key is read, checked to be new, and handed on.\<close>

definition read_member ::
    "nat \<Rightarrow> string \<Rightarrow> (string \<Rightarrow> 'a \<Rightarrow> cursor \<Rightarrow> ('a \<times> cursor) result) \<Rightarrow>
     'a \<times> string set \<Rightarrow> cursor \<Rightarrow> (('a \<times> string set) \<times> cursor) result" where
  "read_member max_key context body st v =
     bind_result (read_text v max_key) (\<lambda>(key, v1).
     bind_result (require_unique (snd st) key context) (\<lambda>seen.
     bind_result (body key (fst st) v1) (\<lambda>(acc, v2). Inr ((acc, seen), v2))))"

definition read_transport :: "string list \<Rightarrow> cursor \<Rightarrow> (string list \<times> cursor) result" where
  "read_transport transports v =
     bind_result (read_text v MAX_TRANSPORT_NAME_LENGTH) (\<lambda>(t, v'). Inr (transports @ [t], v'))"

definition descriptor_member ::
    "string \<Rightarrow> PublicKeyCredentialDescriptor \<Rightarrow> cursor \<Rightarrow> (PublicKeyCredentialDescriptor \<times> cursor) result" where
  "descriptor_member key d v =
     (if key = ''type'' then
        bind_result (read_text v MAX_ENTITY_TEXT_LENGTH) (\<lambda>(t, v'). Inr (d\<lparr>desc_type := t\<rparr>, v'))
      else if key = ''id'' then
        bind_result (read_bytes v MAX_CREDENTIAL_ID_LENGTH) (\<lambda>(i, v'). Inr (d\<lparr>desc_id := i\<rparr>, v'))
      else if key = ''transports'' then
        bind_result (read_array read_transport (desc_transports d) v) (\<lambda>(ts, v').
          Inr (d\<lparr>desc_transports := ts\<rparr>, v'))
      else skip_member d v)"

definition read_credential_descriptor :: "cursor \<Rightarrow> (PublicKeyCredentialDescriptor \<times> cursor) result" where
  "read_credential_descriptor v =
     bind_result (read_map (read_member MAX_ENTITY_TEXT_LENGTH ''credential descriptor'' descriptor_member)
         (\<lparr>desc_type = [], desc_id = [], desc_transports = []\<rparr>, {}) v) (\<lambda>((d, seen), v').
       if ''type'' \<notin> seen \<or> ''id'' \<notin> seen \<or> desc_type d = [] \<or> desc_id d = [] then
         Inl (CborParseError ''credential descriptor is missing a non-empty type or id'')
       else Inr (d, v'))"

definition read_descriptor_element ::
    "PublicKeyCredentialDescriptor list \<Rightarrow> cursor \<Rightarrow> (PublicKeyCredentialDescriptor list \<times> cursor) result" where
  "read_descriptor_element ds v =
     bind_result (read_credential_descriptor v) (\<lambda>(d, v'). Inr (ds @ [d], v'))"

definition read_client_data_hash :: "cursor \<Rightarrow> (bytes \<times> cursor) result" where
  "read_client_data_hash v =
     bind_result (read_bytes v CLIENT_DATA_HASH_LENGTH) (\<lambda>(h, v').
       if length h \<noteq> CLIENT_DATA_HASH_LENGTH then
         Inl (CborParseError ''clientDataHash must contain exactly 32 bytes'')
       else Inr (h, v'))"

definition read_extensions :: "cursor \<Rightarrow> cursor result" where
  "read_extensions v =
     bind_result (read_map (read_member MAX_EXTENSION_NAME_LENGTH ''extension'' (\<lambda>_. skip_member))
         ((), {}) v) (\<lambda>(_, v'). Inr v')"

section \<open>MakeCredential\<close>

definition mc_parse_client_data_hash ::
    "CTAPMakeCredentialRequest \<Rightarrow> cursor \<Rightarrow> (CTAPMakeCredentialRequest \<times> cursor) result" where
  "mc_parse_client_data_hash req v =
     bind_result (read_client_data_hash v) (\<lambda>(h, v'). Inr (req\<lparr>mc_clientDataHash := h\<rparr>, v'))"

definition rp_member :: "string \<Rightarrow> RelyingParty \<Rightarrow> cursor \<Rightarrow> (RelyingParty \<times> cursor) result" where
  "rp_member key rp v =
     (if key = ''id'' then
        bind_result (read_text v MAX_RP_ID_LENGTH) (\<lambda>(i, v'). Inr (rp\<lparr>rp_id := i\<rparr>, v'))
      else if key = ''name'' then
        bind_result (read_text v MAX_ENTITY_TEXT_LENGTH) (\<lambda>(n, v'). Inr (rp\<lparr>rp_name := n\<rparr>, v'))
      else skip_member rp v)"

definition mc_parse_rp ::
    "CTAPMakeCredentialRequest \<Rightarrow> cursor \<Rightarrow> (CTAPMakeCredentialRequest \<times> cursor) result" where
  "mc_parse_rp req v =
     bind_result (read_map (read_member MAX_ENTITY_TEXT_LENGTH ''relying-party entity'' rp_member)
         (mc_rp req, {}) v) (\<lambda>((rp, seen), v').
       if ''id'' \<notin> seen \<or> rp_id rp = [] then
         Inl (CborParseError ''relying-party entity is missing a non-empty id'')
       else Inr (req\<lparr>mc_rp := rp\<rparr>, v'))"

definition user_member :: "string \<Rightarrow> UserEntity \<Rightarrow> cursor \<Rightarrow> (UserEntity \<times> cursor) result" where
  "user_member key user v =
     (if key = ''id'' then
        bind_result (read_bytes v MAX_USER_ID_LENGTH) (\<lambda>(i, v'). Inr (user\<lparr>ue_id := i\<rparr>, v'))
      else if key = ''name'' then
        bind_result (read_text v MAX_ENTITY_TEXT_LENGTH) (\<lambda>(n, v'). Inr (user\<lparr>ue_name := n\<rparr>, v'))
      else if key = ''displayName'' then
        bind_result (read_text v MAX_ENTITY_TEXT_LENGTH) (\<lambda>(n, v'). Inr (user\<lparr>ue_displayName := n\<rparr>, v'))
      else skip_member user v)"

definition mc_parse_user ::
    "CTAPMakeCredentialRequest \<Rightarrow> cursor \<Rightarrow> (CTAPMakeCredentialRequest \<times> cursor) result" where
  "mc_parse_user req v =
     bind_result (read_map (read_member MAX_ENTITY_TEXT_LENGTH ''user entity'' user_member)
         (mc_user req, {}) v) (\<lambda>((user, seen), v').
       if ''id'' \<notin> seen then Inl (CborParseError ''user entity is missing id'')
       else Inr (req\<lparr>mc_user := user\<rparr>, v'))"

definition parameter_member :: "string \<Rightarrow> PubKeyCredParam \<Rightarrow> cursor \<Rightarrow> (PubKeyCredParam \<times> cursor) result" where
  "parameter_member key p v =
     (if key = ''type'' then
        bind_result (read_text v MAX_ENTITY_TEXT_LENGTH) (\<lambda>(t, v'). Inr (p\<lparr>pk_type := t\<rparr>, v'))
      else if key = ''alg'' then
        bind_result (read_int v) (\<lambda>(algorithm, v').
          if algorithm < -2147483648 \<or> algorithm > 2147483647 then
            Inl (CborParseError ''public-key algorithm is out of range'')
          else Inr (p\<lparr>pk_alg := algorithm\<rparr>, v'))
      else skip_member p v)"

definition read_parameter :: "PubKeyCredParam list \<Rightarrow> cursor \<Rightarrow> (PubKeyCredParam list \<times> cursor) result" where
  "read_parameter params v =
     bind_result (read_map (read_member MAX_ENTITY_TEXT_LENGTH ''public-key parameter'' parameter_member)
         (\<lparr>pk_type = [], pk_alg = 0\<rparr>, {}) v) (\<lambda>((p, seen), v').
       if ''type'' \<notin> seen \<or> ''alg'' \<notin> seen then
         Inl (CborParseError ''public-key parameter is missing type or alg'')
       else Inr (params @ [p], v'))"

definition mc_parse_pubkey_params ::
    "CTAPMakeCredentialRequest \<Rightarrow> cursor \<Rightarrow> (CTAPMakeCredentialRequest \<times> cursor) result" where
  "mc_parse_pubkey_params req v =
     bind_result (read_array read_parameter (mc_publicKeyCredParams req) v) (\<lambda>(ps, v').
       Inr (req\<lparr>mc_publicKeyCredParams := ps\<rparr>, v'))"

definition mc_parse_exclude_list ::
    "CTAPMakeCredentialRequest \<Rightarrow> cursor \<Rightarrow> (CTAPMakeCredentialRequest \<times> cursor) result" where
  "mc_parse_exclude_list req v =
     bind_result (read_array read_descriptor_element (mc_excludeList req) v) (\<lambda>(ds, v').
       Inr (req\<lparr>mc_excludeList := ds\<rparr>, v'))"

definition mc_parse_extensions ::
    "CTAPMakeCredentialRequest \<Rightarrow> cursor \<Rightarrow> (CTAPMakeCredentialRequest \<times> cursor) result" where
  "mc_parse_extensions req v = bind_result (read_extensions v) (\<lambda>v'. Inr (req, v'))"

definition mc_option_member ::
    "string \<Rightarrow> CTAPMakeCredentialRequest \<Rightarrow> cursor \<Rightarrow> (CTAPMakeCredentialRequest \<times> cursor) result" where
  "mc_option_member name req v =
     (if name = ''rk'' \<or> name = ''uv'' then
        bind_result (read_bool v) (\<lambda>(b, v'). Inr (req\<lparr>mc_options := (mc_options req)(name \<mapsto> b)\<rparr>, v'))
      else if name = ''up'' then
        bind_result (read_bool v) (\<lambda>(_, v'). Inr (req\<lparr>mc_up_option_present := True\<rparr>, v'))
      else skip_member req v)"

definition mc_parse_options ::
    "CTAPMakeCredentialRequest \<Rightarrow> cursor \<Rightarrow> (CTAPMakeCredentialRequest \<times> cursor) result" where
  "mc_parse_options req v =
     bind_result (read_map (read_member MAX_ENTITY_TEXT_LENGTH ''option'' mc_option_member) (req, {}) v)
       (\<lambda>((req', _), v'). Inr (req', v'))"

definition mc_parse_pin_auth ::
    "CTAPMakeCredentialRequest \<Rightarrow> cursor \<Rightarrow> (CTAPMakeCredentialRequest \<times> cursor) result" where
  "mc_parse_pin_auth req v =
     bind_result (read_bytes v MAX_PIN_AUTH_LENGTH) (\<lambda>(_, v'). Inr (req\<lparr>mc_pin_auth_present := True\<rparr>, v'))"

definition mc_parse_pin_protocol ::
    "CTAPMakeCredentialRequest \<Rightarrow> cursor \<Rightarrow> (CTAPMakeCredentialRequest \<times> cursor) result" where
  "mc_parse_pin_protocol req v =
     bind_result (read_uint v) (\<lambda>(_, v'). Inr (req\<lparr>mc_pin_protocol_present := True\<rparr>, v'))"

definition mc_dispatch ::
    "u64 \<Rightarrow> CTAPMakeCredentialRequest \<Rightarrow> cursor \<Rightarrow> (CTAPMakeCredentialRequest \<times> cursor) result" where
  "mc_dispatch key =
     (if key = 1 then mc_parse_client_data_hash
      else if key = 2 then mc_parse_rp
      else if key = 3 then mc_parse_user
      else if key = 4 then mc_parse_pubkey_params
      else if key = 5 then mc_parse_exclude_list
      else if key = 6 then mc_parse_extensions
      else if key = 7 then mc_parse_options
      else if key = 8 then mc_parse_pin_auth
      else if key = 9 then mc_parse_pin_protocol
      else skip_member)"

text \<open>A parameter of a request: its number is read, checked to be new, and dispatched.\<close>

definition read_parameter_entry ::
    "string \<Rightarrow> (u64 \<Rightarrow> 'a \<Rightarrow> cursor \<Rightarrow> ('a \<times> cursor) result) \<Rightarrow> 'a \<times> u64 set \<Rightarrow> cursor \<Rightarrow>
     (('a \<times> u64 set) \<times> cursor) result" where
  "read_parameter_entry duplicate dispatch st v =
     bind_result (read_uint v) (\<lambda>(key, v1).
       if key \<in> snd st then Inl (CborParseError duplicate)
       else bind_result (dispatch key (fst st) v1) (\<lambda>(acc, v2). Inr ((acc, insert key (snd st)), v2)))"

definition mc_parse_body ::
    "(bytes \<Rightarrow> cursor tiny) \<Rightarrow> bytes \<Rightarrow> CTAPMakeCredentialRequest result" where
  "mc_parse_body tinycbor payload =
     bind_result (check (tinycbor payload) ''initialize MakeCredential parser'') (\<lambda>root.
     bind_result (read_map (read_parameter_entry ''duplicate MakeCredential parameter'' mc_dispatch)
         (clear_make_credential, {}) root) (\<lambda>((req, seen), root').
       if \<not> {1, 2, 3, 4} \<subseteq> seen then
         Inl (CborParseError ''missing required MakeCredential parameter'')
       else bind_result (require_complete root' ''MakeCredential request'') (\<lambda>_. Inr req)))"

text \<open>\<open>parseRequest\<close> returns whether it succeeded, with the request it leaves behind; it catches
  \<open>cbor::Error\<close> only.\<close>

definition make_credential_parseRequest ::
    "(bytes \<Rightarrow> cursor tiny) \<Rightarrow> bytes \<Rightarrow> bool result \<times> CTAPMakeCredentialRequest" where
  "make_credential_parseRequest tinycbor payload =
     (case mc_parse_body tinycbor payload of
        Inr req \<Rightarrow> (Inr True, req)
      | Inl (CborParseError _) \<Rightarrow> (Inr False, clear_make_credential)
      | Inl e \<Rightarrow> (Inl e, clear_make_credential))"

section \<open>GetAssertion\<close>

definition ga_parse_rp_id :: "GetAssertionFields \<Rightarrow> cursor \<Rightarrow> (GetAssertionFields \<times> cursor) result" where
  "ga_parse_rp_id req v =
     bind_result (read_text v MAX_RP_ID_LENGTH) (\<lambda>(i, v').
       if i = [] then Inl (CborParseError ''rpId must not be empty'')
       else Inr (req\<lparr>ga_rpId := i\<rparr>, v'))"

definition ga_parse_client_data_hash :: "GetAssertionFields \<Rightarrow> cursor \<Rightarrow> (GetAssertionFields \<times> cursor) result" where
  "ga_parse_client_data_hash req v =
     bind_result (read_client_data_hash v) (\<lambda>(h, v'). Inr (req\<lparr>ga_clientDataHash := h\<rparr>, v'))"

definition ga_parse_allow_list :: "GetAssertionFields \<Rightarrow> cursor \<Rightarrow> (GetAssertionFields \<times> cursor) result" where
  "ga_parse_allow_list req v =
     bind_result (read_array read_descriptor_element (ga_allowList req) v) (\<lambda>(ds, v').
       Inr (req\<lparr>ga_allowList := ds\<rparr>, v'))"

definition ga_parse_extensions :: "GetAssertionFields \<Rightarrow> cursor \<Rightarrow> (GetAssertionFields \<times> cursor) result" where
  "ga_parse_extensions req v = bind_result (read_extensions v) (\<lambda>v'. Inr (req, v'))"

definition ga_option_member ::
    "string \<Rightarrow> GetAssertionFields \<Rightarrow> cursor \<Rightarrow> (GetAssertionFields \<times> cursor) result" where
  "ga_option_member name req v =
     (if name = ''up'' \<or> name = ''uv'' then
        bind_result (read_bool v) (\<lambda>(b, v'). Inr (req\<lparr>ga_options := (ga_options req)(name \<mapsto> b)\<rparr>, v'))
      else if name = ''rk'' then
        bind_result (read_bool v) (\<lambda>(_, v'). Inr (req\<lparr>ga_rk_option_present := True\<rparr>, v'))
      else skip_member req v)"

definition ga_parse_options :: "GetAssertionFields \<Rightarrow> cursor \<Rightarrow> (GetAssertionFields \<times> cursor) result" where
  "ga_parse_options req v =
     bind_result (read_map (read_member MAX_ENTITY_TEXT_LENGTH ''option'' ga_option_member) (req, {}) v)
       (\<lambda>((req', _), v'). Inr (req', v'))"

definition ga_parse_pin_auth :: "GetAssertionFields \<Rightarrow> cursor \<Rightarrow> (GetAssertionFields \<times> cursor) result" where
  "ga_parse_pin_auth req v =
     bind_result (read_bytes v MAX_PIN_AUTH_LENGTH) (\<lambda>(_, v'). Inr (req\<lparr>ga_pin_auth_present := True\<rparr>, v'))"

definition ga_parse_pin_protocol :: "GetAssertionFields \<Rightarrow> cursor \<Rightarrow> (GetAssertionFields \<times> cursor) result" where
  "ga_parse_pin_protocol req v =
     bind_result (read_uint v) (\<lambda>(_, v'). Inr (req\<lparr>ga_pin_protocol_present := True\<rparr>, v'))"

definition ga_dispatch :: "u64 \<Rightarrow> GetAssertionFields \<Rightarrow> cursor \<Rightarrow> (GetAssertionFields \<times> cursor) result" where
  "ga_dispatch key =
     (if key = 1 then ga_parse_rp_id
      else if key = 2 then ga_parse_client_data_hash
      else if key = 3 then ga_parse_allow_list
      else if key = 4 then ga_parse_extensions
      else if key = 5 then ga_parse_options
      else if key = 6 then ga_parse_pin_auth
      else if key = 7 then ga_parse_pin_protocol
      else skip_member)"

definition ga_parse_body :: "(bytes \<Rightarrow> cursor tiny) \<Rightarrow> bytes \<Rightarrow> GetAssertionFields result" where
  "ga_parse_body tinycbor payload =
     bind_result (check (tinycbor payload) ''initialize GetAssertion parser'') (\<lambda>root.
     bind_result (read_map (read_parameter_entry ''duplicate GetAssertion parameter'' ga_dispatch)
         (clear_get_assertion, {}) root) (\<lambda>((req, seen), root').
       if \<not> {1, 2} \<subseteq> seen then
         Inl (CborParseError ''missing required GetAssertion parameter'')
       else bind_result (require_complete root' ''GetAssertion request'') (\<lambda>_. Inr req)))"

definition get_assertion_parseRequest ::
    "(bytes \<Rightarrow> cursor tiny) \<Rightarrow> bytes \<Rightarrow> bool result \<times> GetAssertionFields" where
  "get_assertion_parseRequest tinycbor payload =
     (case ga_parse_body tinycbor payload of
        Inr req \<Rightarrow> (Inr True, req)
      | Inl (CborParseError _) \<Rightarrow> (Inr False, clear_get_assertion)
      | Inl e \<Rightarrow> (Inl e, clear_get_assertion))"

section \<open>Parsing terminates\<close>

lemma require_unique_Inl: "require_unique seen key context = Inl e \<Longrightarrow> \<exists>m. e = CborParseError m"
  by (auto simp: require_unique_def split: if_splits)

lemma reader_member [readers]:
  assumes "\<And>key acc. reader (body key acc)"
  shows "reader (read_member n context body st)"
  unfolding read_member_def
  by (intro reader_bind reader_primitives weak_reader_const require_unique_Inl reader_weak assms weak_reader_simps)

lemma reader_descriptor [readers]: "reader read_credential_descriptor"
  unfolding read_credential_descriptor_def descriptor_member_def [abs_def] read_transport_def [abs_def]
  by (intro readers reader_weak)

lemma reader_elements [readers]:
  "reader (read_descriptor_element ds)" "reader (read_transport ts)" "reader read_client_data_hash"
  unfolding read_descriptor_element_def read_transport_def read_client_data_hash_def
  by (intro readers reader_weak)+

lemma reader_parameter [readers]: "reader (read_parameter ps)"
  unfolding read_parameter_def parameter_member_def [abs_def] by (intro readers reader_weak)

lemma reader_entity_members [readers]:
  "reader (rp_member key rp)" "reader (user_member key user)"
  "reader (mc_option_member key mc)" "reader (ga_option_member key ga)"
  unfolding rp_member_def user_member_def mc_option_member_def ga_option_member_def
  by (intro readers reader_weak)+

lemma reader_extensions:
  "reader (\<lambda>v. bind_result (read_extensions v) (\<lambda>v'. Inr (req, v')))"
proof -
  have "bind_result (read_extensions v) (\<lambda>v'. Inr (req, v')) =
    bind_result (read_map (read_member MAX_EXTENSION_NAME_LENGTH ''extension'' (\<lambda>_. skip_member)) ((), {}) v)
      (\<lambda>(x, v'). Inr (req, v'))" for v
    by (auto simp: read_extensions_def bind_result_def split: sum.splits prod.splits)
  then show ?thesis by (simp only:) (intro readers reader_weak)
qed

lemma reader_dispatch [readers]: "reader (mc_dispatch key mc)" "reader (ga_dispatch key ga)"
proof -
  note defs = mc_parse_client_data_hash_def mc_parse_rp_def mc_parse_user_def mc_parse_pubkey_params_def
    mc_parse_exclude_list_def mc_parse_extensions_def mc_parse_options_def mc_parse_pin_auth_def
    mc_parse_pin_protocol_def ga_parse_rp_id_def ga_parse_client_data_hash_def ga_parse_allow_list_def
    ga_parse_extensions_def ga_parse_options_def ga_parse_pin_auth_def ga_parse_pin_protocol_def
  have "reader (mc_parse_client_data_hash mc)" "reader (mc_parse_rp mc)" "reader (mc_parse_user mc)"
    "reader (mc_parse_pubkey_params mc)" "reader (mc_parse_exclude_list mc)" "reader (mc_parse_extensions mc)"
    "reader (mc_parse_options mc)" "reader (mc_parse_pin_auth mc)" "reader (mc_parse_pin_protocol mc)"
    unfolding defs by (intro readers reader_weak reader_extensions)+
  then show "reader (mc_dispatch key mc)" by (simp add: mc_dispatch_def reader_skip)
  have "reader (ga_parse_rp_id ga)" "reader (ga_parse_client_data_hash ga)" "reader (ga_parse_allow_list ga)"
    "reader (ga_parse_extensions ga)" "reader (ga_parse_options ga)" "reader (ga_parse_pin_auth ga)"
    "reader (ga_parse_pin_protocol ga)"
    unfolding defs by (intro readers reader_weak reader_extensions)+
  then show "reader (ga_dispatch key ga)" by (simp add: ga_dispatch_def reader_skip)
qed

lemma reader_entry [readers]:
  assumes "\<And>key acc. reader (dispatch key acc)"
  shows "reader (read_parameter_entry duplicate dispatch st)"
  unfolding read_parameter_entry_def by (intro readers reader_weak assms)

lemma parse_body_error:
  "mc_parse_body tinycbor payload = Inl e \<Longrightarrow> \<exists>m. e = CborParseError m"
  "ga_parse_body tinycbor payload = Inl e \<Longrightarrow> \<exists>m. e = CborParseError m"
proof -
  have mc: "reader (read_map (read_parameter_entry d mc_dispatch) st)" for d st by (intro readers)
  have ga: "reader (read_map (read_parameter_entry d ga_dispatch) st)" for d st by (intro readers)
  show "mc_parse_body tinycbor payload = Inl e \<Longrightarrow> \<exists>m. e = CborParseError m"
    by (auto simp: mc_parse_body_def bind_result_eq_Inl require_complete_def
        dest: check_Inl readerD(1) [OF mc] split: if_splits)
  show "ga_parse_body tinycbor payload = Inl e \<Longrightarrow> \<exists>m. e = CborParseError m"
    by (auto simp: ga_parse_body_def bind_result_eq_Inl require_complete_def
        dest: check_Inl readerD(1) [OF ga] split: if_splits)
qed

section \<open>Well-formed requests\<close>

lemma yields_member:
  assumes "\<And>key. key \<notin> snd st \<Longrightarrow> yields (body key (fst st)) (\<lambda>acc. P (acc, insert key (snd st)))"
  shows "yields (read_member n context body st) P"
  unfolding read_member_def
  by (intro yields_bind [OF yields_primitives(1)] yields_const)
    (auto simp: require_unique_def split: if_splits intro!: yields_bind [OF assms] yields_return)

definition descriptor_ok :: "PublicKeyCredentialDescriptor \<Rightarrow> bool" where
  "descriptor_ok d \<longleftrightarrow> desc_type d \<noteq> [] \<and> length (desc_type d) \<le> MAX_ENTITY_TEXT_LENGTH \<and>
     desc_id d \<noteq> [] \<and> length (desc_id d) \<le> MAX_CREDENTIAL_ID_LENGTH \<and>
     list_all (\<lambda>t. length t \<le> MAX_TRANSPORT_NAME_LENGTH) (desc_transports d)"

definition get_assertion_ok :: "GetAssertionFields \<Rightarrow> bool" where
  "get_assertion_ok req \<longleftrightarrow>
     ga_rpId req \<noteq> [] \<and> length (ga_rpId req) \<le> MAX_RP_ID_LENGTH \<and>
     length (ga_clientDataHash req) = CLIENT_DATA_HASH_LENGTH \<and>
     list_all descriptor_ok (ga_allowList req) \<and> dom (ga_options req) = {''up'', ''uv''}"

definition make_credential_ok :: "CTAPMakeCredentialRequest \<Rightarrow> bool" where
  "make_credential_ok req \<longleftrightarrow>
     rp_id (mc_rp req) \<noteq> [] \<and> length (rp_id (mc_rp req)) \<le> MAX_RP_ID_LENGTH \<and>
     length (rp_name (mc_rp req)) \<le> MAX_ENTITY_TEXT_LENGTH \<and>
     length (ue_id (mc_user req)) \<le> MAX_USER_ID_LENGTH \<and>
     length (ue_name (mc_user req)) \<le> MAX_ENTITY_TEXT_LENGTH \<and>
     length (ue_displayName (mc_user req)) \<le> MAX_ENTITY_TEXT_LENGTH \<and>
     length (mc_clientDataHash req) = CLIENT_DATA_HASH_LENGTH \<and>
     list_all (\<lambda>p. -(2 ^ 31) \<le> pk_alg p \<and> pk_alg p < 2 ^ 31) (mc_publicKeyCredParams req) \<and>
     list_all descriptor_ok (mc_excludeList req) \<and> dom (mc_options req) = {''rk'', ''uv''}"

lemma yields_weaken: "yields f P \<Longrightarrow> (\<And>x. P x \<Longrightarrow> Q x) \<Longrightarrow> yields f Q"
  by (auto simp: yields_def)

lemmas yields_text = yields_primitives(1)
lemmas yields_bytes = yields_primitives(2)

lemma yields_transport:
  assumes "list_all (\<lambda>t. length t \<le> MAX_TRANSPORT_NAME_LENGTH) ts"
  shows "yields (read_transport ts) (list_all (\<lambda>t. length t \<le> MAX_TRANSPORT_NAME_LENGTH))"
  unfolding read_transport_def by (rule yields_bind [OF yields_text]) (use assms in \<open>simp add: yields_return\<close>)

lemma yields_descriptor_member:
  assumes "length (desc_type d) \<le> MAX_ENTITY_TEXT_LENGTH" "length (desc_id d) \<le> MAX_CREDENTIAL_ID_LENGTH"
    "list_all (\<lambda>t. length t \<le> MAX_TRANSPORT_NAME_LENGTH) (desc_transports d)"
  shows "yields (descriptor_member key d) (\<lambda>d. length (desc_type d) \<le> MAX_ENTITY_TEXT_LENGTH \<and>
    length (desc_id d) \<le> MAX_CREDENTIAL_ID_LENGTH \<and>
    list_all (\<lambda>t. length t \<le> MAX_TRANSPORT_NAME_LENGTH) (desc_transports d))" (is "yields _ ?P")
proof -
  have a: "yields (\<lambda>v. bind_result (read_text v MAX_ENTITY_TEXT_LENGTH) (\<lambda>(t, v'). Inr (d\<lparr>desc_type := t\<rparr>, v'))) ?P"
    by (rule yields_bind [OF yields_text], rule yields_return) (use assms in simp)
  have b: "yields (\<lambda>v. bind_result (read_bytes v MAX_CREDENTIAL_ID_LENGTH) (\<lambda>(t, v'). Inr (d\<lparr>desc_id := t\<rparr>, v'))) ?P"
    by (rule yields_bind [OF yields_bytes], rule yields_return) (use assms in simp)
  have c: "yields (\<lambda>v. bind_result (read_array read_transport (desc_transports d) v)
      (\<lambda>(ts, v'). Inr (d\<lparr>desc_transports := ts\<rparr>, v'))) ?P"
    by (rule yields_bind [OF yields_containers(2) [OF yields_transport assms(3)]], assumption, rule yields_return)
      (use assms in simp)
  have e: "yields (skip_member d) ?P" by (rule yields_skip) (use assms in simp)
  show ?thesis unfolding descriptor_member_def by (intro yields_if a b c e)
qed

lemma yields_descriptor: "yields read_credential_descriptor descriptor_ok"
proof -
  let ?P = "\<lambda>(d, seen :: string set). length (desc_type d) \<le> MAX_ENTITY_TEXT_LENGTH \<and>
    length (desc_id d) \<le> MAX_CREDENTIAL_ID_LENGTH \<and>
    list_all (\<lambda>t. length t \<le> MAX_TRANSPORT_NAME_LENGTH) (desc_transports d)"
  have "yields (read_map (read_member MAX_ENTITY_TEXT_LENGTH ''credential descriptor'' descriptor_member)
      (\<lparr>desc_type = [], desc_id = [], desc_transports = []\<rparr>, {})) ?P"
    by (rule yields_containers, rule yields_member) (auto intro: yields_descriptor_member)
  then show ?thesis
    unfolding read_credential_descriptor_def
    by (rule yields_bind) (auto simp: descriptor_ok_def intro!: yields_if yields_return yields_fail)
qed

lemma yields_descriptors:
  assumes "list_all descriptor_ok ds"
  shows "yields (read_array read_descriptor_element ds) (list_all descriptor_ok)"
proof (rule yields_containers(2) [where P = "list_all descriptor_ok", OF _ assms])
  fix ds assume "list_all descriptor_ok ds"
  then show "yields (read_descriptor_element ds) (list_all descriptor_ok)"
    unfolding read_descriptor_element_def by (intro yields_bind [OF yields_descriptor] yields_return) simp
qed

lemma yields_hash: "yields read_client_data_hash (\<lambda>h. length h = CLIENT_DATA_HASH_LENGTH)"
  unfolding read_client_data_hash_def
  by (rule yields_bind [OF yields_bytes]) (intro yields_if yields_return yields_fail, simp)

lemma yields_extensions: "P req \<Longrightarrow> yields (\<lambda>v. bind_result (read_extensions v) (\<lambda>v'. Inr (req, v'))) P"
proof -
  assume P: "P req"
  have "bind_result (read_extensions v) (\<lambda>v'. Inr (req, v')) =
    bind_result (read_map (read_member MAX_EXTENSION_NAME_LENGTH ''extension'' (\<lambda>_. skip_member)) ((), {}) v)
      (\<lambda>(x, v'). Inr (req, v'))" for v
    by (auto simp: read_extensions_def bind_result_def split: sum.splits prod.splits)
  moreover have "yields (read_map (read_member MAX_EXTENSION_NAME_LENGTH ''extension'' (\<lambda>_. skip_member)) ((), {})) (\<lambda>_. True)"
    by (rule yields_containers) (auto intro!: yields_member yields_skip)
  ultimately show ?thesis using yields_bind [OF _ yields_return [of P req]] P by simp
qed

lemma yields_entry:
  assumes "\<And>key. key \<notin> snd st \<Longrightarrow> yields (dispatch key (fst st)) (\<lambda>acc. P (acc, insert key (snd st)))"
  shows "yields (read_parameter_entry duplicate dispatch st) P"
  unfolding read_parameter_entry_def
  by (rule yields_bind [OF yields_primitives(3)])
    (intro yields_if yields_fail yields_bind [OF assms] yields_return; simp)

subsection \<open>GetAssertion\<close>

definition ga_partial :: "GetAssertionFields \<times> u64 set \<Rightarrow> bool" where
  "ga_partial st \<longleftrightarrow> (case st of (req, seen) \<Rightarrow>
     (1 \<in> seen \<longrightarrow> ga_rpId req \<noteq> [] \<and> length (ga_rpId req) \<le> MAX_RP_ID_LENGTH) \<and>
     (2 \<in> seen \<longrightarrow> length (ga_clientDataHash req) = CLIENT_DATA_HASH_LENGTH) \<and>
     list_all descriptor_ok (ga_allowList req) \<and> dom (ga_options req) = {''up'', ''uv''})"

lemma yields_ga_options:
  assumes "ga_partial (req, seen)"
  shows "yields (ga_option_member name req) (\<lambda>req. ga_partial (req, seen))"
  unfolding ga_option_member_def
  by (intro yields_if yields_bind [OF yields_primitives(5)] yields_return yields_skip)
    (use assms in \<open>auto simp: ga_partial_def\<close>)

lemma yields_ga_dispatch:
  assumes "ga_partial (req, seen)"
  shows "yields (ga_dispatch key req) (\<lambda>req. ga_partial (req, insert key seen))"
proof -
  have 1: "yields (ga_parse_rp_id req) (\<lambda>req. ga_partial (req, insert 1 seen))"
    unfolding ga_parse_rp_id_def
    by (intro yields_bind [OF yields_text] yields_if yields_fail yields_return)
      (use assms in \<open>simp add: ga_partial_def\<close>)
  have 2: "yields (ga_parse_client_data_hash req) (\<lambda>req. ga_partial (req, insert 2 seen))"
    unfolding ga_parse_client_data_hash_def
    by (intro yields_bind [OF yields_hash] yields_return) (use assms in \<open>simp add: ga_partial_def\<close>)
  have 3: "yields (ga_parse_allow_list req) (\<lambda>req. ga_partial (req, insert 3 seen))"
    unfolding ga_parse_allow_list_def
    by (intro yields_bind [OF yields_descriptors] yields_return) (use assms in \<open>simp_all add: ga_partial_def\<close>)
  have 4: "yields (ga_parse_extensions req) (\<lambda>req. ga_partial (req, insert 4 seen))"
    unfolding ga_parse_extensions_def
    by (intro yields_extensions) (use assms in \<open>simp add: ga_partial_def\<close>)
  have 5: "yields (ga_parse_options req) (\<lambda>req. ga_partial (req, insert 5 seen))"
    unfolding ga_parse_options_def
  proof (rule yields_bind [where P = "\<lambda>(req, _ :: string set). ga_partial (req, seen)"])
    show "yields (read_map (read_member MAX_ENTITY_TEXT_LENGTH ''option'' ga_option_member) (req, {}))
        (\<lambda>(req, _). ga_partial (req, seen))"
      by (rule yields_containers, rule yields_member) (use assms in \<open>auto intro: yields_ga_options\<close>)
  qed (auto intro!: yields_return simp: ga_partial_def)
  have 6: "yields (ga_parse_pin_auth req) (\<lambda>req. ga_partial (req, insert 6 seen))"
    unfolding ga_parse_pin_auth_def
    by (intro yields_bind [OF yields_bytes] yields_return) (use assms in \<open>simp add: ga_partial_def\<close>)
  have 7: "yields (ga_parse_pin_protocol req) (\<lambda>req. ga_partial (req, insert 7 seen))"
    unfolding ga_parse_pin_protocol_def
    by (intro yields_bind [OF yields_primitives(3)] yields_return) (use assms in \<open>simp add: ga_partial_def\<close>)
  have 8: "yields (skip_member req) (\<lambda>req. ga_partial (req, insert key seen))" if "key \<noteq> 1" "key \<noteq> 2"
    by (rule yields_skip) (use assms that in \<open>simp add: ga_partial_def\<close>)
  show ?thesis unfolding ga_dispatch_def using 1 2 3 4 5 6 7 8 by simp
qed

lemma get_assertion_parse_ok:
  assumes "\<And>root. tinycbor payload = Inr root \<Longrightarrow> copies_ok root" "ga_parse_body tinycbor payload = Inr req"
  shows "get_assertion_ok req"
proof -
  from assms obtain root seen root' where root: "copies_ok root"
    and map: "read_map (read_parameter_entry ''duplicate GetAssertion parameter'' ga_dispatch)
         (clear_get_assertion, {}) root = Inr ((req, seen), root')" and seen: "{1, 2} \<subseteq> seen"
    by (auto simp: ga_parse_body_def bind_result_eq_Inr split: if_splits)
  have "ga_partial (clear_get_assertion, {})"
    by (auto simp: ga_partial_def clear_get_assertion_def)
  then have "yields (read_map (read_parameter_entry ''duplicate GetAssertion parameter'' ga_dispatch)
         (clear_get_assertion, {})) ga_partial"
    by (intro yields_containers yields_entry yields_ga_dispatch) auto
  from yieldsD [OF this root map] have "ga_partial (req, seen)" by simp
  with seen show ?thesis by (simp add: ga_partial_def get_assertion_ok_def)
qed

subsection \<open>MakeCredential\<close>

definition rp_lengths :: "RelyingParty \<Rightarrow> bool" where
  "rp_lengths rp \<longleftrightarrow> length (rp_id rp) \<le> MAX_RP_ID_LENGTH \<and> length (rp_name rp) \<le> MAX_ENTITY_TEXT_LENGTH"

definition user_lengths :: "UserEntity \<Rightarrow> bool" where
  "user_lengths user \<longleftrightarrow> length (ue_id user) \<le> MAX_USER_ID_LENGTH \<and>
     length (ue_name user) \<le> MAX_ENTITY_TEXT_LENGTH \<and> length (ue_displayName user) \<le> MAX_ENTITY_TEXT_LENGTH"

definition alg_in_range :: "PubKeyCredParam \<Rightarrow> bool" where
  "alg_in_range p \<longleftrightarrow> -(2 ^ 31) \<le> pk_alg p \<and> pk_alg p < 2 ^ 31"

definition mc_partial :: "CTAPMakeCredentialRequest \<times> u64 set \<Rightarrow> bool" where
  "mc_partial st \<longleftrightarrow> (case st of (req, seen) \<Rightarrow>
     (1 \<in> seen \<longrightarrow> length (mc_clientDataHash req) = CLIENT_DATA_HASH_LENGTH) \<and>
     (2 \<in> seen \<longrightarrow> rp_id (mc_rp req) \<noteq> []) \<and> rp_lengths (mc_rp req) \<and> user_lengths (mc_user req) \<and>
     list_all alg_in_range (mc_publicKeyCredParams req) \<and>
     list_all descriptor_ok (mc_excludeList req) \<and> dom (mc_options req) = {''rk'', ''uv''})"

lemma yields_rp_member: "rp_lengths rp \<Longrightarrow> yields (rp_member key rp) rp_lengths"
  unfolding rp_member_def
  by (intro yields_if yields_bind [OF yields_text] yields_return yields_skip) (simp_all add: rp_lengths_def)

lemma yields_user_member: "user_lengths user \<Longrightarrow> yields (user_member key user) user_lengths"
  unfolding user_member_def
  by (intro yields_if yields_bind [OF yields_text] yields_bind [OF yields_bytes] yields_return yields_skip)
    (simp_all add: user_lengths_def)

lemma yields_parameter_member: "alg_in_range p \<Longrightarrow> yields (parameter_member key p) alg_in_range"
  unfolding parameter_member_def
  by (intro yields_if yields_bind [OF yields_text] yields_bind [OF yields_primitives(4)] yields_fail yields_return
      yields_skip) (simp_all add: alg_in_range_def)

lemma yields_parameter:
  assumes "list_all alg_in_range ps"
  shows "yields (read_parameter ps) (list_all alg_in_range)"
  unfolding read_parameter_def
proof (rule yields_bind [where P = "\<lambda>(p, _ :: string set). alg_in_range p"])
  show "yields (read_map (read_member MAX_ENTITY_TEXT_LENGTH ''public-key parameter'' parameter_member)
      (\<lparr>pk_type = [], pk_alg = 0\<rparr>, {})) (\<lambda>(p, _). alg_in_range p)"
    by (rule yields_containers, rule yields_member)
      (auto intro: yields_parameter_member simp: alg_in_range_def [of "\<lparr>pk_type = [], pk_alg = 0\<rparr>"])
qed (use assms in \<open>auto intro!: yields_if yields_fail yields_return\<close>)

lemma yields_mc_options:
  assumes "mc_partial (req, seen)"
  shows "yields (mc_option_member name req) (\<lambda>req. mc_partial (req, seen))"
  unfolding mc_option_member_def
  by (intro yields_if yields_bind [OF yields_primitives(5)] yields_return yields_skip)
    (use assms in \<open>auto simp: mc_partial_def\<close>)

lemma yields_mc_rp:
  assumes "mc_partial (req, seen)"
  shows "yields (mc_parse_rp req) (\<lambda>req. mc_partial (req, insert 2 seen))"
  unfolding mc_parse_rp_def
proof (rule yields_bind [where P = "\<lambda>(rp, _ :: string set). rp_lengths rp"])
  have start: "rp_lengths (mc_rp req)" using assms by (simp add: mc_partial_def)
  show "yields (read_map (read_member MAX_ENTITY_TEXT_LENGTH ''relying-party entity'' rp_member) (mc_rp req, {}))
      (\<lambda>(rp, _). rp_lengths rp)"
    by (rule yields_containers, rule yields_member) (use start in \<open>auto intro: yields_rp_member\<close>)
next
  fix x :: "RelyingParty \<times> string set"
  assume "case x of (entity, _) \<Rightarrow> rp_lengths entity"
  then obtain entity members where x: "x = (entity, members)" "rp_lengths entity" by (cases x) simp
  have "yields (\<lambda>v'. if ''id'' \<notin> members \<or> rp_id entity = [] then Inl (CborParseError ''relying-party entity is missing a non-empty id'')
      else Inr (req\<lparr>mc_rp := entity\<rparr>, v')) (\<lambda>req. mc_partial (req, insert 2 seen))"
    by (intro yields_if yields_fail yields_return) (use assms x in \<open>simp add: mc_partial_def\<close>)
  with x show "yields (case x of (entity, members) \<Rightarrow> \<lambda>v'. if ''id'' \<notin> members \<or> rp_id entity = [] then Inl (CborParseError ''relying-party entity is missing a non-empty id'')
      else Inr (req\<lparr>mc_rp := entity\<rparr>, v')) (\<lambda>req. mc_partial (req, insert 2 seen))" by simp
qed

lemma yields_mc_user:
  assumes "mc_partial (req, seen)"
  shows "yields (mc_parse_user req) (\<lambda>req. mc_partial (req, insert 3 seen))"
  unfolding mc_parse_user_def
proof (rule yields_bind [where P = "\<lambda>(user, _ :: string set). user_lengths user"])
  have start: "user_lengths (mc_user req)" using assms by (simp add: mc_partial_def)
  show "yields (read_map (read_member MAX_ENTITY_TEXT_LENGTH ''user entity'' user_member) (mc_user req, {}))
      (\<lambda>(user, _). user_lengths user)"
    by (rule yields_containers, rule yields_member) (use start in \<open>auto intro: yields_user_member\<close>)
next
  fix x :: "UserEntity \<times> string set"
  assume "case x of (entity, _) \<Rightarrow> user_lengths entity"
  then obtain entity members where x: "x = (entity, members)" "user_lengths entity" by (cases x) simp
  have "yields (\<lambda>v'. if ''id'' \<notin> members then Inl (CborParseError ''user entity is missing id'')
      else Inr (req\<lparr>mc_user := entity\<rparr>, v')) (\<lambda>req. mc_partial (req, insert 3 seen))"
    by (intro yields_if yields_fail yields_return) (use assms x in \<open>simp add: mc_partial_def\<close>)
  with x show "yields (case x of (entity, members) \<Rightarrow> \<lambda>v'. if ''id'' \<notin> members then Inl (CborParseError ''user entity is missing id'')
      else Inr (req\<lparr>mc_user := entity\<rparr>, v')) (\<lambda>req. mc_partial (req, insert 3 seen))" by simp
qed

lemma yields_mc_dispatch:
  assumes "mc_partial (req, seen)"
  shows "yields (mc_dispatch key req) (\<lambda>req. mc_partial (req, insert key seen))"
proof -
  have 1: "yields (mc_parse_client_data_hash req) (\<lambda>req. mc_partial (req, insert 1 seen))"
    unfolding mc_parse_client_data_hash_def
    by (intro yields_bind [OF yields_hash] yields_return) (use assms in \<open>simp add: mc_partial_def\<close>)
  have 4: "yields (mc_parse_pubkey_params req) (\<lambda>req. mc_partial (req, insert 4 seen))"
    unfolding mc_parse_pubkey_params_def
    by (intro yields_bind [OF yields_containers(2) [where P = "list_all alg_in_range"]] yields_parameter yields_return)
      (use assms in \<open>simp_all add: mc_partial_def\<close>)
  have 5: "yields (mc_parse_exclude_list req) (\<lambda>req. mc_partial (req, insert 5 seen))"
    unfolding mc_parse_exclude_list_def
    by (intro yields_bind [OF yields_descriptors] yields_return) (use assms in \<open>simp_all add: mc_partial_def\<close>)
  have 6: "yields (mc_parse_extensions req) (\<lambda>req. mc_partial (req, insert 6 seen))"
    unfolding mc_parse_extensions_def
    by (intro yields_extensions) (use assms in \<open>simp add: mc_partial_def\<close>)
  have 7: "yields (mc_parse_options req) (\<lambda>req. mc_partial (req, insert 7 seen))"
    unfolding mc_parse_options_def
  proof (rule yields_bind [where P = "\<lambda>(req, _ :: string set). mc_partial (req, seen)"])
    show "yields (read_map (read_member MAX_ENTITY_TEXT_LENGTH ''option'' mc_option_member) (req, {}))
        (\<lambda>(req, _). mc_partial (req, seen))"
      by (rule yields_containers, rule yields_member) (use assms in \<open>auto intro: yields_mc_options\<close>)
  qed (auto intro!: yields_return simp: mc_partial_def)
  have 8: "yields (mc_parse_pin_auth req) (\<lambda>req. mc_partial (req, insert 8 seen))"
    unfolding mc_parse_pin_auth_def
    by (intro yields_bind [OF yields_bytes] yields_return) (use assms in \<open>simp add: mc_partial_def\<close>)
  have 9: "yields (mc_parse_pin_protocol req) (\<lambda>req. mc_partial (req, insert 9 seen))"
    unfolding mc_parse_pin_protocol_def
    by (intro yields_bind [OF yields_primitives(3)] yields_return) (use assms in \<open>simp add: mc_partial_def\<close>)
  have 10: "yields (skip_member req) (\<lambda>req. mc_partial (req, insert key seen))" if "key \<noteq> 1" "key \<noteq> 2"
    by (rule yields_skip) (use assms that in \<open>simp add: mc_partial_def\<close>)
  show ?thesis
    unfolding mc_dispatch_def using 1 yields_mc_rp [OF assms] yields_mc_user [OF assms] 4 5 6 7 8 9 10 by simp
qed

lemma make_credential_parse_ok:
  assumes "\<And>root. tinycbor payload = Inr root \<Longrightarrow> copies_ok root" "mc_parse_body tinycbor payload = Inr req"
  shows "make_credential_ok req"
proof -
  from assms obtain root seen root' where root: "copies_ok root"
    and map: "read_map (read_parameter_entry ''duplicate MakeCredential parameter'' mc_dispatch)
         (clear_make_credential, {}) root = Inr ((req, seen), root')" and seen: "{1, 2, 3, 4} \<subseteq> seen"
    by (auto simp: mc_parse_body_def bind_result_eq_Inr split: if_splits)
  have "mc_partial (clear_make_credential, {})"
    by (auto simp: mc_partial_def clear_make_credential_def rp_lengths_def user_lengths_def)
  then have "yields (read_map (read_parameter_entry ''duplicate MakeCredential parameter'' mc_dispatch)
         (clear_make_credential, {})) mc_partial"
    by (intro yields_containers yields_entry yields_mc_dispatch) auto
  from yieldsD [OF this root map] have "mc_partial (req, seen)" by simp
  with seen show ?thesis
    by (simp add: mc_partial_def make_credential_ok_def rp_lengths_def user_lengths_def alg_in_range_def [abs_def])
qed

section \<open>Properties\<close>

text \<open>
  C16.  Parsing a request always comes to an end and never throws: for every payload and whatever the
  CBOR library reports about it, \<open>parseRequest\<close> answers true or false, and when it answers false the
  request object is in its cleared state.
\<close>

theorem parseRequest_total:
  "(\<exists>b. fst (make_credential_parseRequest tinycbor payload) = Inr b \<and>
      (b \<or> snd (make_credential_parseRequest tinycbor payload) = clear_make_credential)) \<and>
   (\<exists>b. fst (get_assertion_parseRequest tinycbor payload) = Inr b \<and>
      (b \<or> snd (get_assertion_parseRequest tinycbor payload) = clear_get_assertion))"
proof
  show "\<exists>b. fst (make_credential_parseRequest tinycbor payload) = Inr b \<and>
      (b \<or> snd (make_credential_parseRequest tinycbor payload) = clear_make_credential)"
    using parse_body_error(1) [of tinycbor payload]
    by (cases "mc_parse_body tinycbor payload") (auto simp: make_credential_parseRequest_def)
  show "\<exists>b. fst (get_assertion_parseRequest tinycbor payload) = Inr b \<and>
      (b \<or> snd (get_assertion_parseRequest tinycbor payload) = clear_get_assertion)"
    using parse_body_error(2) [of tinycbor payload]
    by (cases "ga_parse_body tinycbor payload") (auto simp: get_assertion_parseRequest_def)
qed


text \<open>A GetAssertion request with relying party \<open>rp\<close> and a client data hash of zero bytes.\<close>

definition sample_cursor :: cursor where
  "sample_cursor = At (Map (Inr
     (At (UInt 1) (Inr (At (Text (Inr 2) (Inr ''rp''))
       (Inr (At (UInt 2) (Inr (At (Bytes (Inr 32) (Inr (replicate 32 0))) (Inr AtEnd)))))))))) (Inr AtEnd)"

lemma sample_request_parsed:
  "get_assertion_parseRequest (\<lambda>_. Inr sample_cursor) payload =
     (Inr True, clear_get_assertion\<lparr>ga_rpId := ''rp'', ga_clientDataHash := replicate 32 0\<rparr>)"
proof -
  have "ga_parse_body (\<lambda>_. Inr sample_cursor) payload =
     Inr (clear_get_assertion\<lparr>ga_rpId := ''rp'', ga_clientDataHash := replicate 32 0\<rparr>)"
    by (simp add: ga_parse_body_def sample_cursor_def check_def read_map_def read_loop.simps
        read_parameter_entry_def read_uint_def ga_dispatch_def ga_parse_rp_id_def read_text_def
        ga_parse_client_data_hash_def read_client_data_hash_def read_bytes_def request_limits require_complete_def)
  then show ?thesis by (simp add: get_assertion_parseRequest_def)
qed


end
