(* ===== verification/User_Context.thy ===== *)
theory User_Context
  imports Prelude
begin

text \<open>
  Identities and vocabulary of user interaction (\<open>uv/src/user_context.hpp\<close>,
  \<open>uv/src/user_interaction.hpp\<close>) and the registry of the one local agent that shows prompts
  (\<open>dbus/agent_registry.cpp\<close>).
\<close>

section \<open>Contexts\<close>

record UserSessionContext =
  us_sessionId :: string
  us_interactionAgentId :: string
  us_generation :: u64

record UserContextBinding =
  ub_uid :: u32
  ub_session :: "UserSessionContext option"

record UserContext =
  uc_uid :: u32
  uc_name :: string
  uc_session :: "UserSessionContext option"

definition context_binding :: "UserContext \<Rightarrow> UserContextBinding" where
  "context_binding user = \<lparr>ub_uid = uc_uid user, ub_session = uc_session user\<rparr>"

section \<open>Operations and states of an interaction\<close>

datatype UserInteractionOperation = make_credential | get_assertion | check_excluded_credential

record UserInteractionRequest =
  uir_operation :: UserInteractionOperation
  uir_relyingPartyId :: string
  uir_requestId :: u64

datatype UserInteractionResult = approved | denied | cancelled

datatype UserInteractionState =
    presence_required | presence_approved | presence_denied
  | verification_started | verification_information | verification_error | secret_required
  | verification_succeeded | verification_failed | interaction_cancelled | timed_out

primrec user_interaction_operation_name :: "UserInteractionOperation \<Rightarrow> string" where
  "user_interaction_operation_name make_credential = ''make_credential''"
| "user_interaction_operation_name get_assertion = ''get_assertion''"
| "user_interaction_operation_name check_excluded_credential = ''check_excluded_credential''"

primrec user_interaction_state_name :: "UserInteractionState \<Rightarrow> string" where
  "user_interaction_state_name presence_required = ''presence_required''"
| "user_interaction_state_name presence_approved = ''presence_approved''"
| "user_interaction_state_name presence_denied = ''presence_denied''"
| "user_interaction_state_name verification_started = ''verification_started''"
| "user_interaction_state_name verification_information = ''verification_information''"
| "user_interaction_state_name verification_error = ''verification_error''"
| "user_interaction_state_name secret_required = ''secret_required''"
| "user_interaction_state_name verification_succeeded = ''verification_succeeded''"
| "user_interaction_state_name verification_failed = ''verification_failed''"
| "user_interaction_state_name interaction_cancelled = ''cancelled''"
| "user_interaction_state_name timed_out = ''timed_out''"

section \<open>The agent registry\<close>

record AgentPeer =
  peer_uid :: u32
  peer_userName :: string
  peer_sessionId :: string
  peer_busName :: string

record AgentRegistry =
  agent_current :: "UserContext option"
  agent_nextGeneration :: u64

definition initial_agents :: AgentRegistry where
  "initial_agents = \<lparr>agent_current = None, agent_nextGeneration = 1\<rparr>"

definition same_peer :: "UserContext \<Rightarrow> AgentPeer \<Rightarrow> bool" where
  "same_peer user peer \<longleftrightarrow>
     uc_uid user = peer_uid peer \<and> uc_name user = peer_userName peer \<and>
     (case uc_session user of
        None \<Rightarrow> False
      | Some s \<Rightarrow> us_sessionId s = peer_sessionId peer \<and> us_interactionAgentId s = peer_busName peer)"

definition validate_peer :: "AgentPeer \<Rightarrow> unit result" where
  "validate_peer peer =
     (if peer_userName peer = [] \<or> peer_sessionId peer = [] \<or> peer_busName peer = [] \<or>
         hd (peer_busName peer) \<noteq> CHR '':''
      then Inl (InvalidArgument ''Invalid user-interaction agent identity'') else Inr ())"

definition register_agent :: "AgentPeer \<Rightarrow> AgentRegistry \<Rightarrow> UserContext result \<times> AgentRegistry" where
  "register_agent peer reg =
     (case validate_peer peer of
        Inl e \<Rightarrow> (Inl e, reg)
      | Inr _ \<Rightarrow>
          (case agent_current reg of
             Some current \<Rightarrow>
               if same_peer current peer then (Inr current, reg)
               else (Inl (RuntimeError ''Another user-interaction agent is already registered''), reg)
           | None \<Rightarrow>
               if agent_nextGeneration reg = 0 \<or> agent_nextGeneration reg = -1 then
                 (Inl (OverflowError ''User-interaction agent generation is exhausted''), reg)
               else
                 let user = \<lparr>uc_uid = peer_uid peer, uc_name = peer_userName peer,
                       uc_session = Some \<lparr>us_sessionId = peer_sessionId peer,
                         us_interactionAgentId = peer_busName peer,
                         us_generation = agent_nextGeneration reg\<rparr>\<rparr>
                 in (Inr user, \<lparr>agent_current = Some user,
                       agent_nextGeneration = agent_nextGeneration reg + 1\<rparr>)))"

definition unregister_agent :: "string \<Rightarrow> AgentRegistry \<Rightarrow> bool \<times> AgentRegistry" where
  "unregister_agent bus_name reg =
     (case agent_current reg of
        None \<Rightarrow> (False, reg)
      | Some user \<Rightarrow>
          (case uc_session user of
             None \<Rightarrow> (False, reg)
           | Some s \<Rightarrow>
               if us_interactionAgentId s \<noteq> bus_name then (False, reg)
               else (True, reg\<lparr>agent_current := None\<rparr>)))"

definition agent_current_context :: "AgentRegistry \<Rightarrow> UserContext option" where
  "agent_current_context reg = agent_current reg"

text \<open>\<open>wait_for_current\<close> returns the agent of the first registry state it sees with one, or the last
  state's when the timeout ends the wait.\<close>

fun wait_for_current :: "AgentRegistry list \<Rightarrow> AgentRegistry \<Rightarrow> UserContext option" where
  "wait_for_current [] reg = agent_current reg"
| "wait_for_current (later # states) reg =
     (if agent_current reg \<noteq> None then agent_current reg else wait_for_current states later)"

definition is_current :: "UserContext \<Rightarrow> AgentRegistry \<Rightarrow> bool" where
  "is_current user reg \<longleftrightarrow>
     (case agent_current reg of None \<Rightarrow> False | Some c \<Rightarrow> context_binding c = context_binding user)"

section \<open>Runs of the agent registry\<close>

datatype AgentEvent = Registered UserContext | Unregistered UserContext

text \<open>The history of a registry, most recent event first.\<close>

inductive agent_run :: "AgentEvent list \<Rightarrow> AgentRegistry \<Rightarrow> bool" where
  start: "agent_run [] initial_agents"
| registered: "agent_run es reg \<Longrightarrow> register_agent peer reg = (Inr user, reg') \<Longrightarrow>
     agent_run (Registered user # es) reg'"
| refused: "agent_run es reg \<Longrightarrow> register_agent peer reg = (Inl e, reg') \<Longrightarrow> agent_run es reg'"
| unregistered: "agent_run es reg \<Longrightarrow> unregister_agent bus_name reg = (True, reg') \<Longrightarrow>
     agent_current reg = Some user \<Longrightarrow> agent_run (Unregistered user # es) reg'"
| unknown: "agent_run es reg \<Longrightarrow> unregister_agent bus_name reg = (False, reg') \<Longrightarrow> agent_run es reg'"

section \<open>Lemmas\<close>

lemma u64_succ: "w \<noteq> -1 \<Longrightarrow> unat (w + 1 :: u64) = unat w + 1"
proof -
  assume "w \<noteq> -1"
  then have "1 + w \<noteq> 0" by (metis add_eq_0_iff minus_equation_iff)
  from unatSuc [OF this] show ?thesis by (simp add: add.commute)
qed

definition agent_generation :: "UserContext \<Rightarrow> nat" where
  "agent_generation user = (case uc_session user of None \<Rightarrow> 0 | Some s \<Rightarrow> unat (us_generation s))"

lemma register_agent_Inr:
  assumes "register_agent peer reg = (Inr user, reg')"
  obtains (again) "agent_current reg = Some user" "reg' = reg" "same_peer user peer"
  | (fresh) s where "agent_current reg = None" "agent_nextGeneration reg \<noteq> -1" "agent_nextGeneration reg \<noteq> 0"
      "uc_session user = Some s" "us_generation s = agent_nextGeneration reg"
      "reg' = \<lparr>agent_current = Some user, agent_nextGeneration = agent_nextGeneration reg + 1\<rparr>"
      "same_peer user peer"
proof (cases "validate_peer peer")
  case (Inl e)
  with assms show ?thesis by (simp add: register_agent_def)
next
  case (Inr u)
  show ?thesis
  proof (cases "agent_current reg")
    case None
    with Inr assms fresh [of "\<lparr>us_sessionId = peer_sessionId peer,
        us_interactionAgentId = peer_busName peer, us_generation = agent_nextGeneration reg\<rparr>"] show ?thesis
      by (auto simp: register_agent_def Let_def same_peer_def split: if_splits)
  next
    case (Some c)
    with Inr assms again show ?thesis
      by (simp add: register_agent_def split: if_splits)
  qed
qed

lemma register_agent_Inl: "register_agent peer reg = (Inl e, reg') \<Longrightarrow> reg' = reg"
  by (auto simp: register_agent_def Let_def split: sum.splits option.splits if_splits)

lemma agent_run_bounds:
  assumes "agent_run es reg"
  shows "(\<forall>user. Registered user \<in> set es \<longrightarrow> agent_generation user < unat (agent_nextGeneration reg)) \<and>
    (\<forall>user. agent_current reg = Some user \<longrightarrow> Registered user \<in> set es) \<and>
    (\<forall>user user'. Registered user \<in> set es \<and> Registered user' \<in> set es \<and>
       agent_generation user = agent_generation user' \<longrightarrow> user = user') \<and>
    (\<forall>user. Registered user \<in> set es \<longrightarrow> uc_session user \<noteq> None) \<and>
    (\<forall>user. Unregistered user \<in> set es \<longrightarrow> Registered user \<in> set es \<and> agent_current reg \<noteq> Some user)"
  using assms
proof (induction rule: agent_run.induct)
  case (registered es reg peer user reg')
  from registered(2) show ?case
  proof (cases rule: register_agent_Inr)
    case again
    with registered.IH show ?thesis by auto
  next
    case (fresh s)
    have gen: "agent_generation user = unat (agent_nextGeneration reg)"
      using fresh by (simp add: agent_generation_def)
    have succ: "unat (agent_nextGeneration reg') = unat (agent_nextGeneration reg) + 1"
      using fresh u64_succ by simp
    have old: "agent_generation user' < agent_generation user" if "Registered user' \<in> set es" for user'
      using that registered.IH gen by auto
    show ?thesis
      using registered.IH gen succ old fresh by (auto simp: less_Suc_eq dest: less_not_refl2)
  qed
next
  case (refused es reg peer e reg')
  with register_agent_Inl show ?case by blast
next
  case (unregistered es reg bus_name reg' user)
  then have "reg' = reg\<lparr>agent_current := None\<rparr>"
    by (auto simp: unregister_agent_def split: option.splits if_splits)
  with unregistered show ?case by auto
next
  case (unknown es reg bus_name reg')
  then have "reg' = reg" by (auto simp: unregister_agent_def split: option.splits if_splits)
  with unknown show ?case by simp
qed (simp add: initial_agents_def)

section \<open>Properties\<close>

text \<open>
  C10.  In every history of the agent registry a generation number names one registration: two
  registrations that were ever granted with the same generation are the same context, the current
  agent is one that was granted, and a context that was unregistered is never current again.
\<close>

theorem agent_generations_unique:
  assumes "agent_run es reg"
  shows "(\<forall>a b. Registered a \<in> set es \<and> Registered b \<in> set es \<and>
        map_option us_generation (uc_session a) = map_option us_generation (uc_session b) \<longrightarrow> a = b) \<and>
    (\<forall>a. is_current a reg \<longrightarrow> (\<exists>b. Registered b \<in> set es \<and> context_binding b = context_binding a)) \<and>
    (\<forall>a. Unregistered a \<in> set es \<longrightarrow> \<not> is_current a reg)"
proof -
  have grant: "\<And>user. agent_current reg = Some user \<Longrightarrow> Registered user \<in> set es"
    and once: "\<And>user user'. Registered user \<in> set es \<Longrightarrow> Registered user' \<in> set es \<Longrightarrow>
       agent_generation user = agent_generation user' \<Longrightarrow> user = user'"
    and gone: "\<And>user. Unregistered user \<in> set es \<Longrightarrow> Registered user \<in> set es \<and> agent_current reg \<noteq> Some user"
    using agent_run_bounds [OF assms] by simp_all
  have gen: "agent_generation a = agent_generation b"
    if "map_option us_generation (uc_session a) = map_option us_generation (uc_session b)" for a b
    using that by (cases "uc_session a"; cases "uc_session b") (simp_all add: agent_generation_def)
  have stale: "\<not> is_current a reg" if "Unregistered a \<in> set es" for a
  proof
    assume "is_current a reg"
    then obtain c where c: "agent_current reg = Some c" "context_binding c = context_binding a"
      by (auto simp: is_current_def split: option.splits)
    then have "uc_session c = uc_session a" by (simp add: context_binding_def)
    then have "agent_generation c = agent_generation a" by (simp add: agent_generation_def)
    with once [OF grant [OF c(1)]] gone [OF that] have "c = a" by blast
    with gone [OF that] c(1) show False by simp
  qed
  show ?thesis
  proof (intro conjI allI impI)
    fix a b
    assume "Registered a \<in> set es \<and> Registered b \<in> set es \<and>
        map_option us_generation (uc_session a) = map_option us_generation (uc_session b)"
    with once [of a b] gen [of a b] show "a = b" by blast
  next
    fix a
    assume "is_current a reg"
    then obtain c where "agent_current reg = Some c" "context_binding c = context_binding a"
      by (auto simp: is_current_def split: option.splits)
    with grant show "\<exists>b. Registered b \<in> set es \<and> context_binding b = context_binding a" by blast
  qed (use stale in blast)
qed

theorem agent_generations_unique_witness:
  "\<not> is_current \<lparr>uc_uid = 1000, uc_name = ''u'', uc_session = Some \<lparr>us_sessionId = ''s'',
      us_interactionAgentId = '':1'', us_generation = 1\<rparr>\<rparr>
     \<lparr>agent_current = None, agent_nextGeneration = 2\<rparr>" (is "\<not> is_current ?user ?reg")
proof -
  have reg: "register_agent \<lparr>peer_uid = 1000, peer_userName = ''u'', peer_sessionId = ''s'',
      peer_busName = '':1''\<rparr> initial_agents = (Inr ?user, \<lparr>agent_current = Some ?user, agent_nextGeneration = 2\<rparr>)"
    by (simp add: register_agent_def validate_peer_def initial_agents_def Let_def)
  have unreg: "unregister_agent '':1'' \<lparr>agent_current = Some ?user, agent_nextGeneration = 2\<rparr> = (True, ?reg)"
    by (simp add: unregister_agent_def)
  have "agent_run [Unregistered ?user, Registered ?user] ?reg"
    by (rule agent_run.unregistered [OF agent_run.registered [OF agent_run.start reg] unreg]) simp
  from agent_generations_unique [OF this] show ?thesis by simp
qed

end
