(* ===== verification/Ceremonies.thy ===== *)
theory Ceremonies
  imports Store_Laws Requests User_Context
begin

text \<open>
  The two ceremonies of the authenticator: authenticatorGetAssertion with its sequence of pending
  assertions (\<open>authentication/authenticate.hpp\<close>, \<open>authentication/authenticate.cpp\<close>,
  \<open>authentication/get_assertion_response.cpp\<close>) and authenticatorMakeCredential
  (\<open>registration/make_credential_response.cpp\<close>).  What a command meets outside the daemon is one
  record: the CBOR library, the user interaction, the hash and the random source of OpenSSL, the TPM
  key provider, the clock, the outcome of writing the store, and the state of its stop token at each
  cancellation point, numbered in source order.
\<close>

section \<open>Environment of a command\<close>

record CredentialKey =
  publicBlob :: bytes
  privateBlob :: bytes

record Env =
  env_tinycbor :: "bytes \<Rightarrow> cursor tiny"
  env_emit :: tiny_encoder
  env_stop :: "nat \<Rightarrow> bool"
  env_context :: "UserContext result"
  env_presence :: "UserContext \<Rightarrow> UserInteractionRequest \<Rightarrow> UserInteractionResult result"
  env_verification :: "UserContext \<Rightarrow> UserInteractionRequest \<Rightarrow> UserInteractionResult result"
  env_sha256 :: "bytes \<Rightarrow> bytes result"
  env_random :: "nat \<Rightarrow> bytes result"
  env_create :: "bytes \<Rightarrow> CredentialKey result"
  env_sign :: "bytes \<Rightarrow> bytes \<Rightarrow> bytes \<Rightarrow> bytes \<Rightarrow> bytes result"
  env_extractPublic :: "bytes \<Rightarrow> (bytes \<times> bytes) result"
  env_now :: time
  env_io :: SaveIO

definition option_at :: "(string \<Rightarrow> bool option) \<Rightarrow> string \<Rightarrow> bool result" where
  "option_at options name =
     (case options name of None \<Rightarrow> Inl (OutOfRange ''unordered_map::at'') | Some b \<Rightarrow> Inr b)"

definition status_payload :: "CTAPError \<Rightarrow> bytes" where
  "status_payload error = [ctap_error_code error]"

section \<open>The sequence of pending assertions\<close>

record AssertionSequence =
  seq_credentials :: "StoredCredential list"
  seq_index :: nat
  seq_originCid :: u32
  seq_ownerContext :: "UserContextBinding option"
  seq_lastUse :: time

definition SEQUENCE_TIMEOUT :: time where
  "SEQUENCE_TIMEOUT = seconds 30"

definition sequence_clear :: AssertionSequence where
  "sequence_clear = \<lparr>seq_credentials = [], seq_index = 0, seq_originCid = 0, seq_ownerContext = None,
     seq_lastUse = 0\<rparr>"

definition sequence_begin ::
    "u32 \<Rightarrow> UserContext \<Rightarrow> StoredCredential list \<Rightarrow> time \<Rightarrow> unit result \<times> AssertionSequence" where
  "sequence_begin origin_cid user remaining now =
     (if origin_cid = 0 \<or> remaining = [] then (Inr (), sequence_clear)
      else if list_ex (\<lambda>c. cred_ownerUid c \<noteq> uc_uid user) remaining then
        (Inl (InvalidArgument ''Assertion sequence contains a credential owned by another user''),
         sequence_clear)
      else (Inr (), sequence_clear\<lparr>seq_originCid := origin_cid,
              seq_ownerContext := Some (context_binding user), seq_credentials := remaining,
              seq_lastUse := now\<rparr>))"

definition sequence_next ::
    "u32 \<Rightarrow> UserContext \<Rightarrow> time \<Rightarrow> AssertionSequence \<Rightarrow> StoredCredential option \<times> AssertionSequence" where
  "sequence_next cid user now seq =
     (if seq_originCid seq \<noteq> 0 \<and> seq_ownerContext seq \<noteq> Some (context_binding user) then
        (None, sequence_clear)
      else if seq_originCid seq = 0 \<or> cid \<noteq> seq_originCid seq then (None, seq)
      else if now - seq_lastUse seq > SEQUENCE_TIMEOUT \<or>
              seq_index seq \<ge> length (seq_credentials seq) then (None, sequence_clear)
      else
        let credential = seq_credentials seq ! seq_index seq; index = seq_index seq + 1 in
        if index = length (seq_credentials seq) then (Some credential, sequence_clear)
        else (Some credential, seq\<lparr>seq_index := index, seq_lastUse := now\<rparr>))"

section \<open>GetAssertion\<close>

record CTAPGetAssertionRequest =
  ga_fields :: GetAssertionFields
  ga_userPresent :: bool
  ga_userVerified :: bool
  ga_sequence :: AssertionSequence

definition clear_request :: CTAPGetAssertionRequest where
  "clear_request = \<lparr>ga_fields = clear_get_assertion, ga_userPresent = False, ga_userVerified = False,
     ga_sequence = sequence_clear\<rparr>"

datatype AssertionInteraction = Interaction_None | Interaction_Presence | Interaction_Verification

definition assertion_interaction :: "bool \<Rightarrow> bool \<Rightarrow> AssertionInteraction" where
  "assertion_interaction up uv =
     (if uv then Interaction_Verification else if up then Interaction_Presence else Interaction_None)"

definition assertion_authenticator_flags :: "bool \<Rightarrow> bool \<Rightarrow> u8" where
  "assertion_authenticator_flags present verified =
     (if present then 0x01 else 0x00) OR (if verified then 0x04 else 0x00)"

definition has_assertion_continuations :: "bool \<Rightarrow> nat \<Rightarrow> bool" where
  "has_assertion_continuations allow_list_empty count \<longleftrightarrow> allow_list_empty \<and> count > 1"

text \<open>The consent part of \<open>build_response\<close>: an error status to answer with, or whether the user was
  present and verified.\<close>

definition assertion_consent :: "Env \<Rightarrow> UserContext \<Rightarrow> GetAssertionFields \<Rightarrow> (bytes + bool \<times> bool) result" where
  "assertion_consent env user parsed =
     bind_result (option_at (ga_options parsed) ''up'') (\<lambda>request_up.
     bind_result (option_at (ga_options parsed) ''uv'') (\<lambda>request_uv.
       let request = \<lparr>uir_operation = get_assertion, uir_relyingPartyId = ga_rpId parsed, uir_requestId = 0\<rparr> in
       case assertion_interaction request_up request_uv of
         Interaction_Verification \<Rightarrow>
           bind_result (env_verification env user request) (\<lambda>verification.
           bind_result (cancellation_point (env_stop env 1)) (\<lambda>_.
             if verification = cancelled then Inr (Inl (status_payload CTAP2_ERR_OPERATION_DENIED))
             else if verification \<noteq> approved then Inr (Inl (status_payload ctap20_uv_failure_error))
             else Inr (Inr (request_up, True))))
       | Interaction_Presence \<Rightarrow>
           bind_result (cancellation_point (env_stop env 2)) (\<lambda>_.
           bind_result (env_presence env user request) (\<lambda>presence.
           bind_result (cancellation_point (env_stop env 3)) (\<lambda>_.
             if presence = cancelled then Inr (Inl (status_payload CTAP2_ERR_OPERATION_DENIED))
             else if presence \<noteq> approved then Inr (Inl (status_payload CTAP2_ERR_OPERATION_DENIED))
             else Inr (Inr (True, False)))))
       | Interaction_None \<Rightarrow> Inr (Inr (False, False))))"

definition assertion_auth_data :: "bytes \<Rightarrow> u8 \<Rightarrow> u32 \<Rightarrow> bytes" where
  "assertion_auth_data rphash flags sc = rphash @ [flags] @ be32 sc"

text \<open>The signed response for one credential, before its counter is updated in the store.\<close>

definition assertion_payload ::
    "Env \<Rightarrow> StoredCredential \<Rightarrow> u32 option \<Rightarrow> CTAPGetAssertionRequest \<Rightarrow> bytes result" where
  "assertion_payload env credential number_of_credentials req =
     (let bumped = credential\<lparr>cred_signCount := cred_signCount credential + 1\<rparr>;
          parsed = ga_fields req in
      bind_result (env_sha256 env (map byte_of_char (ga_rpId parsed))) (\<lambda>rphash.
        let authData = assertion_auth_data rphash
              (assertion_authenticator_flags (ga_userPresent req) (ga_userVerified req))
              (cred_signCount bumped) in
        bind_result (env_sha256 env (authData @ ga_clientDataHash parsed)) (\<lambda>digest.
        bind_result (env_sign env (cred_id bumped) digest (cred_public_blob bumped) (cred_private_blob bumped))
          (\<lambda>signature.
          build_authenticatorGetAssertion_response (env_emit env) authData signature (ga_userVerified req)
            bumped (length (ga_allowList parsed) \<noteq> 1) number_of_credentials))))"

definition generate_single_credential_payload ::
    "'c StoreContext \<Rightarrow> Env \<Rightarrow> StoredCredential \<Rightarrow> u32 \<Rightarrow> u32 option \<Rightarrow> CTAPGetAssertionRequest \<Rightarrow>
     CredentialStore \<Rightarrow> 'c World \<Rightarrow> bytes result \<times> CredentialStore \<times> 'c World" where
  "generate_single_credential_payload ctx env credential owner_uid number_of_credentials req st w =
     (case assertion_payload env credential number_of_credentials req of
        Inl e \<Rightarrow> (Inl e, st, w)
      | Inr payload \<Rightarrow>
          if env_stop env 5 then (Inl OperationCancelled, st, w)
          else (case incrementSigCount ctx (env_io env) (cred_id credential) owner_uid st w of
                  (Inl e, st', w') \<Rightarrow> (Inl e, st', w')
                | (Inr _, st', w') \<Rightarrow> (Inr payload, st', w')))"

text \<open>The rest of \<open>build_response\<close> once the user has consented: the first credential answers, the
  others wait in the sequence.\<close>

definition assertion_after_consent ::
    "'c StoreContext \<Rightarrow> Env \<Rightarrow> u32 \<Rightarrow> UserContext \<Rightarrow> StoredCredential list \<Rightarrow> CTAPGetAssertionRequest \<Rightarrow>
     CredentialStore \<Rightarrow> 'c World \<Rightarrow> bytes result \<times> CTAPGetAssertionRequest \<times> CredentialStore \<times> 'c World" where
  "assertion_after_consent ctx env cid user available req st w =
     (let has_continuations =
            has_assertion_continuations (ga_allowList (ga_fields req) = []) (length available) in
      case available of
        [] \<Rightarrow> (Inr (status_payload CTAP2_ERR_NO_CREDENTIALS), req, st, w)
      | credential # remaining \<Rightarrow>
          if env_stop env 4 then (Inl OperationCancelled, req, st, w)
          else
            (case generate_single_credential_payload ctx env credential (uc_uid user)
                    (if has_continuations then Some (word_of_nat (length available)) else None) req st w of
               (Inl e, st', w') \<Rightarrow> (Inl e, req, st', w')
             | (Inr payload, st', w') \<Rightarrow>
                 if has_continuations then
                   (case sequence_begin cid user remaining (env_now env) of
                      (rs, seq) \<Rightarrow> (bind_result rs (\<lambda>_. Inr payload), req\<lparr>ga_sequence := seq\<rparr>, st', w'))
                 else (Inr payload, req, st', w')))"

definition get_assertion_build_response ::
    "'c StoreContext \<Rightarrow> Env \<Rightarrow> u32 \<Rightarrow> CTAPGetAssertionRequest \<Rightarrow> CredentialStore \<Rightarrow> 'c World \<Rightarrow>
     bytes result \<times> CTAPGetAssertionRequest \<times> CredentialStore \<times> 'c World" where
  "get_assertion_build_response ctx env cid req st w =
     (let parsed = ga_fields req in
      case bind_result (cancellation_point (env_stop env 0)) (\<lambda>_.
           bind_result (env_context env) (\<lambda>user.
           bind_result (find_for_assertion st (ga_rpId parsed) (ga_allowList parsed) (uc_uid user)) (\<lambda>available.
             Inr (user, available)))) of
        Inl e \<Rightarrow> (Inl e, req, st, w)
      | Inr (user, available) \<Rightarrow>
          (case get_assertion_validation_error parsed of
             Some error \<Rightarrow> (Inr (status_payload error), req, st, w)
           | None \<Rightarrow>
               let req1 = req\<lparr>ga_userPresent := False, ga_userVerified := False\<rparr> in
               (case assertion_consent env user parsed of
                  Inl e \<Rightarrow> (Inl e, req1, st, w)
                | Inr (Inl payload) \<Rightarrow> (Inr payload, req1, st, w)
                | Inr (Inr (present, verified)) \<Rightarrow>
                    assertion_after_consent ctx env cid user available
                      (req1\<lparr>ga_userPresent := present, ga_userVerified := verified\<rparr>) st w)))"

definition get_assertion_build_response_next ::
    "'c StoreContext \<Rightarrow> Env \<Rightarrow> u32 \<Rightarrow> CTAPGetAssertionRequest \<Rightarrow> CredentialStore \<Rightarrow> 'c World \<Rightarrow>
     bytes result \<times> CTAPGetAssertionRequest \<times> CredentialStore \<times> 'c World" where
  "get_assertion_build_response_next ctx env cid req st w =
     (case env_context env of
        Inl e \<Rightarrow> (Inl e, req, st, w)
      | Inr user \<Rightarrow>
          (case sequence_next cid user (env_now env) (ga_sequence req) of
             (None, seq) \<Rightarrow>
               (Inr (status_payload CTAP2_ERR_NOT_ALLOWED), req\<lparr>ga_sequence := seq\<rparr>, st, w)
           | (Some credential, seq) \<Rightarrow>
               let req' = req\<lparr>ga_sequence := seq\<rparr> in
               if env_stop env 4 then (Inl OperationCancelled, req', st, w)
               else (case generate_single_credential_payload ctx env credential (uc_uid user) None req' st w of
                       (r, st', w') \<Rightarrow> (r, req', st', w'))))"

section \<open>MakeCredential\<close>

text \<open>Whether the exclude list names a credential of this user and relying party.\<close>

fun excluded_credential ::
    "CredentialStore \<Rightarrow> string \<Rightarrow> u32 \<Rightarrow> PublicKeyCredentialDescriptor list \<Rightarrow> bool result" where
  "excluded_credential st rpid uid [] = Inr False"
| "excluded_credential st rpid uid (d # ds) =
     (if desc_type d = ''public-key'' then
        bind_result (has_for_rp st (desc_id d) rpid uid) (\<lambda>found.
          if found then Inr True else excluded_credential st rpid uid ds)
      else excluded_credential st rpid uid ds)"

definition excluded_response :: "Env \<Rightarrow> UserContext \<Rightarrow> string \<Rightarrow> bytes result" where
  "excluded_response env user rpid =
     bind_result (cancellation_point (env_stop env 1)) (\<lambda>_.
     bind_result (env_presence env user \<lparr>uir_operation = check_excluded_credential,
         uir_relyingPartyId = rpid, uir_requestId = 0\<rparr>) (\<lambda>presence.
     bind_result (cancellation_point (env_stop env 2)) (\<lambda>_.
       if presence = cancelled then Inr (status_payload CTAP2_ERR_OPERATION_DENIED)
       else if presence \<noteq> approved then Inr (status_payload CTAP2_ERR_OPERATION_DENIED)
       else Inr (status_payload CTAP2_ERR_CREDENTIAL_EXCLUDED))))"

definition selected_alg :: "PubKeyCredParam list \<Rightarrow> int" where
  "selected_alg params =
     (case find (\<lambda>p. pk_alg p = -7 \<and> pk_type p = ''public-key'') params of
        None \<Rightarrow> 0 | Some p \<Rightarrow> pk_alg p)"

text \<open>The consent part: an error status to answer with, or consent.  The loop over the option table
  acts on its one entry \<open>uv\<close>.\<close>

definition registration_consent :: "Env \<Rightarrow> UserContext \<Rightarrow> CTAPMakeCredentialRequest \<Rightarrow> bytes option result" where
  "registration_consent env user req =
     (let request = \<lparr>uir_operation = make_credential, uir_relyingPartyId = rp_id (mc_rp req), uir_requestId = 0\<rparr> in
      case mc_options req ''uv'' of
        Some True \<Rightarrow>
          bind_result (env_verification env user request) (\<lambda>verification.
          bind_result (cancellation_point (env_stop env 3)) (\<lambda>_.
            if verification = cancelled then Inr (Some (status_payload CTAP2_ERR_OPERATION_DENIED))
            else if verification \<noteq> approved then Inr (Some (status_payload ctap20_uv_failure_error))
            else Inr None))
      | Some False \<Rightarrow>
          bind_result (cancellation_point (env_stop env 4)) (\<lambda>_.
          bind_result (env_presence env user request) (\<lambda>presence.
          bind_result (cancellation_point (env_stop env 5)) (\<lambda>_.
            if presence = cancelled then Inr (Some (status_payload CTAP2_ERR_OPERATION_DENIED))
            else if presence \<noteq> approved then Inr (Some (status_payload CTAP2_ERR_OPERATION_DENIED))
            else Inr None)))
      | None \<Rightarrow> Inr None)"

definition registration_flags :: "bool \<Rightarrow> u8" where
  "registration_flags uv = (0x00 OR 0x01) OR push_bit 2 (if uv then 1 else 0) OR push_bit 6 1"

definition registration_auth_data :: "bytes \<Rightarrow> u8 \<Rightarrow> bytes \<Rightarrow> bytes" where
  "registration_auth_data rphash flags credId =
     rphash @ [flags] @ be32 0 @ take 16 aaguid @ be16 (word_of_nat (length credId)) @ credId"

text \<open>The new key, the credential to store and the signed response.\<close>

definition registration_payload ::
    "Env \<Rightarrow> CTAPMakeCredentialRequest \<Rightarrow> int \<Rightarrow> (StoredCredential \<times> bytes) result" where
  "registration_payload env req alg =
     bind_result (env_sha256 env (map byte_of_char (rp_id (mc_rp req)))) (\<lambda>rphash.
     bind_result (option_at (mc_options req) ''uv'') (\<lambda>uv.
     bind_result (env_random env 32) (\<lambda>credId.
     let authData0 = registration_auth_data rphash (registration_flags uv) credId in
     bind_result (cancellation_point (env_stop env 6)) (\<lambda>_.
     bind_result (env_create env credId) (\<lambda>key.
     bind_result (cancellation_point (env_stop env 7)) (\<lambda>_.
     bind_result (option_at (mc_options req) ''rk'') (\<lambda>rk.
     let credential = \<lparr>cred_id = credId, cred_ownerUid = 0, cred_rpId = rp_id (mc_rp req),
           cred_userId = ue_id (mc_user req), cred_userName = ue_name (mc_user req),
           cred_userDisplayName = ue_displayName (mc_user req), cred_alg = alg, cred_signCount = 0,
           cred_private_blob = privateBlob key, cred_public_blob = publicBlob key,
           cred_discoverable = rk, cred_creationOrder = 0\<rparr> in
     bind_result (env_extractPublic env (publicBlob key)) (\<lambda>(x, y).
     bind_result (build_cose_key (env_emit env) x y) (\<lambda>cose_map.
     let authData = authData0 @ cose_map in
     bind_result (env_sha256 env (authData @ mc_clientDataHash req)) (\<lambda>signDataHash.
     bind_result (env_sign env credId signDataHash (publicBlob key) (privateBlob key)) (\<lambda>signData.
     bind_result (build_authenticatorMakeCredential_response (env_emit env) authData signData) (\<lambda>payload.
       Inr (credential, payload)))))))))))))"

definition make_credential_build_response ::
    "'c StoreContext \<Rightarrow> Env \<Rightarrow> CTAPMakeCredentialRequest \<Rightarrow> CredentialStore \<Rightarrow> 'c World \<Rightarrow>
     bytes result \<times> CredentialStore \<times> 'c World" where
  "make_credential_build_response ctx env req st w =
     (let rpid = rp_id (mc_rp req) in
      case bind_result (cancellation_point (env_stop env 0)) (\<lambda>_.
           bind_result (env_context env) (\<lambda>user.
           bind_result (excluded_credential st rpid (uc_uid user) (mc_excludeList req)) (\<lambda>excluded.
             Inr (user, excluded)))) of
        Inl e \<Rightarrow> (Inl e, st, w)
      | Inr (user, True) \<Rightarrow> (excluded_response env user rpid, st, w)
      | Inr (user, False) \<Rightarrow>
          let alg = selected_alg (mc_publicKeyCredParams req) in
          if alg = 0 then (Inr (status_payload CTAP2_ERR_UNSUPPORTED_ALGORITHM), st, w)
          else (case make_credential_validation_error req of
                  Some error \<Rightarrow> (Inr (status_payload error), st, w)
                | None \<Rightarrow>
                    (case registration_consent env user req of
                       Inl e \<Rightarrow> (Inl e, st, w)
                     | Inr (Some payload) \<Rightarrow> (Inr payload, st, w)
                     | Inr None \<Rightarrow>
                         (case registration_payload env req alg of
                            Inl e \<Rightarrow> (Inl e, st, w)
                          | Inr (credential, payload) \<Rightarrow>
                              if env_stop env 8 then (Inl OperationCancelled, st, w)
                              else if rpid \<noteq> ''make.me.blink'' \<and> rpid \<noteq> ''.dummy'' then
                                if env_stop env 9 then (Inl OperationCancelled, st, w)
                                else (case put_credential ctx (env_io env) credential (uc_uid user) st w of
                                        (Inl e, st', w') \<Rightarrow> (Inl e, st', w')
                                      | (Inr _, st', w') \<Rightarrow> (Inr payload, st', w'))
                              else (Inr payload, st, w)))))"

end
