(* ===== verification/Frame_Processor.thy ===== *)
theory Frame_Processor
  imports Packet
begin

text \<open>
  Reassembly of incoming CTAPHID frames (\<open>frame_processor.hpp\<close>, \<open>frame_processor.cpp\<close>).  The object
  holds at most one incoming transaction; \<open>process\<close> takes a raw frame, the channel of the running
  operation, the allocated channels and the time.
\<close>

section \<open>State and operations\<close>

definition CTAPHID_INVALID_CID :: u32 where "CTAPHID_INVALID_CID = 0x00000000"
definition CTAPHID_BROADCAST_CID :: u32 where "CTAPHID_BROADCAST_CID = 0xFFFFFFFF"

record FrameProcessingError =
  fpe_cid :: u32
  fpe_error :: HIDError

datatype FrameProcessingResult =
    Monostate
  | Report UHIDReport
  | ProcessingError FrameProcessingError

record IncomingTransaction =
  it_report :: UHIDReport
  it_deadline :: time

record CTAPHIDFrameProcessor =
  incoming :: "IncomingTransaction option"

definition message_assembly_timeout :: time where
  "message_assembly_timeout = seconds 3"

abbreviation frame_error :: "u32 \<Rightarrow> HIDError \<Rightarrow> FrameProcessingResult" where
  "frame_error cid error \<equiv> ProcessingError \<lparr>fpe_cid = cid, fpe_error = error\<rparr>"

definition frame_cid :: "bytes \<Rightarrow> u32" where
  "frame_cid frame = of_be32 (frame ! 0) (frame ! 1) (frame ! 2) (frame ! 3)"

text \<open>The branch of \<open>process\<close> for a frame whose type bit is clear.\<close>

definition process_continuation ::
    "CTAPHIDFrameProcessor \<Rightarrow> bytes \<Rightarrow> FrameProcessingResult \<times> CTAPHIDFrameProcessor" where
  "process_continuation fp frame =
     (case incoming fp of
        None \<Rightarrow> (Monostate, fp)
      | Some transaction \<Rightarrow>
          let current = it_report transaction in
          if frame_cid frame \<noteq> rep_cid current then (Monostate, fp)
          else if frame ! 4 \<noteq> rep_seq current then
            (frame_error (rep_cid current) CTAP1_ERR_INVALID_SEQ, fp\<lparr>incoming := None\<rparr>)
          else
            let remaining = size_sub (unat (rep_len current)) (length (rep_payload current));
                amount = min remaining MAX_CONT_PAYLOAD_SIZE;
                current' = current\<lparr>rep_seq := rep_seq current + 1,
                  rep_payload := rep_payload current @ take amount (drop 5 frame)\<rparr>
            in if length (rep_payload current') \<noteq> unat (rep_len current') then
                 (Monostate, fp\<lparr>incoming := Some (transaction\<lparr>it_report := current'\<rparr>)\<rparr>)
               else (Report current', fp\<lparr>incoming := None\<rparr>))"

text \<open>The transaction an accepted initialization frame starts.\<close>

definition start_transaction ::
    "CTAPHIDFrameProcessor \<Rightarrow> bytes \<Rightarrow> u32 \<Rightarrow> u8 \<Rightarrow> u16 \<Rightarrow> time \<Rightarrow>
     FrameProcessingResult \<times> CTAPHIDFrameProcessor" where
  "start_transaction fp frame cid command len now =
     (let first_payload_size = min (unat len) MAX_INIT_PAYLOAD_SIZE;
          nxt = \<lparr>rep_cid = cid, rep_cmd = command, rep_len = len,
                 rep_payload = take first_payload_size (drop 7 frame), rep_seq = 0\<rparr>
      in if length (rep_payload nxt) = unat (rep_len nxt) then (Report nxt, fp)
         else (Monostate, fp\<lparr>incoming :=
           Some \<lparr>it_report = nxt, it_deadline = now + message_assembly_timeout\<rparr>\<rparr>))"

definition process_initial ::
    "CTAPHIDFrameProcessor \<Rightarrow> bytes \<Rightarrow> u32 option \<Rightarrow> u32 set \<Rightarrow> time \<Rightarrow>
     FrameProcessingResult \<times> CTAPHIDFrameProcessor" where
  "process_initial fp frame active_cid allocated_cids now =
     (let cid = frame_cid frame;
          command = frame ! 4 AND 0x7F;
          len = of_be16 (frame ! 5) (frame ! 6)
      in
      if unat len > CTAPHID_MAX_PAYLOAD_SIZE then (frame_error cid HIDError.CTAP1_ERR_INVALID_LENGTH, fp)
      else if (command = CTAPHID_INIT \<and> len \<noteq> 8) \<or> (command = CTAPHID_CANCEL \<and> len \<noteq> 0) then
        (frame_error cid HIDError.CTAP1_ERR_INVALID_LENGTH, fp)
      else if command = CTAPHID_CANCEL \<and> active_cid \<noteq> Some cid then (Monostate, fp)
      else if active_cid \<noteq> None \<and>
        \<not> (active_cid = Some cid \<and> (command = CTAPHID_CANCEL \<or> command = CTAPHID_INIT)) then
        (frame_error cid CTAP1_ERR_CHANNEL_BUSY, fp)
      else
        let other_channel =
              (case incoming fp of None \<Rightarrow> False | Some t \<Rightarrow> cid \<noteq> rep_cid (it_report t));
            allocating_channel = (cid = CTAPHID_BROADCAST_CID \<and> command = CTAPHID_INIT)
        in
        if other_channel then (frame_error cid CTAP1_ERR_CHANNEL_BUSY, fp)
        else if \<not> allocating_channel \<and> cid \<notin> allocated_cids then
          (frame_error cid CTAP1_ERR_INVALID_CHANNEL, fp)
        else
          (case incoming fp of
             Some t \<Rightarrow>
               if command = CTAPHID_INIT then
                 start_transaction (fp\<lparr>incoming := None\<rparr>) frame cid command len now
               else (frame_error (rep_cid (it_report t)) CTAP1_ERR_INVALID_SEQ, fp\<lparr>incoming := None\<rparr>)
           | None \<Rightarrow> start_transaction fp frame cid command len now))"

definition strip_report_id :: "bytes \<Rightarrow> bytes" where
  "strip_report_id raw_frame =
     (if length raw_frame = 65 \<and> raw_frame ! 0 = 0 then drop 1 raw_frame else raw_frame)"

definition process_frame ::
    "CTAPHIDFrameProcessor \<Rightarrow> bytes \<Rightarrow> u32 option \<Rightarrow> u32 set \<Rightarrow> time \<Rightarrow>
     FrameProcessingResult \<times> CTAPHIDFrameProcessor" where
  "process_frame fp raw_frame active_cid allocated_cids now =
     (let frame = strip_report_id raw_frame
      in if length frame \<noteq> 64 then (Monostate, fp)
         else if frame ! 4 AND MASK = 0 then process_continuation fp frame
         else process_initial fp frame active_cid allocated_cids now)"

definition expire_transaction ::
    "CTAPHIDFrameProcessor \<Rightarrow> time \<Rightarrow> FrameProcessingError option \<times> CTAPHIDFrameProcessor" where
  "expire_transaction fp now =
     (case incoming fp of
        None \<Rightarrow> (None, fp)
      | Some t \<Rightarrow>
          if now < it_deadline t then (None, fp)
          else (Some \<lparr>fpe_cid = rep_cid (it_report t), fpe_error = CTAP1_ERR_TIMEOUT\<rparr>,
                fp\<lparr>incoming := None\<rparr>))"

definition transaction_deadline :: "CTAPHIDFrameProcessor \<Rightarrow> time option" where
  "transaction_deadline fp = map_option it_deadline (incoming fp)"

definition has_incoming :: "CTAPHIDFrameProcessor \<Rightarrow> bool" where
  "has_incoming fp \<longleftrightarrow> incoming fp \<noteq> None"

text \<open>A sequence of frames received one after the other.\<close>

fun process_frames ::
    "CTAPHIDFrameProcessor \<Rightarrow> u32 option \<Rightarrow> u32 set \<Rightarrow> time \<Rightarrow> bytes list \<Rightarrow>
     FrameProcessingResult list \<times> CTAPHIDFrameProcessor" where
  "process_frames fp active_cid allocated_cids now [] = ([], fp)"
| "process_frames fp active_cid allocated_cids now (frame # frames) =
     (case process_frame fp frame active_cid allocated_cids now of
        (r, fp') \<Rightarrow>
          (case process_frames fp' active_cid allocated_cids now frames of
             (rs, fp'') \<Rightarrow> (r # rs, fp'')))"

section \<open>Invariant\<close>

text \<open>
  An incoming transaction is incomplete, within the transport limit, belongs to an allocated
  channel, and has received a full initialization frame and one full continuation per sequence
  number.
\<close>

definition transaction_ok :: "u32 set \<Rightarrow> IncomingTransaction \<Rightarrow> bool" where
  "transaction_ok allocated t \<longleftrightarrow>
     (let r = it_report t in
      length (rep_payload r) < unat (rep_len r) \<and> unat (rep_len r) \<le> CTAPHID_MAX_PAYLOAD_SIZE \<and>
      length (rep_payload r) = MAX_INIT_PAYLOAD_SIZE + MAX_CONT_PAYLOAD_SIZE * unat (rep_seq r) \<and>
      rep_cid r \<in> allocated \<and> rep_cmd r \<noteq> CTAPHID_INIT \<and> rep_cmd r \<noteq> CTAPHID_CANCEL)"

definition processor_ok :: "u32 set \<Rightarrow> CTAPHIDFrameProcessor \<Rightarrow> bool" where
  "processor_ok allocated fp \<longleftrightarrow>
     (case incoming fp of None \<Rightarrow> True | Some t \<Rightarrow> transaction_ok allocated t)"

text \<open>What a completed report promises to the event loop.\<close>

definition report_ok :: "u32 set \<Rightarrow> UHIDReport \<Rightarrow> bool" where
  "report_ok allocated r \<longleftrightarrow>
     length (rep_payload r) = unat (rep_len r) \<and> unat (rep_len r) \<le> CTAPHID_MAX_PAYLOAD_SIZE \<and>
     (rep_cid r \<in> allocated \<or> rep_cid r = CTAPHID_BROADCAST_CID \<and> rep_cmd r = CTAPHID_INIT) \<and>
     (rep_cmd r = CTAPHID_INIT \<longrightarrow> length (rep_payload r) = 8) \<and>
     (rep_cmd r = CTAPHID_CANCEL \<longrightarrow> rep_payload r = [])"

section \<open>Lemmas\<close>

lemma strip_report_id_64 [simp]: "length frame = 64 \<Longrightarrow> strip_report_id frame = frame"
  by (simp add: strip_report_id_def)

lemma transaction_seq_bound:
  "transaction_ok allocated t \<Longrightarrow> unat (rep_seq (it_report t)) < 128"
  by (auto simp: transaction_ok_def Let_def ctaphid_defs)

lemma transaction_next_seq:
  "transaction_ok allocated t \<Longrightarrow>
   unat (rep_seq (it_report t) + 1) = unat (rep_seq (it_report t)) + 1"
  using transaction_seq_bound [of allocated t] by (simp add: unat_word_ariths)

lemma continuation_ok:
  assumes ok: "processor_ok allocated fp" and size: "length frame = 64"
    and run: "process_continuation fp frame = (r, fp')"
  shows "processor_ok allocated fp'" "r = Report rep \<Longrightarrow> report_ok allocated rep"
proof -
  show "processor_ok allocated fp'"
  proof (cases "incoming fp")
    case None
    with run ok show ?thesis by (auto simp: process_continuation_def)
  next
    case (Some t)
    then have t: "transaction_ok allocated t" using ok by (simp add: processor_ok_def)
    have "length (rep_payload (it_report t)) < unat (rep_len (it_report t))"
      using t by (simp add: transaction_ok_def Let_def)
    with run Some t size transaction_next_seq [OF t] show ?thesis
      by (auto simp: process_continuation_def processor_ok_def transaction_ok_def Let_def
          ctaphid_defs min_def split: if_splits)
  qed
  show "report_ok allocated rep" if "r = Report rep"
  proof -
    from run that obtain t where t: "incoming fp = Some t"
      by (auto simp: process_continuation_def split: option.splits)
    then have "transaction_ok allocated t" using ok by (simp add: processor_ok_def)
    moreover have "length (rep_payload rep) = unat (rep_len rep)" "rep_len rep = rep_len (it_report t)"
      "rep_cid rep = rep_cid (it_report t)" "rep_cmd rep = rep_cmd (it_report t)"
      using run that t by (auto simp: process_continuation_def Let_def split: if_splits)
    ultimately show ?thesis
      by (simp add: transaction_ok_def report_ok_def Let_def)
  qed
qed

lemma start_transaction_ok:
  assumes "processor_ok allocated fp" "length frame = 64"
    and "unat len \<le> CTAPHID_MAX_PAYLOAD_SIZE"
    and "command = CTAPHID_INIT \<longrightarrow> len = 8" "command = CTAPHID_CANCEL \<longrightarrow> len = 0"
    and "cid \<in> allocated \<or> cid = CTAPHID_BROADCAST_CID \<and> command = CTAPHID_INIT"
    and "start_transaction fp frame cid command len now = (r, fp')"
  shows "processor_ok allocated fp'" "r = Report rep \<Longrightarrow> report_ok allocated rep"
  using assms
  by (auto simp: start_transaction_def processor_ok_def transaction_ok_def report_ok_def Let_def
      ctaphid_defs min_def split: if_splits)

lemma initial_ok:
  assumes ok: "processor_ok allocated fp" and size: "length frame = 64"
    and run: "process_initial fp frame active allocated now = (r, fp')"
  shows "processor_ok allocated fp' \<and> (r = Report rep \<longrightarrow> report_ok allocated rep)"
proof -
  have clear: "processor_ok allocated (fp\<lparr>incoming := None\<rparr>)"
    by (simp add: processor_ok_def)
  show ?thesis
    using run ok clear size
    by (auto simp: process_initial_def Let_def not_less split: if_splits option.splits
        dest: start_transaction_ok [rotated 6])
qed

lemma process_frame_ok:
  assumes "processor_ok allocated fp" "process_frame fp raw active allocated now = (r, fp')"
  shows "processor_ok allocated fp' \<and> (r = Report rep \<longrightarrow> report_ok allocated rep)"
  using assms
  by (auto simp: process_frame_def Let_def split: if_splits dest: initial_ok continuation_ok)

lemma report_leaves_idle:
  "process_frame fp raw active allocated now = (Report rep, fp') \<Longrightarrow> incoming fp' = None"
  by (auto simp: process_frame_def process_initial_def process_continuation_def start_transaction_def
      Let_def split: if_splits option.splits)

lemma process_active_idle:
  "process_frame fp raw (Some cid) allocated now = (r, fp') \<Longrightarrow> incoming fp = None \<Longrightarrow> fp' = fp"
  by (auto simp: process_frame_def process_initial_def process_continuation_def start_transaction_def
      ctaphid_defs Let_def split: if_splits)

lemma frame_cid_be32 [simp]: "frame_cid (be32 cid @ rest) = cid"
  using of_be32_be32 [of cid] by (simp add: frame_cid_def nth_append)

lemma be16_nth: "of_be16 ((be32 c @ x # be16 l @ rest) ! 5) ((be32 c @ x # be16 l @ rest) ! 6) = l"
  using of_be16_be16 [of l] by (simp add: nth_append)

lemma seq_type_bit: "unat (w :: u8) < 128 \<Longrightarrow> w AND 0x80 = 0"
proof -
  assume "unat w < 128"
  then have "take_bit 7 w = w"
    by (simp add: take_bit_eq_mod word_unat_eq_iff unat_mod_distrib)
  then have "\<not> bit w 7"
    by (metis bit_take_bit_iff less_irrefl)
  then show ?thesis
    using and_exp_eq_0_iff_not_bit [of w 7] by simp
qed

lemma process_cont_frame:
  assumes inc: "incoming fp = Some t" and cid: "rep_cid (it_report t) = cid"
    and seq: "unat (rep_seq (it_report t)) < 128"
    and part: "rep_payload (it_report t) = take offset payload"
    and len: "unat (rep_len (it_report t)) = length payload" and off: "offset < length payload"
    and more: "length payload < 65536"
  shows "process_frame fp (cont_frame cid (rep_seq (it_report t)) (take 59 (drop offset payload)))
           active allocated now =
         (let current = (it_report t)\<lparr>rep_seq := rep_seq (it_report t) + 1,
                rep_payload := take (offset + 59) payload\<rparr>
          in if offset + 59 < length payload then
               (Monostate, fp\<lparr>incoming := Some (t\<lparr>it_report := current\<rparr>)\<rparr>)
             else (Report current, fp\<lparr>incoming := None\<rparr>))"
proof -
  let ?chunk = "take 59 (drop offset payload)"
  let ?frame = "cont_frame cid (rep_seq (it_report t)) ?chunk"
  have head: "?frame ! 4 = rep_seq (it_report t)" "frame_cid ?frame = cid"
    by (simp_all add: cont_frame_def nth_append)
  have body: "drop 5 ?frame = pad_zero 59 ?chunk"
    by (simp add: cont_frame_def)
  have size: "size_sub (unat (rep_len (it_report t))) (length (take offset payload)) =
      length payload - offset"
    using off more len by simp
  have "take (min (length payload - offset) 59) (pad_zero 59 ?chunk) = ?chunk"
    by (simp add: min_def)
  then have joined: "take offset payload @ take (min (length payload - offset) 59) (pad_zero 59 ?chunk) =
      take (offset + 59) payload"
    by (simp add: take_add)
  have "length ?frame = 64" by simp
  then show ?thesis
    using inc cid part seq_type_bit [OF seq] len off size
    by (simp add: process_frame_def process_continuation_def Let_def head body
        MASK_def MAX_CONT_PAYLOAD_SIZE_def joined) (auto simp: pad_zero_def take_add)
qed

lemma process_continuations:
  assumes "incoming fp = Some t" "rep_cid (it_report t) = cid"
    and "rep_payload (it_report t) = take offset payload"
    and "unat (rep_len (it_report t)) = length payload" "offset < length payload"
    and "length payload \<le> 7609" "offset = 57 + 59 * unat (rep_seq (it_report t))"
  shows "process_frames fp active allocated now (continuations cid payload offset (rep_seq (it_report t))) =
    (let n = length (continuations cid payload offset (rep_seq (it_report t)))
     in (replicate (n - 1) Monostate @
          [Report ((it_report t)\<lparr>rep_seq := rep_seq (it_report t) + word_of_nat n, rep_payload := payload\<rparr>)],
         fp\<lparr>incoming := None\<rparr>))"
  using assms
proof (induction "length payload - offset" arbitrary: fp t offset rule: less_induct)
  case less
  define r where "r = it_report t"
  have seq: "unat (rep_seq r) < 128" using less.prems r_def by simp
  note step = process_cont_frame [OF less.prems(1,2) _ less.prems(3,4,5), of active allocated now,
      folded r_def]
  show ?case
  proof (cases "offset + 59 < length payload")
    case True
    define t' where "t' = t\<lparr>it_report := r\<lparr>rep_seq := rep_seq r + 1, rep_payload := take (offset + 59) payload\<rparr>\<rparr>"
    have succ: "unat (rep_seq r + 1) = unat (rep_seq r) + 1"
      using seq by (simp add: unat_word_ariths)
    define cs where "cs = continuations cid payload (offset + 59) (rep_seq r + 1)"
    have unroll: "continuations cid payload offset (rep_seq r) =
        cont_frame cid (rep_seq r) (take 59 (drop offset payload)) # cs"
      using True by (simp add: continuations_step min_def cs_def)
    have "length cs \<noteq> 0"
      using True by (simp add: length_continuations cs_def)
    then obtain k where k: "length cs = Suc k"
      by (cases "length cs") auto
    have t': "it_report t' = r\<lparr>rep_seq := rep_seq r + 1, rep_payload := take (offset + 59) payload\<rparr>"
      by (simp add: t'_def)
    have "process_frames (fp\<lparr>incoming := Some t'\<rparr>) active allocated now
        (continuations cid payload (offset + 59) (rep_seq (it_report t'))) =
      (let n = length (continuations cid payload (offset + 59) (rep_seq (it_report t')))
       in (replicate (n - 1) Monostate @
            [Report ((it_report t')\<lparr>rep_seq := rep_seq (it_report t') + word_of_nat n,
               rep_payload := payload\<rparr>)],
           fp\<lparr>incoming := Some t', incoming := None\<rparr>))"
      by (rule less.hyps) (use less.prems True succ in \<open>simp_all add: t' r_def\<close>)
    then have rest: "process_frames (fp\<lparr>incoming := Some t'\<rparr>) active allocated now cs =
      (replicate k Monostate @
            [Report (r\<lparr>rep_seq := rep_seq r + 1 + word_of_nat (Suc k), rep_payload := payload\<rparr>)],
           fp\<lparr>incoming := None\<rparr>)"
      by (simp add: t' cs_def [symmetric] k add.assoc)
    have "process_frame fp (cont_frame cid (rep_seq r) (take 59 (drop offset payload)))
        active allocated now = (Monostate, fp\<lparr>incoming := Some t'\<rparr>)"
      using step seq less.prems True by (simp add: t'_def)
    with rest show ?thesis
      by (simp add: unroll r_def [symmetric] k add.assoc)
  next
    case False
    with step seq less.prems show ?thesis
      by (simp add: continuations_step r_def [symmetric] min_def)
  qed
qed

lemma process_init_frame:
  assumes inc: "incoming fp = None" and type_bit: "pkt_cmd p AND MASK \<noteq> 0"
    and command: "pkt_cmd p AND 0x7F = CTAPHID_INIT \<Longrightarrow> pkt_len p = 8"
      "pkt_cmd p AND 0x7F \<noteq> CTAPHID_CANCEL"
    and alloc: "pkt_cid p \<in> allocated" and size: "unat (pkt_len p) \<le> 7609"
    and len: "length (pkt_payload p) = unat (pkt_len p)"
  shows "process_frame fp (init_frame p) None allocated now =
    (let report = \<lparr>rep_cid = pkt_cid p, rep_cmd = pkt_cmd p AND 0x7F, rep_len = pkt_len p,
           rep_payload = take 57 (pkt_payload p), rep_seq = 0\<rparr>
     in if length (pkt_payload p) \<le> 57 then (Report report, fp)
        else (Monostate, fp\<lparr>incoming := Some \<lparr>it_report = report,
               it_deadline = now + message_assembly_timeout\<rparr>\<rparr>))"
proof -
  let ?f = "init_frame p"
  have fields: "frame_cid ?f = pkt_cid p" "?f ! 4 = pkt_cmd p" "of_be16 (?f ! 5) (?f ! 6) = pkt_len p"
    "drop 7 ?f = pad_zero 57 (take 57 (pkt_payload p))"
    using be16_nth by (simp_all add: init_frame_def nth_append)
  have "take (min (unat (pkt_len p)) 57) (pad_zero 57 (take 57 (pkt_payload p))) =
      take 57 (pkt_payload p)"
    using len by (simp add: min_def)
  then show ?thesis
    using assms
    by (auto simp: process_frame_def process_initial_def start_transaction_def fields Let_def
        ctaphid_defs min_def)
qed

section \<open>Properties\<close>

text \<open>
  C1.  Transport round trip: the frames \<open>stringify\<close> produces for a message on an allocated channel,
  received in order by an idle processor, are absorbed silently up to the last one, which yields
  exactly the message (channel, command without the type bit, length and payload); the processor is
  idle again.
\<close>

theorem stringify_process_roundtrip:
  assumes "stringify p = Inr frames" and idle: "incoming fp = None"
    and "pkt_cmd p AND MASK \<noteq> 0" "pkt_cid p \<in> allocated"
    and "pkt_cmd p AND 0x7F = CTAPHID_INIT \<longrightarrow> pkt_len p = 8" "pkt_cmd p AND 0x7F \<noteq> CTAPHID_CANCEL"
  shows "process_frames fp None allocated now frames =
    (replicate (length frames - 1) Monostate @
      [Report \<lparr>rep_cid = pkt_cid p, rep_cmd = pkt_cmd p AND 0x7F, rep_len = pkt_len p,
               rep_payload = pkt_payload p, rep_seq = word_of_nat (length frames - 1)\<rparr>], fp)"
proof -
  let ?cs = "continuations (pkt_cid p) (pkt_payload p) (min 57 (length (pkt_payload p))) 0"
  have frames: "frames = init_frame p # ?cs" "length (pkt_payload p) = unat (pkt_len p)"
    "unat (pkt_len p) \<le> 7609"
    using assms(1) by (simp_all add: stringify_eq CTAPHID_MAX_PAYLOAD_SIZE_def split: if_splits)
  have first: "process_frame fp (init_frame p) None allocated now =
    (let report = \<lparr>rep_cid = pkt_cid p, rep_cmd = pkt_cmd p AND 0x7F, rep_len = pkt_len p,
           rep_payload = take 57 (pkt_payload p), rep_seq = 0\<rparr>
     in if length (pkt_payload p) \<le> 57 then (Report report, fp)
        else (Monostate, fp\<lparr>incoming := Some \<lparr>it_report = report,
               it_deadline = now + message_assembly_timeout\<rparr>\<rparr>))"
    by (rule process_init_frame) (use assms frames in simp_all)
  show ?thesis
  proof (cases "length (pkt_payload p) \<le> 57")
    case True
    with first frames show ?thesis by simp
  next
    case False
    define t where "t = \<lparr>it_report = \<lparr>rep_cid = pkt_cid p, rep_cmd = pkt_cmd p AND 0x7F,
       rep_len = pkt_len p, rep_payload = take 57 (pkt_payload p), rep_seq = 0\<rparr>,
       it_deadline = now + message_assembly_timeout\<rparr>"
    define cs where "cs = continuations (pkt_cid p) (pkt_payload p) 57 0"
    have "length cs \<noteq> 0" using False by (simp add: cs_def length_continuations)
    then obtain k where k: "length cs = Suc k" by (cases "length cs") auto
    have "process_frames (fp\<lparr>incoming := Some t\<rparr>) None allocated now
        (continuations (pkt_cid p) (pkt_payload p) 57 (rep_seq (it_report t))) =
      (let n = length (continuations (pkt_cid p) (pkt_payload p) 57 (rep_seq (it_report t)))
       in (replicate (n - 1) Monostate @
            [Report ((it_report t)\<lparr>rep_seq := rep_seq (it_report t) + word_of_nat n,
               rep_payload := pkt_payload p\<rparr>)],
           fp\<lparr>incoming := Some t, incoming := None\<rparr>))"
      by (rule process_continuations) (use False frames in \<open>simp_all add: t_def\<close>)
    then have "process_frames (fp\<lparr>incoming := Some t\<rparr>) None allocated now cs =
       (replicate k Monostate @
         [Report \<lparr>rep_cid = pkt_cid p, rep_cmd = pkt_cmd p AND 0x7F, rep_len = pkt_len p,
            rep_payload = pkt_payload p, rep_seq = word_of_nat (length cs)\<rparr>], fp)"
      using idle by (simp add: t_def cs_def [symmetric] k)
    moreover have "frames = init_frame p # cs" using False frames by (simp add: cs_def min_def)
    ultimately show ?thesis
      using first False by (simp add: t_def k)
  qed
qed

theorem stringify_process_roundtrip_witness:
  "process_frames \<lparr>incoming = None\<rparr> None {7} 0
     (init_frame \<lparr>pkt_cid = 7, pkt_cmd = 0x81, pkt_len = 60, pkt_payload = replicate 60 5\<rparr> #
      [cont_frame 7 0 (replicate 3 5)]) =
   ([Monostate, Report \<lparr>rep_cid = 7, rep_cmd = 1, rep_len = 60, rep_payload = replicate 60 5,
       rep_seq = 1\<rparr>], \<lparr>incoming = None\<rparr>)"
  using stringify_process_roundtrip
    [of "\<lparr>pkt_cid = 7, pkt_cmd = 0x81, pkt_len = 60, pkt_payload = replicate 60 5\<rparr>" _
      "\<lparr>incoming = None\<rparr>" "{7}" 0]
  by (simp add: stringify_eq continuations_step ctaphid_defs)

text \<open>
  C2.  Every frame, of any size and from any channel, keeps the processor invariant; a report it
  completes has exactly the announced length, is within the transport limit, and comes from an
  allocated channel unless it is a broadcast INIT.
\<close>

theorem process_frame_invariant:
  assumes "processor_ok allocated fp"
  shows "processor_ok allocated (snd (process_frame fp raw active allocated now)) \<and>
    (\<forall>rep. fst (process_frame fp raw active allocated now) = Report rep \<longrightarrow> report_ok allocated rep)"
  using process_frame_ok [OF assms] by (metis prod.collapse)

theorem process_frame_invariant_witness:
  "processor_ok {7} (snd (process_frame \<lparr>incoming = None\<rparr> (be32 7 @ [0x90, 0, 200] @ replicate 57 1)
     None {7} 0))"
  using process_frame_invariant [of "{7}" "\<lparr>incoming = None\<rparr>"] by (simp add: processor_ok_def)




text \<open>
  C4.  While an operation runs on a channel, the idle processor stays idle and completes nothing but
  an INIT or a CANCEL of that very channel.
\<close>

theorem active_admits_control_only:
  assumes "incoming fp = None" "process_frame fp raw (Some active) allocated now = (r, fp')"
  shows "fp' = fp \<and>
    (\<forall>rep. r = Report rep \<longrightarrow>
       rep_cid rep = active \<and> (rep_cmd rep = CTAPHID_INIT \<or> rep_cmd rep = CTAPHID_CANCEL))"
proof -
  define frame where "frame = strip_report_id raw"
  consider "length frame \<noteq> 64" | "length frame = 64" "frame ! 4 AND MASK = 0"
    | "length frame = 64" "process_initial fp frame (Some active) allocated now = (r, fp')"
    using assms(2) by (auto simp: process_frame_def frame_def Let_def split: if_splits)
  then show ?thesis
  proof cases
    case 3
    have complete: "start_transaction fp frame cid command len now =
        (Report \<lparr>rep_cid = cid, rep_cmd = command, rep_len = len,
           rep_payload = take (unat len) (drop 7 frame), rep_seq = 0\<rparr>, fp)"
      if "len = 8 \<or> len = 0" for cid command len
      using that 3(1) by (auto simp: start_transaction_def ctaphid_defs)
    from 3 assms(1) show ?thesis
      by (auto simp: process_initial_def Let_def complete split: if_splits)
  qed (use assms in \<open>auto simp: process_frame_def frame_def process_continuation_def Let_def\<close>)
qed

theorem active_admits_control_only_witness:
  "snd (process_frame \<lparr>incoming = None\<rparr> (be32 7 @ [0x91, 0, 0] @ replicate 57 0) (Some 7) {7} 5) =
     \<lparr>incoming = None\<rparr>"
  using active_admits_control_only
    [of "\<lparr>incoming = None\<rparr>" "be32 7 @ [0x91, 0, 0] @ replicate 57 0" 7 "{7}" 5] by (metis
      CTAPHIDFrameProcessor.select_convs(1) prod.collapse)

text \<open>
  The assembly deadline is fixed when the message starts: a frame either keeps the transaction's
  deadline or starts a new transaction with three seconds to run, and once the deadline is reached
  \<open>expire\<close> drops the transaction with a timeout error for its channel.
\<close>

theorem assembly_deadline_fixed:
  assumes "process_frame fp raw active allocated now = (r, fp')" "incoming fp' = Some t'"
  shows "((\<exists>t. incoming fp = Some t \<and> it_deadline t' = it_deadline t \<and>
            rep_cid (it_report t') = rep_cid (it_report t)) \<or> it_deadline t' = now + seconds 3) \<and>
    (now' \<ge> it_deadline t' \<longrightarrow>
       expire_transaction fp' now' =
         (Some \<lparr>fpe_cid = rep_cid (it_report t'), fpe_error = CTAP1_ERR_TIMEOUT\<rparr>, fp'\<lparr>incoming := None\<rparr>))"
proof -
  define frame where "frame = strip_report_id raw"
  have "(\<exists>t. incoming fp = Some t \<and> it_deadline t' = it_deadline t \<and>
            rep_cid (it_report t') = rep_cid (it_report t)) \<or> it_deadline t' = now + seconds 3"
    using assms
    by (auto simp: process_frame_def frame_def [symmetric] process_continuation_def process_initial_def
        start_transaction_def message_assembly_timeout_def Let_def split: if_splits option.splits)
  then show ?thesis
    using assms(2) by (simp add: expire_transaction_def)
qed

theorem assembly_deadline_fixed_witness:
  "expire_transaction \<lparr>incoming = Some \<lparr>it_report = \<lparr>rep_cid = 7, rep_cmd = 1, rep_len = 60,
      rep_payload = replicate 57 5, rep_seq = 0\<rparr>, it_deadline = seconds 3\<rparr>\<rparr> (seconds 3) =
   (Some \<lparr>fpe_cid = 7, fpe_error = CTAP1_ERR_TIMEOUT\<rparr>, \<lparr>incoming = None\<rparr>)"
  (is "expire_transaction ?fp _ = _")
proof -
  have "process_frame ?fp [] None {} 0 = (Monostate, ?fp)"
    by (simp add: process_frame_def strip_report_id_def)
  from assembly_deadline_fixed [OF this] show ?thesis by simp
qed

end
