(* ===== verification/Event_Loop.thy ===== *)
theory Event_Loop
  imports Frame_Processor
begin

text \<open>
  The daemon's event loop (\<open>event.cpp\<close>) with the worker thread that runs one CTAP command at a time
  (\<open>device.cpp\<close>: \<open>execute_ctap_request\<close>).  One iteration of the loop is a function of the poll
  outcome, the clock readings and the random numbers it draws; the worker's steps interleave with
  iterations in the relation \<open>loop_step\<close>.  The command handler is an argument: \<open>handle\<close> runs a
  command on the handler state \<open>'h\<close>, \<open>reset\<close> is its \<open>reset\<close> method.
\<close>

section \<open>State\<close>

datatype KeepaliveStatus = processing | up_needed

primrec keepalive_code :: "KeepaliveStatus \<Rightarrow> u8" where
  "keepalive_code processing = 0x01"
| "keepalive_code up_needed = 0x02"

record ActiveTask =
  task_generation :: u64
  task_cid :: u32
  task_keepalive :: KeepaliveStatus
  task_next_keepalive :: time
  task_cancel_requested :: bool
  task_discard_result :: bool

record TaskResult =
  res_generation :: u64
  res_cid :: u32
  res_packet :: CTAPPacket

text \<open>The thread object: its captured request and generation, its stop source, and whether its
  body has finished.  \<open>None\<close> in the loop state means that there is no thread to join.\<close>

record Worker =
  wk_request :: UHIDReport
  wk_generation :: u64
  wk_stop_requested :: bool
  wk_finished :: bool

record 'h Loop =
  allocated_cids :: "u32 set"
  completion :: "TaskResult option"
  active :: "ActiveTask option"
  next_generation :: u64
  command_handler :: 'h
  worker :: "Worker option"
  frame_processor :: CTAPHIDFrameProcessor

definition initial_loop :: "'h \<Rightarrow> 'h Loop" where
  "initial_loop h = \<lparr>allocated_cids = {}, completion = None, active = None, next_generation = 1,
     command_handler = h, worker = None, frame_processor = \<lparr>incoming = None\<rparr>\<rparr>"

section \<open>Helpers of the loop\<close>

definition milliseconds_until :: "time \<Rightarrow> time \<Rightarrow> int" where
  "milliseconds_until deadline now =
     (if deadline \<le> now then 0
      else let count = (deadline - now + 999999) div 1000000 in
           if count > 2147483647 then 2147483647 else int count)"

definition poll_timeout :: "'h Loop \<Rightarrow> time \<Rightarrow> int" where
  "poll_timeout ls now =
     (let timeout = (case active ls of
            None \<Rightarrow> -1
          | Some task \<Rightarrow> if task_cancel_requested task then 20
                        else milliseconds_until (task_next_keepalive task) now)
      in case transaction_deadline (frame_processor ls) of
           None \<Rightarrow> timeout
         | Some deadline \<Rightarrow>
             let assembly_timeout = milliseconds_until deadline now in
             if timeout < 0 \<or> assembly_timeout < timeout then assembly_timeout else timeout)"

text \<open>\<open>send_packet\<close>: the frames written to the device; \<open>device_ok\<close> tells whether the writes succeed.\<close>

definition send_packet :: "bool \<Rightarrow> CTAPPacket \<Rightarrow> bytes list result" where
  "send_packet device_ok packet =
     bind_result (stringify packet) (\<lambda>frames.
       if device_ok then Inr frames else Inl (RuntimeError ''Failed to send UHID response''))"

primrec send_packets :: "bool \<Rightarrow> CTAPPacket list \<Rightarrow> bytes list result" where
  "send_packets device_ok [] = Inr []"
| "send_packets device_ok (packet # packets) =
     bind_result (send_packet device_ok packet) (\<lambda>frames.
     bind_result (send_packets device_ok packets) (\<lambda>rest. Inr (frames @ rest)))"

definition keepalive_packet :: "u32 \<Rightarrow> KeepaliveStatus \<Rightarrow> CTAPPacket" where
  "keepalive_packet cid status =
     \<lparr>pkt_cid = cid, pkt_cmd = CTAPHID_KEEPALIVE OR MASK, pkt_len = 1,
      pkt_payload = [keepalive_code status]\<rparr>"

text \<open>\<open>allocate_cid\<close> draws random channel numbers until one is acceptable; \<open>None\<close> means that the
  numbers supplied were all refused.\<close>

primrec allocate_cid :: "u32 list \<Rightarrow> u32 set \<Rightarrow> (u32 \<times> u32 set) option" where
  "allocate_cid [] allocated = None"
| "allocate_cid (candidate # random) allocated =
     (if candidate = CTAPHID_BROADCAST_CID \<or> candidate = CTAPHID_INVALID_CID \<or>
         candidate \<in> allocated
      then allocate_cid random allocated
      else Some (candidate, insert candidate allocated))"

section \<open>The worker\<close>

definition execute_ctap_request ::
    "(UHIDReport \<Rightarrow> 'h \<Rightarrow> CTAPPacket result \<times> 'h) \<Rightarrow> ('h \<Rightarrow> 'h) \<Rightarrow> UHIDReport \<Rightarrow> bool \<Rightarrow> 'h \<Rightarrow>
     CTAPPacket result \<times> 'h" where
  "execute_ctap_request handle reset report stop h =
     (if stop then (Inl OperationCancelled, reset h)
      else case handle report h of
             (Inl e, h') \<Rightarrow> (Inl e, reset h')
           | (Inr packet, h') \<Rightarrow> (Inr packet, h'))"

definition worker_packet :: "u32 \<Rightarrow> CTAPPacket result \<Rightarrow> CTAPPacket" where
  "worker_packet cid r =
     (case r of
        Inr packet \<Rightarrow> packet
      | Inl OperationCancelled \<Rightarrow> make_cbor_error cid CTAP2_ERR_KEEPALIVE_CANCEL
      | Inl UserActionTimedOut \<Rightarrow> make_cbor_error cid CTAP2_ERR_OPERATION_DENIED
      | Inl _ \<Rightarrow> make_cbor_error cid CTAP1_ERR_OTHER)"

text \<open>The body of the worker thread run to its end; \<open>stop\<close> is what it saw of its stop token when
  it started.\<close>

definition worker_body ::
    "(UHIDReport \<Rightarrow> 'h \<Rightarrow> CTAPPacket result \<times> 'h) \<Rightarrow> ('h \<Rightarrow> 'h) \<Rightarrow> Worker \<Rightarrow> bool \<Rightarrow> 'h \<Rightarrow>
     TaskResult \<times> 'h" where
  "worker_body handle reset w stop h =
     (case execute_ctap_request handle reset (wk_request w) stop h of
        (r, h') \<Rightarrow> (\<lparr>res_generation = wk_generation w, res_cid = rep_cid (wk_request w),
                    res_packet = worker_packet (rep_cid (wk_request w)) r\<rparr>, h'))"

section \<open>Handling a completed report\<close>

text \<open>
  The body of the loop for one completed request: \<open>continue\<close> skips the rest of the iteration,
  \<open>fall_through\<close> reaches it.
\<close>

datatype Flow = continue | fall_through

definition request_stop :: "'h Loop \<Rightarrow> 'h Loop" where
  "request_stop ls = ls\<lparr>worker := map_option (\<lambda>w. w\<lparr>wk_stop_requested := True\<rparr>) (worker ls)\<rparr>"

definition handle_cancel :: "UHIDReport \<Rightarrow> 'h Loop \<Rightarrow> 'h Loop" where
  "handle_cancel request ls =
     (case active ls of
        Some task \<Rightarrow>
          if task_cid task = rep_cid request \<and> \<not> task_discard_result task then
            request_stop (ls\<lparr>active := Some (task\<lparr>task_cancel_requested := True\<rparr>)\<rparr>)
          else ls
      | None \<Rightarrow> ls)"

definition handle_init_request ::
    "('h \<Rightarrow> 'h) \<Rightarrow> u32 list \<Rightarrow> UHIDReport \<Rightarrow> 'h Loop \<Rightarrow> (CTAPPacket \<times> 'h Loop) option" where
  "handle_init_request reset random request ls =
     (if rep_payload request = [] then
        Some (make_hid_error (rep_cid request) HIDError.CTAP1_ERR_INVALID_LENGTH, ls)
      else if active ls \<noteq> None \<and> task_cid (the (active ls)) \<noteq> rep_cid request then
        Some (make_hid_error (rep_cid request) CTAP1_ERR_CHANNEL_BUSY, ls)
      else if rep_cid request = CTAPHID_BROADCAST_CID then
        (case allocate_cid random (allocated_cids ls) of
           None \<Rightarrow> None
         | Some (cid, allocated) \<Rightarrow>
             Some (handle_init request cid, ls\<lparr>allocated_cids := allocated\<rparr>))
      else if rep_cid request \<notin> allocated_cids ls then
        Some (make_hid_error (rep_cid request) CTAP1_ERR_INVALID_CHANNEL, ls)
      else
        (case active ls of
           Some task \<Rightarrow>
             Some (handle_init request (rep_cid request),
               request_stop (ls\<lparr>active :=
                 Some (task\<lparr>task_cancel_requested := True, task_discard_result := True\<rparr>)\<rparr>))
         | None \<Rightarrow>
             Some (handle_init request (rep_cid request),
               ls\<lparr>command_handler := reset (command_handler ls)\<rparr>)))"

definition start_task :: "UHIDReport \<Rightarrow> time \<Rightarrow> 'h Loop \<Rightarrow> 'h Loop" where
  "start_task request now ls =
     ls\<lparr>next_generation := next_generation ls + 1,
        active := Some \<lparr>task_generation = next_generation ls, task_cid = rep_cid request,
          task_keepalive = processing, task_next_keepalive = now + milliseconds 100,
          task_cancel_requested = False, task_discard_result = False\<rparr>,
        worker := Some \<lparr>wk_request = request, wk_generation = next_generation ls,
          wk_stop_requested = False, wk_finished = False\<rparr>\<rparr>"

definition handle_report ::
    "('h \<Rightarrow> 'h) \<Rightarrow> u32 list \<Rightarrow> time \<Rightarrow> UHIDReport \<Rightarrow> 'h Loop \<Rightarrow> (CTAPPacket list \<times> Flow \<times> 'h Loop) option" where
  "handle_report reset random now request ls =
     (let refuse = (\<lambda>e. Some ([make_hid_error (rep_cid request) e], continue, ls)) in
      if rep_cmd request = CTAPHID_CANCEL then Some ([], continue, handle_cancel request ls)
      else if rep_cmd request = CTAPHID_INIT then
        map_option (\<lambda>(packet, ls'). ([packet], continue, ls')) (handle_init_request reset random request ls)
      else if rep_cid request \<notin> allocated_cids ls then refuse CTAP1_ERR_INVALID_CHANNEL
      else if active ls \<noteq> None then refuse CTAP1_ERR_CHANNEL_BUSY
      else if rep_cmd request = CTAPHID_PING then Some ([handle_ping request], continue, ls)
      else if rep_cmd request = CTAPHID_CBOR then
        if rep_payload request = [] then refuse HIDError.CTAP1_ERR_INVALID_LENGTH
        else Some ([], fall_through, start_task request now ls)
      else refuse HIDError.CTAP1_ERR_INVALID_COMMAND)"

section \<open>One iteration\<close>

record Input =
  in_poll_failed :: bool
  in_shutdown_error :: bool
  in_shutdown_signal :: "bool option"
  in_device_error :: bool
  in_device_ready :: bool
  in_device_get :: bool
  in_output :: "bytes option"
  in_now :: time
  in_process_now :: time
  in_task_now :: time
  in_keepalive_now :: time
  in_random :: "u32 list"
  in_send_ok :: bool

text \<open>The timeout of a half-received message.\<close>

definition loop_expire :: "time \<Rightarrow> 'h Loop \<Rightarrow> CTAPPacket list \<times> 'h Loop" where
  "loop_expire now ls =
     (case expire_transaction (frame_processor ls) now of
        (e, fp) \<Rightarrow>
          (case e of None \<Rightarrow> [] | Some err \<Rightarrow> [make_hid_error (fpe_cid err) (fpe_error err)],
           ls\<lparr>frame_processor := fp\<rparr>))"

definition loop_device ::
    "('h \<Rightarrow> 'h) \<Rightarrow> Input \<Rightarrow> 'h Loop \<Rightarrow> (CTAPPacket list \<times> Flow \<times> 'h Loop) option" where
  "loop_device reset inp ls =
     (if \<not> in_device_ready inp then Some ([], fall_through, ls)
      else if \<not> in_device_get inp then Some ([], continue, ls)
      else case in_output inp of
             None \<Rightarrow> Some ([], fall_through, ls)
           | Some data \<Rightarrow>
               (case process_frame (frame_processor ls) data (map_option task_cid (active ls))
                       (allocated_cids ls) (in_process_now inp) of
                  (r, fp) \<Rightarrow>
                    let ls' = ls\<lparr>frame_processor := fp\<rparr> in
                    (case r of
                       ProcessingError err \<Rightarrow>
                         Some ([make_hid_error (fpe_cid err) (fpe_error err)], continue, ls')
                     | Report request \<Rightarrow>
                         handle_report reset (in_random inp) (in_task_now inp) request ls'
                     | Monostate \<Rightarrow> Some ([], fall_through, ls'))))"

text \<open>Delivery of a finished worker's result.\<close>

definition loop_completion :: "('h \<Rightarrow> 'h) \<Rightarrow> 'h Loop \<Rightarrow> CTAPPacket list \<times> 'h Loop" where
  "loop_completion reset ls =
     (let ls' = ls\<lparr>completion := None\<rparr> in
      case (completion ls, active ls) of
        (Some ready, Some task) \<Rightarrow>
          if res_generation ready = task_generation task then
            if \<not> task_discard_result task then
              ([res_packet ready], ls'\<lparr>worker := None, active := None\<rparr>)
            else ([], ls'\<lparr>worker := None, command_handler := reset (command_handler ls), active := None\<rparr>)
          else ([], ls')
      | _ \<Rightarrow> ([], ls'))"

definition loop_keepalive :: "time \<Rightarrow> 'h Loop \<Rightarrow> CTAPPacket list \<times> 'h Loop" where
  "loop_keepalive now ls =
     (case active ls of
        None \<Rightarrow> ([], ls)
      | Some task \<Rightarrow>
          if task_next_keepalive task \<le> now \<and> \<not> task_cancel_requested task then
            ([keepalive_packet (task_cid task) (task_keepalive task)],
             ls\<lparr>active := Some (task\<lparr>task_next_keepalive := now + milliseconds 100\<rparr>)\<rparr>)
          else ([], ls))"

text \<open>How an iteration ends: by an exception, by a clean shutdown, or by looping.\<close>

datatype Ending = Threw exn | Shut_down | Looped

text \<open>The iteration after the shutdown checks: the packets sent and the next state; \<open>None\<close> when
  the random numbers supplied do not suffice.\<close>

definition loop_body :: "('h \<Rightarrow> 'h) \<Rightarrow> Input \<Rightarrow> 'h Loop \<Rightarrow> (CTAPPacket list \<times> 'h Loop) option" where
  "loop_body reset inp ls =
     (let (sent1, ls1) = loop_expire (in_now inp) ls in
      case loop_device reset inp ls1 of
        None \<Rightarrow> None
      | Some (sent2, continue, ls2) \<Rightarrow> Some (sent1 @ sent2, ls2)
      | Some (sent2, fall_through, ls2) \<Rightarrow>
          let (sent3, ls3) = loop_completion reset ls2;
              (sent4, ls4) = loop_keepalive (in_keepalive_now inp) ls3
          in Some (sent1 @ sent2 @ sent3 @ sent4, ls4))"

definition loop_iteration ::
    "('h \<Rightarrow> 'h) \<Rightarrow> Input \<Rightarrow> 'h Loop \<Rightarrow> (CTAPPacket list \<times> Ending \<times> 'h Loop) option" where
  "loop_iteration reset inp ls =
     (if in_poll_failed inp then Some ([], Threw (SystemError ''Failed to poll UHID device''), ls)
      else if in_shutdown_error inp then
        Some ([], Threw (RuntimeError ''Shutdown signal polling failed''), ls)
      else case in_shutdown_signal inp of
             Some read_ok \<Rightarrow>
               if \<not> read_ok then Some ([], Threw (RuntimeError ''Failed to read shutdown signal''), ls)
               else Some ([], Shut_down, (request_stop ls)\<lparr>worker := None\<rparr>)
           | None \<Rightarrow>
               if in_device_error inp then Some ([], Threw (RuntimeError ''UHID polling failed''), ls)
               else map_option (\<lambda>(sent, ls').
                 (case send_packets (in_send_ok inp) sent of
                    Inl e \<Rightarrow> (sent, Threw e, ls')
                  | Inr _ \<Rightarrow> (sent, Looped, ls'))) (loop_body reset inp ls))"

section \<open>Interleaving with the worker\<close>

text \<open>
  The steps of the daemon: a loop iteration that loops, the end of the worker's body, and a change
  of the keepalive status by the running worker.  \<open>handle\<close> takes an environment \<open>env\<close> that stands for
  everything a command depends on besides the request and the handler.
\<close>

inductive loop_step ::
    "('e \<Rightarrow> UHIDReport \<Rightarrow> 'h \<Rightarrow> CTAPPacket result \<times> 'h) \<Rightarrow> ('h \<Rightarrow> 'h) \<Rightarrow>
     'h Loop \<Rightarrow> CTAPPacket list \<Rightarrow> 'h Loop \<Rightarrow> bool"
  for handle :: "'e \<Rightarrow> UHIDReport \<Rightarrow> 'h \<Rightarrow> CTAPPacket result \<times> 'h" and reset :: "'h \<Rightarrow> 'h" where
  iterate: "loop_iteration reset inp ls = Some (sent, Looped, ls') \<Longrightarrow> loop_step handle reset ls sent ls'"
| finish: "worker ls = Some w \<Longrightarrow> \<not> wk_finished w \<Longrightarrow> stop \<longrightarrow> wk_stop_requested w \<Longrightarrow>
     worker_body (handle env) reset w stop (command_handler ls) = (res, h') \<Longrightarrow>
     loop_step handle reset ls []
       (ls\<lparr>completion := Some res, command_handler := h', worker := Some (w\<lparr>wk_finished := True\<rparr>)\<rparr>)"
| keepalive: "worker ls = Some w \<Longrightarrow> \<not> wk_finished w \<Longrightarrow> active ls = Some task \<Longrightarrow>
     loop_step handle reset ls [] (ls\<lparr>active := Some (task\<lparr>task_keepalive := status\<rparr>)\<rparr>)"

inductive loop_reachable ::
    "('e \<Rightarrow> UHIDReport \<Rightarrow> 'h \<Rightarrow> CTAPPacket result \<times> 'h) \<Rightarrow> ('h \<Rightarrow> 'h) \<Rightarrow> 'h \<Rightarrow> 'h Loop \<Rightarrow> bool"
  for handle :: "'e \<Rightarrow> UHIDReport \<Rightarrow> 'h \<Rightarrow> CTAPPacket result \<times> 'h" and reset :: "'h \<Rightarrow> 'h" and h0 :: 'h where
  start: "loop_reachable handle reset h0 (initial_loop h0)"
| step: "loop_reachable handle reset h0 ls \<Longrightarrow> loop_step handle reset ls sent ls' \<Longrightarrow>
     loop_reachable handle reset h0 ls'"

section \<open>Invariant\<close>

definition task_ok :: "'h Loop \<Rightarrow> ActiveTask \<Rightarrow> bool" where
  "task_ok ls task \<longleftrightarrow>
     incoming (frame_processor ls) = None \<and> task_cid task \<in> allocated_cids ls \<and>
     (task_discard_result task \<longrightarrow> task_cancel_requested task) \<and>
     (\<exists>w. worker ls = Some w \<and>
        wk_generation w = task_generation task \<and> rep_cid (wk_request w) = task_cid task \<and>
        rep_payload (wk_request w) \<noteq> [] \<and> rep_cmd (wk_request w) = CTAPHID_CBOR \<and>
        wk_stop_requested w = task_cancel_requested task \<and>
        (wk_finished w \<longleftrightarrow> completion ls \<noteq> None)) \<and>
     (\<forall>r. completion ls = Some r \<longrightarrow>
        res_generation r = task_generation task \<and> pkt_cid (res_packet r) = task_cid task \<and>
        is_ok (stringify (res_packet r)))"

definition loop_ok :: "'h Loop \<Rightarrow> bool" where
  "loop_ok ls \<longleftrightarrow>
     processor_ok (allocated_cids ls) (frame_processor ls) \<and>
     CTAPHID_INVALID_CID \<notin> allocated_cids ls \<and> CTAPHID_BROADCAST_CID \<notin> allocated_cids ls \<and>
     (case active ls of
        None \<Rightarrow> worker ls = None \<and> completion ls = None
      | Some task \<Rightarrow> task_ok ls task)"

section \<open>Lemmas\<close>

lemma allocate_cid_Some:
  "allocate_cid random allocated = Some (cid, allocated') \<Longrightarrow>
   cid \<notin> allocated \<and> cid \<noteq> CTAPHID_BROADCAST_CID \<and> cid \<noteq> CTAPHID_INVALID_CID \<and>
   allocated' = insert cid allocated"
  by (induction random) (auto split: if_splits)

lemma processor_ok_mono: "processor_ok A fp \<Longrightarrow> A \<subseteq> B \<Longrightarrow> processor_ok B fp"
  by (auto simp: processor_ok_def transaction_ok_def Let_def split: option.splits)

lemma processor_ok_idle [simp]: "incoming fp = None \<Longrightarrow> processor_ok A fp"
  by (simp add: processor_ok_def)

lemma expire_ok:
  "expire_transaction fp now = (e, fp') \<Longrightarrow> processor_ok A fp \<Longrightarrow>
   processor_ok A fp' \<and> (incoming fp = None \<longrightarrow> fp' = fp)"
  by (auto simp: expire_transaction_def split: option.splits if_splits)

lemma loop_ok_frame_processor:
  assumes "loop_ok ls" "processor_ok (allocated_cids ls) fp" "active ls \<noteq> None \<Longrightarrow> incoming fp = None"
  shows "loop_ok (ls\<lparr>frame_processor := fp\<rparr>)"
  using assms by (cases "active ls") (simp_all add: loop_ok_def task_ok_def)

lemma loop_ok_active_idle: "loop_ok ls \<Longrightarrow> active ls = Some task \<Longrightarrow> incoming (frame_processor ls) = None"
  by (simp add: loop_ok_def task_ok_def)

lemma loop_expire_ok:
  assumes ok: "loop_ok ls" and run: "loop_expire now ls = (sent, ls')"
  shows "loop_ok ls'" "\<exists>fp. ls' = ls\<lparr>frame_processor := fp\<rparr>"
    "p \<in> set sent \<Longrightarrow> is_ok (stringify p) \<and> pkt_cmd p = CTAPHID_ERROR OR MASK"
proof -
  obtain e fp where e: "expire_transaction (frame_processor ls) now = (e, fp)" by fastforce
  then have ls': "ls' = ls\<lparr>frame_processor := fp\<rparr>"
    "sent = (case e of None \<Rightarrow> [] | Some err \<Rightarrow> [make_hid_error (fpe_cid err) (fpe_error err)])"
    using run by (simp_all add: loop_expire_def)
  have fp: "processor_ok (allocated_cids ls) fp \<and> (incoming (frame_processor ls) = None \<longrightarrow> fp = frame_processor ls)"
    using expire_ok [OF e] ok by (simp add: loop_ok_def)
  then show "loop_ok ls'"
    using ok loop_ok_active_idle [OF ok] unfolding ls' by (intro loop_ok_frame_processor) auto
  show "\<exists>fp. ls' = ls\<lparr>frame_processor := fp\<rparr>" using ls' by blast
  show "is_ok (stringify p) \<and> pkt_cmd p = CTAPHID_ERROR OR MASK" if "p \<in> set sent"
    using that ls'(2) by (auto split: option.splits)
qed

lemma request_stop_simps [simp]:
  "active (request_stop ls) = active ls" "completion (request_stop ls) = completion ls"
  "allocated_cids (request_stop ls) = allocated_cids ls"
  "frame_processor (request_stop ls) = frame_processor ls"
  "command_handler (request_stop ls) = command_handler ls"
  "worker (request_stop ls) = map_option (\<lambda>w. w\<lparr>wk_stop_requested := True\<rparr>) (worker ls)"
  by (simp_all add: request_stop_def)

lemma handle_cancel_ok: "loop_ok ls \<Longrightarrow> loop_ok (handle_cancel request ls)"
  by (auto simp: handle_cancel_def loop_ok_def task_ok_def split: option.splits)

lemma handle_init_request_ok:
  assumes ok: "loop_ok ls" and run: "handle_init_request reset random request ls = Some (packet, ls')"
  shows "loop_ok ls'"
proof -
  have grow: "loop_ok (ls\<lparr>allocated_cids := allocated\<rparr>)"
    if "allocate_cid random (allocated_cids ls) = Some (cid, allocated)" for cid allocated
  proof -
    note a = allocate_cid_Some [OF that]
    then have sub: "allocated_cids ls \<subseteq> allocated" by auto
    have "processor_ok allocated (frame_processor ls)"
      using ok processor_ok_mono [OF _ sub] by (simp add: loop_ok_def)
    with ok a show ?thesis
      by (cases "active ls") (auto simp: loop_ok_def task_ok_def)
  qed
  have stop: "loop_ok (request_stop (ls\<lparr>active :=
        Some (task\<lparr>task_cancel_requested := True, task_discard_result := True\<rparr>)\<rparr>))"
    if "active ls = Some task" for task
    using ok that by (auto simp: loop_ok_def task_ok_def)
  have "loop_ok (ls\<lparr>command_handler := h\<rparr>)" for h
    using ok by (cases "active ls") (auto simp: loop_ok_def task_ok_def)
  with run ok grow stop show ?thesis
    by (auto simp: handle_init_request_def split: if_splits option.splits prod.splits)
qed

lemma start_task_ok:
  assumes "loop_ok ls" "active ls = None" "incoming (frame_processor ls) = None"
    and "rep_cid request \<in> allocated_cids ls" "rep_payload request \<noteq> []" "rep_cmd request = CTAPHID_CBOR"
  shows "loop_ok (start_task request now ls)"
  using assms by (simp add: loop_ok_def task_ok_def start_task_def)

lemma handle_report_cases:
  assumes "handle_report reset random now request ls = Some (sent, flow, ls')"
  obtains (cancel) "sent = []" "flow = continue" "ls' = handle_cancel request ls"
  | (init) packet where "handle_init_request reset random request ls = Some (packet, ls')"
      "sent = [packet]" "flow = continue"
  | (refused) e where "sent = [make_hid_error (rep_cid request) e]" "flow = continue" "ls' = ls"
  | (ping) "active ls = None" "sent = [handle_ping request]" "flow = continue" "ls' = ls"
  | (task) "active ls = None" "rep_cid request \<in> allocated_cids ls" "rep_payload request \<noteq> []"
      "rep_cmd request = CTAPHID_CBOR" "sent = []" "flow = fall_through" "ls' = start_task request now ls"
proof (cases "rep_cmd request = CTAPHID_CANCEL")
  case True
  with assms cancel show ?thesis by (simp add: handle_report_def)
next
  case not_cancel: False
  show ?thesis
  proof (cases "rep_cmd request = CTAPHID_INIT")
    case True
    then obtain packet where "handle_init_request reset random request ls = Some (packet, ls')"
        "sent = [packet]" "flow = continue"
      using assms not_cancel by (auto simp: handle_report_def)
    then show ?thesis by (rule init)
  next
    case not_init: False
    then have "(\<exists>e. sent = [make_hid_error (rep_cid request) e] \<and> flow = continue \<and> ls' = ls) \<or>
      (active ls = None \<and> sent = [handle_ping request] \<and> flow = continue \<and> ls' = ls) \<or>
      (active ls = None \<and> rep_cid request \<in> allocated_cids ls \<and> rep_payload request \<noteq> [] \<and>
       rep_cmd request = CTAPHID_CBOR \<and> sent = [] \<and> flow = fall_through \<and> ls' = start_task request now ls)"
      using assms not_cancel by (simp add: handle_report_def split: if_splits) blast+
    then show ?thesis using refused ping task by blast
  qed
qed

lemma handle_report_ok:
  assumes ok: "loop_ok ls" and idle: "incoming (frame_processor ls) = None"
    and run: "handle_report reset random now request ls = Some (sent, flow, ls')"
  shows "loop_ok ls'"
  using run
proof (cases rule: handle_report_cases)
  case cancel
  then show ?thesis using handle_cancel_ok [OF ok] by simp
next
  case (init packet)
  then show ?thesis using handle_init_request_ok [OF ok] by simp
next
  case task
  then show ?thesis using start_task_ok [OF ok] idle by simp
qed (use ok in simp_all)

lemma loop_device_cases:
  assumes "loop_device reset inp ls = Some (sent, flow, ls')"
  obtains (quiet) "sent = []" "ls' = ls"
  | (error) data fp err where
      "process_frame (frame_processor ls) data (map_option task_cid (active ls)) (allocated_cids ls)
         (in_process_now inp) = (ProcessingError err, fp)"
      "sent = [make_hid_error (fpe_cid err) (fpe_error err)]" "flow = continue" "ls' = ls\<lparr>frame_processor := fp\<rparr>"
  | (partial) data fp where
      "process_frame (frame_processor ls) data (map_option task_cid (active ls)) (allocated_cids ls)
         (in_process_now inp) = (Monostate, fp)"
      "sent = []" "ls' = ls\<lparr>frame_processor := fp\<rparr>"
  | (report) data fp request where
      "process_frame (frame_processor ls) data (map_option task_cid (active ls)) (allocated_cids ls)
         (in_process_now inp) = (Report request, fp)"
      "handle_report reset (in_random inp) (in_task_now inp) request (ls\<lparr>frame_processor := fp\<rparr>) =
         Some (sent, flow, ls')"
proof (cases "in_device_ready inp \<and> in_device_get inp \<and> in_output inp \<noteq> None")
  case False
  with assms quiet show ?thesis by (auto simp: loop_device_def split: if_splits)
next
  case True
  then obtain data r fp where data: "in_output inp = Some data" and
    r: "process_frame (frame_processor ls) data (map_option task_cid (active ls))
          (allocated_cids ls) (in_process_now inp) = (r, fp)"
    by (metis not_None_eq prod.exhaust)
  then have run: "(case r of
       ProcessingError err \<Rightarrow> Some ([make_hid_error (fpe_cid err) (fpe_error err)], continue, ls\<lparr>frame_processor := fp\<rparr>)
     | Report request \<Rightarrow> handle_report reset (in_random inp) (in_task_now inp) request (ls\<lparr>frame_processor := fp\<rparr>)
     | Monostate \<Rightarrow> Some ([], fall_through, ls\<lparr>frame_processor := fp\<rparr>)) = Some (sent, flow, ls')"
    using assms True by (simp add: loop_device_def Let_def)
  show ?thesis
    by (cases r) (use run r error partial report in auto)
qed

lemma loop_device_processor:
  assumes ok: "loop_ok ls" and
    run: "process_frame (frame_processor ls) data (map_option task_cid (active ls)) (allocated_cids ls) now = (r, fp)"
  shows "loop_ok (ls\<lparr>frame_processor := fp\<rparr>)"
    "r = Report request \<Longrightarrow> incoming fp = None \<and> length (rep_payload request) \<le> CTAPHID_MAX_PAYLOAD_SIZE"
proof -
  have fp: "processor_ok (allocated_cids ls) fp \<and> (r = Report request \<longrightarrow> report_ok (allocated_cids ls) request)"
    using process_frame_ok [OF _ run] ok by (simp add: loop_ok_def)
  have "incoming fp = None" if "active ls \<noteq> None"
    using that run process_active_idle loop_ok_active_idle [OF ok] by force
  with fp show "loop_ok (ls\<lparr>frame_processor := fp\<rparr>)"
    using loop_ok_frame_processor [OF ok] by blast
  show "incoming fp = None \<and> length (rep_payload request) \<le> CTAPHID_MAX_PAYLOAD_SIZE" if "r = Report request"
    using fp that run report_leaves_idle [of "frame_processor ls" data] by (simp add: report_ok_def)
qed

lemma loop_device_ok:
  assumes ok: "loop_ok ls" and run: "loop_device reset inp ls = Some (sent, flow, ls')"
  shows "loop_ok ls'"
  using run
proof (cases rule: loop_device_cases)
  case (report data fp request)
  show ?thesis
    by (rule handle_report_ok [OF loop_device_processor(1) [OF ok report(1)] _ report(2)])
       (use loop_device_processor(2) [OF ok report(1)] in simp)
next
  case quiet
  with ok show ?thesis by simp
next
  case (error data fp err)
  show ?thesis using loop_device_processor(1) [OF ok error(1)] error(4) by simp
next
  case (partial data fp)
  show ?thesis using loop_device_processor(1) [OF ok partial(1)] partial(3) by simp
qed

lemma loop_completion_ok:
  "loop_ok ls \<Longrightarrow> loop_completion reset ls = (sent, ls') \<Longrightarrow> loop_ok ls'"
  by (auto simp: loop_completion_def loop_ok_def task_ok_def Let_def split: option.splits if_splits)

lemma loop_keepalive_ok:
  "loop_ok ls \<Longrightarrow> loop_keepalive now ls = (sent, ls') \<Longrightarrow> loop_ok ls'"
  by (auto simp: loop_keepalive_def loop_ok_def task_ok_def split: option.splits if_splits)

lemma loop_body_cases:
  assumes "loop_body reset inp ls = Some (sent, ls')"
  obtains sent1 ls1 sent2 ls2 where
    "loop_expire (in_now inp) ls = (sent1, ls1)" "loop_device reset inp ls1 = Some (sent2, continue, ls2)"
    "sent = sent1 @ sent2" "ls' = ls2"
  | sent1 ls1 sent2 ls2 sent3 ls3 sent4 where
    "loop_expire (in_now inp) ls = (sent1, ls1)" "loop_device reset inp ls1 = Some (sent2, fall_through, ls2)"
    "loop_completion reset ls2 = (sent3, ls3)" "loop_keepalive (in_keepalive_now inp) ls3 = (sent4, ls')"
    "sent = sent1 @ sent2 @ sent3 @ sent4"
  using assms by (auto simp: loop_body_def Let_def split: prod.splits option.splits Flow.splits)

lemma loop_body_ok:
  assumes "loop_ok ls" "loop_body reset inp ls = Some (sent, ls')"
  shows "loop_ok ls'"
  using assms(2)
  by (cases rule: loop_body_cases)
     (metis assms(1) loop_expire_ok(1) loop_device_ok loop_completion_ok loop_keepalive_ok)+

text \<open>What the loop sends, and what it leaves alone.\<close>

lemma handle_init_request_frame:
  assumes "handle_init_request reset random request ls = Some (packet, ls')"
  shows "completion ls' = completion ls"
    "active ls = None \<longleftrightarrow> active ls' = None"
    "active ls \<noteq> None \<Longrightarrow> command_handler ls' = command_handler ls"
    "is_ok (stringify packet)" "pkt_cid packet = rep_cid request"
    "pkt_cmd packet \<in> {CTAPHID_INIT OR MASK, CTAPHID_ERROR OR MASK}"
  using assms handle_init_cmd [of request]
  by (auto simp: handle_init_request_def split: if_splits option.splits prod.splits)

lemma handle_cancel_frame [simp]:
  "completion (handle_cancel request ls) = completion ls"
  "command_handler (handle_cancel request ls) = command_handler ls"
  by (simp_all add: handle_cancel_def split: option.split)

lemma handle_report_frame:
  assumes run: "handle_report reset random now request ls = Some (sent, flow, ls')"
    and size: "length (rep_payload request) \<le> CTAPHID_MAX_PAYLOAD_SIZE"
  shows "completion ls' = completion ls \<and>
    (active ls \<noteq> None \<longrightarrow> command_handler ls' = command_handler ls \<and> flow = continue) \<and>
    (\<forall>p \<in> set sent. is_ok (stringify p) \<and>
       pkt_cmd p \<in> {CTAPHID_INIT OR MASK, CTAPHID_ERROR OR MASK, CTAPHID_PING OR MASK})"
  using run
proof (cases rule: handle_report_cases)
  case (init packet)
  with handle_init_request_frame [OF init(1)] show ?thesis by auto
next
  case task
  then show ?thesis by (simp add: start_task_def)
qed (use size in simp_all)

lemma loop_device_frame:
  assumes ok: "loop_ok ls" and run: "loop_device reset inp ls = Some (sent, flow, ls')"
  shows "completion ls' = completion ls \<and>
    (active ls \<noteq> None \<longrightarrow> command_handler ls' = command_handler ls \<and>
       (flow = fall_through \<longrightarrow> active ls' = active ls)) \<and>
    (\<forall>p \<in> set sent. is_ok (stringify p) \<and>
       pkt_cmd p \<in> {CTAPHID_INIT OR MASK, CTAPHID_ERROR OR MASK, CTAPHID_PING OR MASK})"
  using run
proof (cases rule: loop_device_cases)
  case (report data fp request)
  have "length (rep_payload request) \<le> CTAPHID_MAX_PAYLOAD_SIZE"
    using loop_device_processor(2) [OF ok report(1)] by simp
  from handle_report_frame [OF report(2) this] show ?thesis by auto
qed simp_all

lemma loop_body_sends:
  assumes ok: "loop_ok ls" and run: "loop_body reset inp ls = Some (sent, ls')" and p: "p \<in> set sent"
  shows "is_ok (stringify p) \<and>
    (pkt_cmd p = CTAPHID_CBOR OR MASK \<longrightarrow>
       (\<exists>task r. active ls = Some task \<and> completion ls = Some r \<and> p = res_packet r \<and>
          res_generation r = task_generation task \<and> pkt_cid p = task_cid task \<and>
          \<not> task_discard_result task \<and> active ls' = None))"
  using run
proof (cases rule: loop_body_cases)
  case (1 sent1 ls1 sent2 ls2)
  with p loop_expire_ok(3) [OF ok 1(1)] loop_device_frame [OF loop_expire_ok(1) [OF ok 1(1)] 1(2)]
  show ?thesis by (auto simp: ctaphid_defs)
next
  case (2 sent1 ls1 sent2 ls2 sent3 ls3 sent4)
  note ok1 = loop_expire_ok(1) [OF ok 2(1)]
  note ok2 = loop_device_ok [OF ok1 2(2)]
  note ok3 = loop_completion_ok [OF ok2 2(3)]
  note device = loop_device_frame [OF ok1 2(2)]
  obtain fp where ls1: "ls1 = ls\<lparr>frame_processor := fp\<rparr>" using loop_expire_ok(2) [OF ok 2(1)] ..
  from p 2(5) consider "p \<in> set sent1" | "p \<in> set sent2" | "p \<in> set sent3" | "p \<in> set sent4" by auto
  then show ?thesis
  proof cases
    case 1
    with loop_expire_ok(3) [OF ok 2(1)] show ?thesis by (simp add: ctaphid_defs)
  next
    case 22: 2
    with device show ?thesis by (auto simp: ctaphid_defs)
  next
    case 3
    with 2(3) obtain task r where tr: "active ls2 = Some task" "completion ls2 = Some r" "p = res_packet r"
      "res_generation r = task_generation task" "\<not> task_discard_result task" "active ls3 = None"
      by (auto simp: loop_completion_def Let_def split: option.splits if_splits)
    have comp: "completion ls = Some r" using tr(2) device ls1 by simp
    then have "active ls \<noteq> None" using ok by (auto simp: loop_ok_def split: option.splits)
    then have act: "active ls = Some task" using device tr(1) ls1 by simp
    have "active ls' = None" using 2(4) tr(6) by (simp add: loop_keepalive_def)
    with tr comp act ok show ?thesis by (auto simp: loop_ok_def task_ok_def)
  next
    case 4
    with 2(4) show ?thesis
      by (auto simp: loop_keepalive_def keepalive_packet_def stringify_eq ctaphid_defs
          split: option.splits if_splits)
  qed
qed

lemma loop_iteration_Looped:
  assumes "loop_iteration reset inp ls = Some (sent, Looped, ls')"
  shows "loop_body reset inp ls = Some (sent, ls')"
proof -
  from assms obtain b where b: "loop_body reset inp ls = Some b"
    by (auto simp: loop_iteration_def split: if_splits option.splits)
  then show ?thesis
    using assms by (cases b; cases "send_packets (in_send_ok inp) (fst b)")
      (auto simp: loop_iteration_def split: if_splits option.splits)
qed

lemma send_packets_ok: "send_packets True sent = Inl e \<Longrightarrow> \<exists>p \<in> set sent. \<not> is_ok (stringify p)"
  by (induction sent) (auto simp: send_packet_def bind_result_def split: sum.splits)

lemma loop_body_running_worker:
  assumes ok: "loop_ok ls" and run: "loop_body reset inp ls = Some (sent, ls')"
    and busy: "worker ls = Some w" "\<not> wk_finished w"
  shows "command_handler ls' = command_handler ls"
proof -
  from ok busy have act: "active ls \<noteq> None" "completion ls = None"
    by (auto simp: loop_ok_def task_ok_def split: option.splits)
  from run show ?thesis
  proof (cases rule: loop_body_cases)
    case (1 sent1 ls1 sent2 ls2)
    obtain fp where ls1: "ls1 = ls\<lparr>frame_processor := fp\<rparr>" using loop_expire_ok(2) [OF ok 1(1)] ..
    with loop_device_frame [OF loop_expire_ok(1) [OF ok 1(1)] 1(2)] act 1(4) show ?thesis by simp
  next
    case (2 sent1 ls1 sent2 ls2 sent3 ls3 sent4)
    obtain fp where ls1: "ls1 = ls\<lparr>frame_processor := fp\<rparr>" using loop_expire_ok(2) [OF ok 2(1)] ..
    with loop_device_frame [OF loop_expire_ok(1) [OF ok 2(1)] 2(2)] act
    have "completion ls2 = None" "command_handler ls2 = command_handler ls" by simp_all
    with 2(3) have "command_handler ls3 = command_handler ls"
      by (auto simp: loop_completion_def Let_def split: option.splits)
    with 2(4) show ?thesis
      by (auto simp: loop_keepalive_def split: option.splits if_splits)
  qed
qed

lemma loop_body_handler:
  assumes run: "loop_body reset inp ls = Some (sent, ls')"
    and reset: "\<And>h. Q h \<Longrightarrow> Q (reset h)" and start: "Q (command_handler ls)"
  shows "Q (command_handler ls')"
proof -
  have expire: "command_handler ls2 = command_handler ls1" if "loop_expire now ls1 = (s, ls2)" for now ls1 s ls2
    using that by (auto simp: loop_expire_def split: prod.splits)
  have handled: "Q (command_handler ls2)"
    if "handle_report reset random now request ls1 = Some (s, flow, ls2)" "Q (command_handler ls1)"
    for random now request ls1 s flow ls2
    using that(1)
    by (cases rule: handle_report_cases)
      (use that(2) reset in \<open>auto simp: handle_init_request_def start_task_def split: if_splits option.splits prod.splits\<close>)
  have device: "Q (command_handler ls2)"
    if "loop_device reset inp ls1 = Some (s, flow, ls2)" "Q (command_handler ls1)" for ls1 s flow ls2
    using that(1)
  proof (cases rule: loop_device_cases)
    case (report data fp request)
    from handled [OF report(2)] that(2) show ?thesis by simp
  qed (use that(2) in simp_all)
  from run show ?thesis
  proof (cases rule: loop_body_cases)
    case (1 sent1 ls1 sent2 ls2)
    with device [OF 1(2)] expire [OF 1(1)] start show ?thesis by simp
  next
    case (2 sent1 ls1 sent2 ls2 sent3 ls3 sent4)
    with device [OF 2(2)] expire [OF 2(1)] start have "Q (command_handler ls2)" by simp
    with 2(3) reset have "Q (command_handler ls3)"
      by (auto simp: loop_completion_def Let_def split: option.splits if_splits)
    with 2(4) show ?thesis by (auto simp: loop_keepalive_def split: option.splits if_splits)
  qed
qed

lemma milliseconds_until_bounds:
  "0 \<le> milliseconds_until deadline now \<and> milliseconds_until deadline now \<le> 2147483647 \<and>
   int now + milliseconds_until deadline now * 1000000 < int (max now deadline) + 1000000 \<and>
   (milliseconds_until deadline now = 0 \<longleftrightarrow> deadline \<le> now)"
proof (cases "deadline \<le> now")
  case False
  define count where "count = (deadline - now + 999999) div 1000000"
  have "count * 1000000 \<le> deadline - now + 999999" "0 < count"
    using False by (simp_all add: count_def div_greater_zero_iff)
  then have "int now + int count * 1000000 < int (max now deadline) + 1000000" using False by simp
  moreover have "int now + 2147483647 * 1000000 < int (max now deadline) + 1000000" if "count > 2147483647"
    using that calculation by simp
  ultimately show ?thesis using False \<open>0 < count\<close>
    by (auto simp: milliseconds_until_def Let_def count_def [symmetric])
qed (simp add: milliseconds_until_def)

text \<open>
  C27.  The poll timeout is safe and not wasteful: it is a valid argument of \<open>poll\<close>, it is infinite
  exactly when nothing is pending, the loop wakes less than a millisecond after the deadline of a
  half-received message and of the next keepalive, at the latest 20 milliseconds later while a
  cancelled command winds down, and it is zero only when something is due.
\<close>

theorem poll_timeout_bounds:
  assumes t: "t = poll_timeout ls now"
  shows "-1 \<le> t \<and> t \<le> 2147483647 \<and>
    (t = -1 \<longleftrightarrow> active ls = None \<and> transaction_deadline (frame_processor ls) = None) \<and>
    (\<forall>deadline. transaction_deadline (frame_processor ls) = Some deadline \<longrightarrow>
       int now + t * 1000000 < int (max now deadline) + 1000000) \<and>
    (\<forall>task. active ls = Some task \<longrightarrow>
       (if task_cancel_requested task then t \<le> 20
        else int now + t * 1000000 < int (max now (task_next_keepalive task)) + 1000000)) \<and>
    (t = 0 \<longrightarrow> (\<exists>deadline. transaction_deadline (frame_processor ls) = Some deadline \<and> deadline \<le> now) \<or>
       (\<exists>task. active ls = Some task \<and> task_next_keepalive task \<le> now))"
proof -
  note ms = milliseconds_until_bounds [of _ now]
  show ?thesis
  proof (cases "transaction_deadline (frame_processor ls)")
    case None
    then show ?thesis
    proof (cases "active ls")
      case (Some task)
      with \<open>transaction_deadline _ = None\<close> ms [of "task_next_keepalive task"] show ?thesis
        by (auto simp: t poll_timeout_def Let_def)
    qed (simp add: t poll_timeout_def)
  next
    case (Some deadline)
    show ?thesis
    proof (cases "active ls")
      case None
      with Some ms [of deadline] show ?thesis by (auto simp: t poll_timeout_def Let_def)
    next
      case task: (Some task)
      show ?thesis
      proof (cases "task_cancel_requested task")
        case True
        with Some task ms [of deadline] show ?thesis by (auto simp: t poll_timeout_def Let_def)
      next
        case False
        with Some task ms [of deadline] ms [of "task_next_keepalive task"] show ?thesis
          by (auto simp: t poll_timeout_def Let_def)
      qed
    qed
  qed
qed

theorem poll_timeout_bounds_witness:
  "let ls = (initial_loop ())\<lparr>active := Some \<lparr>task_generation = 1, task_cid = 5, task_keepalive = processing,
      task_next_keepalive = milliseconds 100, task_cancel_requested = False, task_discard_result = False\<rparr>\<rparr>
   in 0 < poll_timeout ls 0 \<and> poll_timeout ls 0 \<le> 100"
proof -
  let ?ls = "(initial_loop ())\<lparr>active := Some \<lparr>task_generation = 1, task_cid = 5, task_keepalive = processing,
      task_next_keepalive = milliseconds 100, task_cancel_requested = False, task_discard_result = False\<rparr>\<rparr>"
  define t where "t = poll_timeout ?ls 0"
  from poll_timeout_bounds [OF t_def] have "-1 \<le> t" "t \<noteq> -1" "t \<noteq> 0" "t * 1000000 < 101000000"
    by (auto simp: milliseconds_def initial_loop_def transaction_deadline_def)
  then show ?thesis by (simp add: t_def Let_def)
qed

section \<open>The contract of the command handler\<close>

text \<open>
  What the loop relies on: a response of the handler goes to the channel of the request and can be
  fragmented.
\<close>

locale ctap_handler =
  fixes handle :: "'e \<Rightarrow> UHIDReport \<Rightarrow> 'h \<Rightarrow> CTAPPacket result \<times> 'h" and reset :: "'h \<Rightarrow> 'h"
  assumes response_channel:
      "rep_payload r \<noteq> [] \<Longrightarrow> handle env r h = (Inr p, h') \<Longrightarrow> pkt_cid p = rep_cid r"
    and response_sendable:
      "rep_payload r \<noteq> [] \<Longrightarrow> handle env r h = (Inr p, h') \<Longrightarrow> is_ok (stringify p)"
begin

lemma worker_body_ok:
  assumes "worker_body (handle env) reset w stop h = (res, h')" "rep_payload (wk_request w) \<noteq> []"
  shows "res_generation res = wk_generation w \<and> pkt_cid (res_packet res) = rep_cid (wk_request w) \<and>
    is_ok (stringify (res_packet res))"
proof -
  obtain r where r: "execute_ctap_request (handle env) reset (wk_request w) stop h = (r, h')"
    "res = \<lparr>res_generation = wk_generation w, res_cid = rep_cid (wk_request w),
                    res_packet = worker_packet (rep_cid (wk_request w)) r\<rparr>"
    using assms(1) by (auto simp: worker_body_def split: prod.splits)
  show ?thesis
  proof (cases r)
    case (Inl e)
    with r show ?thesis by (cases e) (simp_all add: worker_packet_def)
  next
    case (Inr p)
    with r have "handle env (wk_request w) h = (Inr p, h')"
      by (auto simp: execute_ctap_request_def split: if_splits prod.splits sum.splits)
    with r Inr response_channel response_sendable assms(2) show ?thesis
      by (simp add: worker_packet_def)
  qed
qed

lemma loop_step_ok:
  assumes "loop_step handle reset ls sent ls'" "loop_ok ls"
  shows "loop_ok ls'"
  using assms
proof (cases rule: loop_step.cases)
  case (iterate inp)
  with loop_body_ok [OF assms(2) loop_iteration_Looped] show ?thesis by simp
next
  case (finish w stop env res h')
  then obtain task where "active ls = Some task" "task_ok ls task"
    using assms(2) by (auto simp: loop_ok_def split: option.splits)
  with finish assms(2) worker_body_ok [OF finish(6)] show ?thesis
    by (auto simp: loop_ok_def task_ok_def)
next
  case (keepalive w task status)
  with assms(2) show ?thesis by (auto simp: loop_ok_def task_ok_def)
qed

theorem reachable_loop_ok: "loop_reachable handle reset h0 ls \<Longrightarrow> loop_ok ls"
proof (induction rule: loop_reachable.induct)
  case start
  show ?case by (simp add: loop_ok_def initial_loop_def)
next
  case (step ls sent ls')
  then show ?case by (rule_tac loop_step_ok)
qed

end

text \<open>A handler with an invariant keeps it under every interleaving with the loop.\<close>

locale invariant_handler = ctap_handler +
  fixes handler_ok :: "'h \<Rightarrow> bool"
  assumes handle_keeps: "handler_ok h \<Longrightarrow> handle env r h = (res, h') \<Longrightarrow> handler_ok h'"
    and reset_keeps: "handler_ok h \<Longrightarrow> handler_ok (reset h)"
begin

lemma worker_body_keeps:
  assumes "worker_body (handle env) reset w stop h = (res, h')" "handler_ok h"
  shows "handler_ok h'"
  using assms handle_keeps reset_keeps
  by (auto simp: worker_body_def execute_ctap_request_def split: prod.splits if_splits sum.splits)

lemma reachable_handler_ok:
  assumes "loop_reachable handle reset h0 ls" "handler_ok h0"
  shows "handler_ok (command_handler ls)"
  using assms
proof (induction rule: loop_reachable.induct)
  case start
  then show ?case by (simp add: initial_loop_def)
next
  case (step ls sent ls')
  then have ok: "handler_ok (command_handler ls)" by simp
  from step(2) show ?case
  proof (cases rule: loop_step.cases)
    case (iterate inp)
    from loop_body_handler [OF loop_iteration_Looped [OF iterate] reset_keeps ok] show ?thesis .
  next
    case (finish w stop env res h')
    with worker_body_keeps [OF finish(6) ok] show ?thesis by simp
  next
    case (keepalive w task status)
    with ok show ?thesis by simp
  qed
qed

end

end
