(* ===== verification/Command_Handler.thy ===== *)
theory Command_Handler
  imports Ceremonies Event_Loop
begin

text \<open>
  The command handler (\<open>ctap_command_handler.cpp\<close>) over the credential store, and its place in the
  event loop: the handler discharges the contract the loop relies on.  The state of a handler is the
  request object it keeps between commands, together with the store and the world the commands act on.
\<close>

section \<open>The handler\<close>

record 'c Daemon =
  d_request :: CTAPGetAssertionRequest
  d_store :: CredentialStore
  d_world :: "'c World"

definition encoding_error_to_ctap :: "CborEncodingFailure \<Rightarrow> CTAPError" where
  "encoding_error_to_ctap failure =
     (if failure = resource_limit then CTAP2_ERR_REQUEST_TOO_LARGE else CTAPError.CTAP1_ERR_OTHER)"

definition reset_handler :: "'c Daemon \<Rightarrow> 'c Daemon" where
  "reset_handler d = d\<lparr>d_request := clear_request\<rparr>"

text \<open>What the catch clauses of a ceremony make of an exception: it passes on, or an error status.\<close>

definition ceremony_failure :: "exn \<Rightarrow> exn + CTAPError" where
  "ceremony_failure e =
     (case e of
        OperationCancelled \<Rightarrow> Inl OperationCancelled
      | UserActionTimedOut \<Rightarrow> Inl UserActionTimedOut
      | VerificationInfrastructureError \<Rightarrow> Inr CTAPError.CTAP1_ERR_OTHER
      | UserInteractionUnavailable \<Rightarrow> Inr CTAPError.CTAP1_ERR_OTHER
      | CborEncodingError failure \<Rightarrow> Inr (encoding_error_to_ctap failure)
      | _ \<Rightarrow> Inr CTAPError.CTAP1_ERR_OTHER)"

definition fail_ceremony :: "u32 \<Rightarrow> exn \<Rightarrow> CTAPPacket result" where
  "fail_ceremony cid e =
     (case ceremony_failure e of Inl e' \<Rightarrow> Inl e' | Inr error \<Rightarrow> Inr (make_cbor_error cid error))"

text \<open>A status byte of a ceremony cast to \<open>CTAPError\<close> and answered with.\<close>

definition make_status_error :: "u32 \<Rightarrow> u8 \<Rightarrow> CTAPPacket" where
  "make_status_error cid status =
     \<lparr>pkt_cid = cid, pkt_cmd = CTAPHID_CBOR OR MASK, pkt_len = 1, pkt_payload = [status]\<rparr>"

definition cbor_packet :: "u32 \<Rightarrow> bytes \<Rightarrow> 'c Daemon \<Rightarrow> CTAPPacket result \<times> 'c Daemon" where
  "cbor_packet cid payload d =
     (if length payload > CTAPHID_MAX_PAYLOAD_SIZE then
        (Inr (make_cbor_error cid CTAP2_ERR_REQUEST_TOO_LARGE), reset_handler d)
      else (Inr \<lparr>pkt_cid = cid, pkt_cmd = CTAPHID_CBOR OR MASK, pkt_len = word_of_nat (length payload),
                 pkt_payload = payload\<rparr>, d))"

definition handle_get_info :: "Env \<Rightarrow> UHIDReport \<Rightarrow> 'c Daemon \<Rightarrow> CTAPPacket result \<times> 'c Daemon" where
  "handle_get_info env request d =
     (if length (rep_payload request) \<noteq> 1 then
        (Inr (make_cbor_error (rep_cid request) CTAPError.CTAP1_ERR_INVALID_COMMAND), d)
      else case build_getinfo_response (env_emit env) of
             Inl (CborEncodingError failure) \<Rightarrow>
               (Inr (make_cbor_error (rep_cid request) (encoding_error_to_ctap failure)), d)
           | Inl e \<Rightarrow> (Inl e, d)
           | Inr payload \<Rightarrow> cbor_packet (rep_cid request) payload d)"

definition handle_make_credential ::
    "'c StoreContext \<Rightarrow> Env \<Rightarrow> UHIDReport \<Rightarrow> 'c Daemon \<Rightarrow> CTAPPacket result \<times> 'c Daemon" where
  "handle_make_credential ctx env request d =
     (case make_credential_parseRequest (env_tinycbor env) (tl (rep_payload request)) of
        (Inl e, _) \<Rightarrow> (Inl e, d)
      | (Inr False, _) \<Rightarrow> (Inr (make_cbor_error (rep_cid request) CTAP2_ERR_INVALID_CBOR), d)
      | (Inr True, req) \<Rightarrow>
          (case make_credential_build_response ctx env req (d_store d) (d_world d) of
             (r, st, w) \<Rightarrow>
               let d' = d\<lparr>d_store := st, d_world := w\<rparr> in
               (case r of
                  Inl e \<Rightarrow> (fail_ceremony (rep_cid request) e, d')
                | Inr payload \<Rightarrow>
                    if length payload = 1 then (Inr (make_status_error (rep_cid request) (payload ! 0)), d')
                    else cbor_packet (rep_cid request) payload d')))"

text \<open>What GetAssertion and GetNextAssertion do with the outcome of their ceremony.\<close>

definition finish_assertion ::
    "u32 \<Rightarrow> bytes result \<Rightarrow> 'c Daemon \<Rightarrow> CTAPPacket result \<times> 'c Daemon" where
  "finish_assertion cid r d =
     (case r of
        Inl e \<Rightarrow> (fail_ceremony cid e, reset_handler d)
      | Inr payload \<Rightarrow>
          if length payload = 1 then (Inr (make_status_error cid (payload ! 0)), reset_handler d)
          else cbor_packet cid payload d)"

definition handle_get_assertion ::
    "'c StoreContext \<Rightarrow> Env \<Rightarrow> UHIDReport \<Rightarrow> 'c Daemon \<Rightarrow> CTAPPacket result \<times> 'c Daemon" where
  "handle_get_assertion ctx env request d =
     (let d0 = reset_handler d in
      case get_assertion_parseRequest (env_tinycbor env) (tl (rep_payload request)) of
        (Inl e, _) \<Rightarrow> (Inl e, d0)
      | (Inr False, _) \<Rightarrow> (Inr (make_cbor_error (rep_cid request) CTAP2_ERR_INVALID_CBOR), d0)
      | (Inr True, parsed) \<Rightarrow>
          (case get_assertion_build_response ctx env (rep_cid request) (clear_request\<lparr>ga_fields := parsed\<rparr>)
                  (d_store d) (d_world d) of
             (r, req, st, w) \<Rightarrow>
               finish_assertion (rep_cid request) r (d0\<lparr>d_request := req, d_store := st, d_world := w\<rparr>)))"

definition handle_get_next_assertion ::
    "'c StoreContext \<Rightarrow> Env \<Rightarrow> UHIDReport \<Rightarrow> 'c Daemon \<Rightarrow> CTAPPacket result \<times> 'c Daemon" where
  "handle_get_next_assertion ctx env request d =
     (let origin = seq_originCid (ga_sequence (d_request d)) in
      if origin = 0 \<or> origin \<noteq> rep_cid request then
        (Inr (make_cbor_error (rep_cid request) CTAP2_ERR_NOT_ALLOWED), d)
      else if length (rep_payload request) \<noteq> 1 then
        (Inr (make_cbor_error (rep_cid request) CTAPError.CTAP1_ERR_INVALID_COMMAND), reset_handler d)
      else case get_assertion_build_response_next ctx env (rep_cid request) (d_request d)
                  (d_store d) (d_world d) of
             (r, req, st, w) \<Rightarrow>
               finish_assertion (rep_cid request) r (d\<lparr>d_request := req, d_store := st, d_world := w\<rparr>))"

definition handle_command ::
    "'c StoreContext \<Rightarrow> Env \<Rightarrow> UHIDReport \<Rightarrow> 'c Daemon \<Rightarrow> CTAPPacket result \<times> 'c Daemon" where
  "handle_command ctx env request d =
     (let command = hd (rep_payload request);
          d0 = (if command \<noteq> 0x02 \<and> command \<noteq> 0x08 then reset_handler d else d) in
      if command = 0x04 then handle_get_info env request d0
      else if command = 0x01 then handle_make_credential ctx env request d0
      else if command = 0x02 then handle_get_assertion ctx env request d0
      else if command = 0x08 then handle_get_next_assertion ctx env request d0
      else (Inr (make_cbor_error (rep_cid request) CTAPError.CTAP1_ERR_INVALID_COMMAND), d0))"

section \<open>The handler fulfils the contract of the event loop\<close>

lemma status_error_packet [simp]:
  "pkt_cid (make_status_error cid s) = cid" "is_ok (stringify (make_status_error cid s))"
  by (simp_all add: make_status_error_def stringify_eq ctaphid_defs)

lemma cbor_packet_ok:
  assumes "cbor_packet cid payload d = (Inr p, d')"
  shows "pkt_cid p = cid \<and> is_ok (stringify p)"
  using assms
  by (auto simp: cbor_packet_def make_cbor_error_def stringify_eq ctaphid_defs unat_of_nat split: if_splits)

lemma fail_ceremony_ok: "fail_ceremony cid e = Inr p \<Longrightarrow> pkt_cid p = cid \<and> is_ok (stringify p)"
  by (auto simp: fail_ceremony_def make_cbor_error_def stringify_eq ctaphid_defs split: sum.splits)

lemma cbor_error_ok: "pkt_cid (make_cbor_error cid e) = cid" "is_ok (stringify (make_cbor_error cid e))"
  by (simp_all add: make_cbor_error_def stringify_eq ctaphid_defs)

lemma finish_assertion_ok:
  assumes "finish_assertion cid r d = (Inr p, d')"
  shows "pkt_cid p = cid \<and> is_ok (stringify p)"
proof (cases r)
  case (Inl e)
  with assms fail_ceremony_ok [of cid e p] show ?thesis by (simp add: finish_assertion_def)
next
  case (Inr payload)
  with assms cbor_packet_ok [of cid payload d p d'] show ?thesis
    by (auto simp: finish_assertion_def split: if_splits)
qed

lemma handle_command_ok:
  assumes "handle_command ctx env request d = (Inr p, d')"
  shows "pkt_cid p = rep_cid request \<and> is_ok (stringify p)"
proof -
  have "\<And>d. handle_get_info env request d = (Inr p, d') \<Longrightarrow> ?thesis"
    by (auto simp: handle_get_info_def cbor_error_ok dest: cbor_packet_ok split: if_splits sum.splits exn.splits)
  moreover have "\<And>d. handle_make_credential ctx env request d = (Inr p, d') \<Longrightarrow> ?thesis"
    by (auto simp: handle_make_credential_def cbor_error_ok Let_def dest: cbor_packet_ok fail_ceremony_ok
        split: if_splits sum.splits prod.splits bool.splits)
  moreover have "\<And>d. handle_get_assertion ctx env request d = (Inr p, d') \<Longrightarrow> ?thesis"
    by (auto simp: handle_get_assertion_def cbor_error_ok Let_def dest: finish_assertion_ok
        split: if_splits sum.splits prod.splits bool.splits)
  moreover have "\<And>d. handle_get_next_assertion ctx env request d = (Inr p, d') \<Longrightarrow> ?thesis"
    by (auto simp: handle_get_next_assertion_def cbor_error_ok Let_def dest: finish_assertion_ok
        split: if_splits prod.splits)
  ultimately show ?thesis
    using assms by (auto simp: handle_command_def cbor_error_ok Let_def split: if_splits)
qed

interpretation daemon: ctap_handler "handle_command ctx" reset_handler for ctx
  by unfold_locales (use handle_command_ok in blast)+

end
