(* ===== verification/Ceremony_Laws.thy ===== *)
theory Ceremony_Laws
  imports Command_Handler
begin

text \<open>
  Laws of the ceremonies and of the command handler: what a single assertion does to the store, the
  invariant that ties a pending assertion sequence to the store, the outcomes of the two ceremonies,
  and the properties of the commands a platform sends.
\<close>

section \<open>Lemmas: the store under a ceremony\<close>

lemma hex_encode_Inr: "hex_encode bs = Inr key \<Longrightarrow> key = hex_text bs"
  by (simp add: hex_encode_def split: if_splits)

lemma incrementSigCount_Inr:
  assumes "incrementSigCount ctx io i uid st w = (Inr u, st', w')"
  obtains c where "map_of (stored st) (hex_text i) = Some c" "cred_ownerUid c = uid" "cred_signCount c \<noteq> -1"
    "stored st' = map (bump (hex_text i)) (stored st)" "requiresReload st' = requiresReload st"
proof -
  from assms have "incrementSigCount ctx io i uid st w = (Inr (), st', w')" by simp
  then obtain updated where u: "increment_storage st i uid = Inr updated"
    and st': "st' = st\<lparr>stored := updated, generation := generation st + 1\<rparr>"
    unfolding incrementSigCount_def by (rule save_result_Inr) blast
  from increment_storage_Inr [OF u] obtain key c where "hex_encode i = Inr key" "map_of (stored st) key = Some c"
    "cred_ownerUid c = uid" "cred_signCount c \<noteq> -1" "updated = map (bump key) (stored st)" by blast
  with that st' hex_encode_Inr show thesis by simp
qed

lemma incrementSigCount_ok:
  assumes "store_ok st" "incrementSigCount ctx io i uid st w = (r, st', w')"
  shows "store_ok st'"
  using store_ok_save_result [OF assms(1) assms(2) [unfolded incrementSigCount_def]] store_ok_updates(2) [OF assms(1)]
  by blast

lemma put_credential_ok:
  assumes "store_ok st" "put_credential ctx io cred uid st w = (r, st', w')"
  shows "store_ok st'"
  using store_ok_save_result [OF assms(1) assms(2) [unfolded put_credential_def]] store_ok_put [OF assms(1)]
  by blast

lemma store_ok_lookup:
  assumes "store_ok st" "c \<in> snd ` set (stored st)"
  shows "map_of (stored st) (hex_text (cred_id c)) = Some c"
proof -
  from assms(2) obtain k where k: "(k, c) \<in> set (stored st)" by auto
  moreover have "storage_ok (stored st)" using assms(1) by (simp add: store_ok_def)
  moreover from this k have "k = hex_text (cred_id c)" using storage_okD [of "stored st" "(k, c)"] by simp
  ultimately show ?thesis by (simp add: storage_ok_def)
qed

lemma match_allow_list_stored:
  "match_allow_list st rp uid seen allow = Inr cs \<Longrightarrow> c \<in> set cs \<Longrightarrow>
     c \<in> snd ` set (stored st) \<and> cred_ownerUid c = uid \<and> cred_rpId c = rp"
proof (induction allow arbitrary: seen cs)
  case (Cons d allow)
  show ?case
  proof (cases "desc_type d = ''public-key''")
    case False
    with Cons.IH [of seen cs] Cons.prems show ?thesis by simp
  next
    case True
    with Cons.prems obtain key where key: "hex_encode (desc_id d) = Inr key"
      by (auto simp: bind_result_eq_Inr)
    show ?thesis
    proof (cases "key \<in> set seen")
      case True
      with \<open>desc_type d = _\<close> key Cons.IH [of seen cs] Cons.prems show ?thesis by simp
    next
      case False
      with \<open>desc_type d = _\<close> key Cons.prems obtain ms where
        ms: "match_allow_list st rp uid (key # seen) allow = Inr ms"
        by (auto simp: bind_result_eq_Inr)
      show ?thesis
      proof (cases "c \<in> set ms")
        case True
        with Cons.IH [OF ms] show ?thesis by simp
      next
        case c: False
        show ?thesis
        proof (cases "map_of (stored st) key")
          case None
          with \<open>desc_type d = _\<close> key ms False c Cons.prems show ?thesis by simp
        next
          case (Some e)
          with map_of_SomeD [OF Some] \<open>desc_type d = _\<close> key ms False c Cons.prems show ?thesis
            by (auto split: if_splits intro: rev_image_eqI)
        qed
      qed
    qed
  qed
qed simp

lemma find_for_assertion_stored:
  assumes "find_for_assertion st rp allow uid = Inr cs" "c \<in> set cs"
  shows "c \<in> snd ` set (stored st) \<and> cred_ownerUid c = uid \<and> cred_rpId c = rp"
proof (cases "allow = []")
  case True
  with assms show ?thesis by (auto simp: find_for_assertion_def bind_result_eq_Inr)
next
  case False
  with assms have "match_allow_list st rp uid [] allow = Inr cs"
    by (simp add: find_for_assertion_def bind_result_eq_Inr)
  then show ?thesis using assms(2) by (rule match_allow_list_stored)
qed

section \<open>One assertion\<close>

text \<open>What a single assertion does: it is signed with a credential of the asking user and relying
  party, over the counter the store holds afterwards, and changes nothing else in the store.\<close>

definition asserts ::
    "Env \<Rightarrow> u32 \<Rightarrow> StoredCredential \<Rightarrow> u32 option \<Rightarrow> CTAPGetAssertionRequest \<Rightarrow> CredentialStore \<Rightarrow>
     CredentialStore \<Rightarrow> bytes \<Rightarrow> bool" where
  "asserts env uid c n req st st' payload \<longleftrightarrow>
     map_of (stored st) (hex_text (cred_id c)) = Some c \<and> cred_ownerUid c = uid \<and>
     cred_rpId c = ga_rpId (ga_fields req) \<and> assertion_payload env c n req = Inr payload \<and>
     unat (cred_signCount c + 1) = unat (cred_signCount c) + 1 \<and>
     (\<forall>key. map_of (stored st') key =
        (if key = hex_text (cred_id c) then Some (c\<lparr>cred_signCount := cred_signCount c + 1\<rparr>)
         else map_of (stored st) key))"

lemma generate_cases:
  assumes "generate_single_credential_payload ctx env c uid n req st w = (r, st', w')"
  obtains (failed) e where "r = Inl e" "st' = st"
  | (updated) payload r' where "assertion_payload env c n req = Inr payload" "\<not> env_stop env 5"
      "incrementSigCount ctx (env_io env) (cred_id c) uid st w = (r', st', w')"
      "r = bind_result r' (\<lambda>_. Inr payload)"
proof (cases "assertion_payload env c n req")
  case (Inl e)
  with assms have "r = Inl e" "st' = st" by (simp_all add: generate_single_credential_payload_def)
  then show thesis by (rule failed)
next
  case (Inr payload)
  obtain r' st1 w1 where inc: "incrementSigCount ctx (env_io env) (cred_id c) uid st w = (r', st1, w1)"
    by (metis surj_pair)
  show thesis
  proof (cases "env_stop env 5")
    case True
    with assms Inr have "r = Inl OperationCancelled" "st' = st"
      by (simp_all add: generate_single_credential_payload_def)
    then show thesis by (rule failed)
  next
    case False
    have "r = bind_result r' (\<lambda>_. Inr payload) \<and> st1 = st' \<and> w1 = w'"
      using assms by (cases r') (simp_all add: generate_single_credential_payload_def Inr False inc)
    with inc show thesis by (intro updated [OF Inr False, of r']) simp_all
  qed
qed

lemma generate_Inr:
  assumes "generate_single_credential_payload ctx env c uid n req st w = (Inr payload, st', w')"
  shows "assertion_payload env c n req = Inr payload \<and> \<not> env_stop env 5 \<and>
    incrementSigCount ctx (env_io env) (cred_id c) uid st w = (Inr (), st', w')"
  using assms
proof (cases rule: generate_cases)
  case (updated p r')
  then show ?thesis by (cases r') simp_all
qed simp

lemma generate_asserts:
  assumes ok: "store_ok st" and c: "map_of (stored st) (hex_text (cred_id c)) = Some c"
    and rp: "cred_rpId c = ga_rpId (ga_fields req)"
    and gen: "generate_single_credential_payload ctx env c uid n req st w = (Inr payload, st', w')"
  shows "asserts env uid c n req st st' payload"
proof -
  from generate_Inr [OF gen] have p: "assertion_payload env c n req = Inr payload"
    and inc: "incrementSigCount ctx (env_io env) (cred_id c) uid st w = (Inr (), st', w')" by auto
  from inc c have max: "cred_signCount c \<noteq> -1" "cred_ownerUid c = uid"
    and st': "stored st' = map (bump (hex_text (cred_id c))) (stored st)"
    by (auto elim!: incrementSigCount_Inr)
  have "cred_signCount c + 1 \<noteq> 0" using max(1) by (metis add.commute add_eq_0_iff)
  then have "unat (cred_signCount c + 1) = unat (cred_signCount c) + 1" using unatSuc [of "cred_signCount c"]
    by (simp add: add.commute)
  then show ?thesis using p c rp max by (simp add: asserts_def st' map_of_bump)
qed

lemma generate_ok:
  assumes "store_ok st" "generate_single_credential_payload ctx env c uid n req st w = (r, st', w')"
  shows "store_ok st'"
  using assms(2)
proof (cases rule: generate_cases)
  case failed
  with assms(1) show ?thesis by simp
next
  case updated
  from assms(1) updated(3) show ?thesis by (rule incrementSigCount_ok)
qed

section \<open>The sequence of pending assertions\<close>

lemma sequence_next_Some:
  assumes "sequence_next cid user now seq = (Some c, seq')"
  shows "seq_originCid seq = cid \<and> cid \<noteq> 0 \<and> seq_ownerContext seq = Some (context_binding user) \<and>
    now - seq_lastUse seq \<le> SEQUENCE_TIMEOUT \<and> seq_index seq < length (seq_credentials seq) \<and>
    c = seq_credentials seq ! seq_index seq \<and>
    seq' = (if seq_index seq + 1 = length (seq_credentials seq) then sequence_clear
            else seq\<lparr>seq_index := seq_index seq + 1, seq_lastUse := now\<rparr>)"
  using assms by (auto simp: sequence_next_def Let_def split: if_splits)

lemma sequence_next_None:
  "sequence_next cid user now seq = (None, seq') \<Longrightarrow> seq' = seq \<or> seq' = sequence_clear"
  by (auto simp: sequence_next_def Let_def split: if_splits)

text \<open>The invariant of a pending sequence: every credential still to come is the stored one, belongs
  to the user the sequence is bound to and to the relying party of the request, and comes once.\<close>

definition pending_in_store :: "string \<Rightarrow> u32 \<Rightarrow> CredentialStore \<Rightarrow> StoredCredential list \<Rightarrow> bool" where
  "pending_in_store rp uid st cs \<longleftrightarrow> distinct (map cred_id cs) \<and>
     (\<forall>c \<in> set cs. map_of (stored st) (hex_text (cred_id c)) = Some c \<and> cred_ownerUid c = uid \<and>
        cred_rpId c = rp \<and> cred_discoverable c)"

definition sequence_ok :: "CTAPGetAssertionRequest \<Rightarrow> CredentialStore \<Rightarrow> bool" where
  "sequence_ok req st \<longleftrightarrow>
     (let seq = ga_sequence req in
      seq_originCid seq \<noteq> 0 \<longrightarrow>
        (case seq_ownerContext seq of
           None \<Rightarrow> False
         | Some b \<Rightarrow> seq_index seq < length (seq_credentials seq) \<and>
             pending_in_store (ga_rpId (ga_fields req)) (ub_uid b) st
               (drop (seq_index seq) (seq_credentials seq))))"

definition daemon_ok :: "'c Daemon \<Rightarrow> bool" where
  "daemon_ok d \<longleftrightarrow> store_ok (d_store d) \<and> sequence_ok (d_request d) (d_store d)"

lemma sequence_ok_clear [simp]: "ga_sequence req = sequence_clear \<Longrightarrow> sequence_ok req st"
  by (simp add: sequence_ok_def sequence_clear_def)

lemma pending_in_store_Cons:
  assumes p: "pending_in_store rp uid st (c # cs)" and a: "asserts env uid c n req st st' payload"
  shows "pending_in_store rp uid st' cs"
proof -
  have "map_of (stored st') (hex_text (cred_id d)) = map_of (stored st) (hex_text (cred_id d))"
    if "d \<in> set cs" for d
  proof -
    have "hex_text (cred_id d) \<noteq> hex_text (cred_id c)"
      using p that by (force simp: pending_in_store_def)
    then show ?thesis using a by (simp add: asserts_def)
  qed
  with p show ?thesis by (simp add: pending_in_store_def)
qed

lemma pending_in_store_found:
  assumes "store_ok st" "find_for_assertion st rp [] uid = Inr cs"
  shows "pending_in_store rp uid st cs"
proof -
  have ready: "\<not> requiresReload st"
    using assms(2) by (auto simp: find_for_assertion_def bind_result_eq_Inr require_ready_def require_def split: if_splits)
  from find_discoverable [OF assms(1) ready, of rp uid] assms(2)
  have "distinct cs" and cs: "set cs = {c \<in> snd ` set (stored st). cred_ownerUid c = uid \<and> cred_discoverable c \<and> cred_rpId c = rp}"
    by auto
  moreover have m: "map_of (stored st) (hex_text (cred_id c)) = Some c" if "c \<in> set cs" for c
    using that cs store_ok_lookup [OF assms(1), of c] by blast
  then have "inj_on cred_id (set cs)" by (intro inj_onI) (metis option.inject)
  ultimately show ?thesis by (auto simp: pending_in_store_def distinct_map m)
qed

section \<open>Outcomes of the ceremonies\<close>

abbreviation status_answer :: "bytes result \<Rightarrow> bool" where
  "status_answer r \<equiv> (\<forall>payload. r = Inr payload \<longrightarrow> length payload = 1)"

lemma status_payload_length [simp]: "length (status_payload e) = 1"
  by (simp add: status_payload_def)

lemma sequence_begin_owned:
  assumes "\<forall>c \<in> set remaining. cred_ownerUid c = uc_uid user"
  shows "fst (sequence_begin cid user remaining now) = Inr ()"
  using assms by (auto simp: sequence_begin_def list_ex_iff)

lemma assertion_after_consent_cases:
  assumes "assertion_after_consent ctx env cid user available req st w = (r, req', st', w')"
    and "\<forall>c \<in> set available. cred_ownerUid c = uc_uid user"
  obtains (refused) "st' = st" "req' = req" "status_answer r"
  | (failed) c n e where "generate_single_credential_payload ctx env c (uc_uid user) n req st w = (Inl e, st', w')"
      "r = Inl e" "req' = req"
  | (asserted) c remaining payload where "available = c # remaining"
      "generate_single_credential_payload ctx env c (uc_uid user)
         (if ga_allowList (ga_fields req) = [] \<and> remaining \<noteq> []
          then Some (word_of_nat (length available)) else None) req st w = (Inr payload, st', w')"
      "r = Inr payload"
      "req' = (if ga_allowList (ga_fields req) = [] \<and> remaining \<noteq> []
               then req\<lparr>ga_sequence := snd (sequence_begin cid user remaining (env_now env))\<rparr> else req)"
proof (cases "available = [] \<or> env_stop env 4")
  case True
  then have "st' = st" "req' = req" "status_answer r"
    using assms(1) by (auto simp: assertion_after_consent_def Let_def split: list.splits)
  then show thesis by (rule refused)
next
  case False
  then obtain c remaining where av: "available = c # remaining" by (cases available) auto
  have more: "has_assertion_continuations (ga_allowList (ga_fields req) = []) (length available) \<longleftrightarrow>
      ga_allowList (ga_fields req) = [] \<and> remaining \<noteq> []"
    using av by (auto simp: has_assertion_continuations_def)
  let ?n = "if ga_allowList (ga_fields req) = [] \<and> remaining \<noteq> []
          then Some (word_of_nat (length available) :: u32) else None"
  obtain r1 st1 w1 where gen: "generate_single_credential_payload ctx env c (uc_uid user) ?n req st w = (r1, st1, w1)"
    by (metis surj_pair)
  obtain rs seq where started: "sequence_begin cid user remaining (env_now env) = (rs, seq)" by fastforce
  with assms(2) av sequence_begin_owned [of remaining user cid "env_now env"] have [simp]: "rs = Inr ()" by simp
  note eq = assms(1) [unfolded assertion_after_consent_def Let_def more]
  show thesis
  proof (cases r1)
    case (Inl e)
    with eq av False gen have "st1 = st' \<and> w1 = w' \<and> r = Inl e \<and> req' = req" by simp
    with gen Inl show thesis by (intro failed [of c ?n e]) simp_all
  next
    case (Inr payload)
    with eq av False gen started have "st1 = st' \<and> w1 = w' \<and> r = Inr payload \<and>
       req' = (if ga_allowList (ga_fields req) = [] \<and> remaining \<noteq> [] then req\<lparr>ga_sequence := seq\<rparr> else req)"
      by (auto split: if_splits)
    with gen Inr av started show thesis by (intro asserted [of c remaining payload]) simp_all
  qed
qed

lemma consent_refused_status:
  "assertion_consent env user f = Inr (Inl payload) \<Longrightarrow> length payload = 1"
  by (auto simp: assertion_consent_def assertion_interaction_def bind_result_eq_Inr Let_def split: if_splits)

lemma get_assertion_cases:
  assumes "get_assertion_build_response ctx env cid req st w = (r, req', st', w')"
  obtains (refused) "st' = st" "ga_sequence req' = ga_sequence req" "status_answer r"
  | (consented) user available present verified where "env_context env = Inr user"
      "find_for_assertion st (ga_rpId (ga_fields req)) (ga_allowList (ga_fields req)) (uc_uid user) = Inr available"
      "assertion_consent env user (ga_fields req) = Inr (Inr (present, verified))"
      "assertion_after_consent ctx env cid user available
         (req\<lparr>ga_userPresent := present, ga_userVerified := verified\<rparr>) st w = (r, req', st', w')"
proof -
  let ?f = "ga_fields req"
  let ?pre = "bind_result (cancellation_point (env_stop env 0)) (\<lambda>_.
           bind_result (env_context env) (\<lambda>user.
           bind_result (find_for_assertion st (ga_rpId ?f) (ga_allowList ?f) (uc_uid user)) (\<lambda>available.
             Inr (user, available))))"
  note def = get_assertion_build_response_def Let_def
  consider (threw) e where "?pre = Inl e"
    | (invalid) user available error where "?pre = Inr (user, available)" "get_assertion_validation_error ?f = Some error"
    | (denied) user available where "?pre = Inr (user, available)" "get_assertion_validation_error ?f = None"
        "\<nexists>c. assertion_consent env user ?f = Inr (Inr c)"
    | (granted) user available present verified where "?pre = Inr (user, available)"
        "get_assertion_validation_error ?f = None" "assertion_consent env user ?f = Inr (Inr (present, verified))"
    by (cases ?pre; cases "get_assertion_validation_error ?f") fastforce+
  then show thesis
  proof cases
    case (denied user available)
    have "st' = st \<and> ga_sequence req' = ga_sequence req \<and> status_answer r"
    proof (cases "assertion_consent env user ?f")
      case (Inl e)
      with assms denied show ?thesis by (auto simp: def)
    next
      case (Inr c)
      with denied obtain payload where "assertion_consent env user ?f = Inr (Inl payload)" by (cases c) auto
      moreover from this have "length payload = 1" by (rule consent_refused_status)
      ultimately show ?thesis using assms denied by (auto simp: def)
    qed
    then show thesis by (intro refused) blast+
  next
    case (granted user available present verified)
    then have "env_context env = Inr user"
      and "find_for_assertion st (ga_rpId ?f) (ga_allowList ?f) (uc_uid user) = Inr available"
      by (auto simp: bind_result_eq_Inr)
    with assms granted show thesis by (intro consented [of user available present verified]) (simp_all add: def)
  qed (use assms refused in \<open>auto simp: def\<close>)
qed

lemma get_assertion_next_cases:
  assumes "get_assertion_build_response_next ctx env cid req st w = (r, req', st', w')"
  obtains (refused) "st' = st" "ga_sequence req' = ga_sequence req \<or> ga_sequence req' = sequence_clear"
      "ga_fields req' = ga_fields req" "status_answer r"
  | (attempted) user c seq where "env_context env = Inr user"
      "sequence_next cid user (env_now env) (ga_sequence req) = (Some c, seq)" "req' = req\<lparr>ga_sequence := seq\<rparr>"
      "(if env_stop env 4 then (Inl OperationCancelled, st, w)
        else generate_single_credential_payload ctx env c (uc_uid user) None req' st w) = (r, st', w')"
proof (cases "env_context env")
  case (Inl e)
  with assms show thesis by (intro refused) (auto simp: get_assertion_build_response_next_def)
next
  case (Inr user)
  obtain found seq where s: "sequence_next cid user (env_now env) (ga_sequence req) = (found, seq)" by fastforce
  show thesis
  proof (cases found)
    case None
    with sequence_next_None s have "seq = ga_sequence req \<or> seq = sequence_clear" by blast
    with None assms Inr s show thesis by (intro refused) (auto simp: get_assertion_build_response_next_def)
  next
    case (Some c)
    with assms Inr s show thesis
      by (intro attempted [of user c seq])
        (auto simp: get_assertion_build_response_next_def Let_def split: if_splits prod.splits)
  qed
qed

section \<open>The invariant of the daemon\<close>

lemma after_consent_ok:
  assumes ok: "store_ok st" and seq: "ga_sequence req = sequence_clear"
    and found: "find_for_assertion st (ga_rpId (ga_fields req)) (ga_allowList (ga_fields req)) (uc_uid user) = Inr available"
    and run: "assertion_after_consent ctx env cid user available req st w = (r, req', st', w')"
  shows "store_ok st' \<and> sequence_ok req' st'"
proof -
  have mem: "c \<in> snd ` set (stored st) \<and> cred_ownerUid c = uc_uid user \<and> cred_rpId c = ga_rpId (ga_fields req)"
    if "c \<in> set available" for c using find_for_assertion_stored [OF found that] .
  then have "\<forall>c \<in> set available. cred_ownerUid c = uc_uid user" by blast
  with run show ?thesis
  proof (cases rule: assertion_after_consent_cases)
    case refused
    with ok seq show ?thesis by simp
  next
    case failed
    with generate_ok [OF ok] seq show ?thesis by simp
  next
    case (asserted c remaining payload)
    have "store_ok st'" using generate_ok [OF ok asserted(2)] .
    moreover have "sequence_ok req' st'"
    proof (cases "ga_allowList (ga_fields req) = [] \<and> remaining \<noteq> []")
      case True
      have c: "c \<in> snd ` set (stored st)" "cred_rpId c = ga_rpId (ga_fields req)" using mem asserted(1) by auto
      from generate_asserts [OF ok store_ok_lookup [OF ok c(1)] c(2) asserted(2)]
      have "asserts env (uc_uid user) c (if ga_allowList (ga_fields req) = [] \<and> remaining \<noteq> []
          then Some (word_of_nat (length available)) else None) req st st' payload" .
      moreover have "pending_in_store (ga_rpId (ga_fields req)) (uc_uid user) st (c # remaining)"
        using pending_in_store_found [OF ok] found True asserted(1) by simp
      ultimately have "pending_in_store (ga_rpId (ga_fields req)) (uc_uid user) st' remaining"
        using pending_in_store_Cons by blast
      with asserted(4) True show ?thesis
        by (auto simp: sequence_ok_def sequence_begin_def sequence_clear_def context_binding_def)
    next
      case False
      with asserted(4) seq have "req' = req" by (auto split: if_splits)
      with seq show ?thesis by simp
    qed
    ultimately show ?thesis by blast
  qed
qed

lemma get_assertion_ok:
  assumes ok: "store_ok st" and seq: "ga_sequence req = sequence_clear"
    and run: "get_assertion_build_response ctx env cid req st w = (r, req', st', w')"
  shows "store_ok st' \<and> sequence_ok req' st'"
  using run
proof (cases rule: get_assertion_cases)
  case refused
  with ok seq show ?thesis by simp
next
  case (consented user available present verified)
  with after_consent_ok [OF ok _ _ consented(4)] seq show ?thesis by simp
qed

lemma sequence_next_pending:
  assumes ok: "sequence_ok req st" and nxt: "sequence_next cid user now (ga_sequence req) = (Some c, seq)"
  obtains rest where "pending_in_store (ga_rpId (ga_fields req)) (uc_uid user) st (c # rest)"
    "seq = sequence_clear \<and> rest = [] \<or>
     seq_originCid seq = cid \<and> seq_ownerContext seq = Some (context_binding user) \<and>
     rest = drop (seq_index seq) (seq_credentials seq) \<and> seq_index seq < length (seq_credentials seq)"
proof -
  let ?s = "ga_sequence req"
  note n = sequence_next_Some [OF nxt]
  let ?rest = "drop (Suc (seq_index ?s)) (seq_credentials ?s)"
  have "drop (seq_index ?s) (seq_credentials ?s) = c # ?rest" using n Cons_nth_drop_Suc by metis
  with ok n have "pending_in_store (ga_rpId (ga_fields req)) (uc_uid user) st (c # ?rest)"
    by (simp add: sequence_ok_def Let_def context_binding_def)
  moreover have "seq = sequence_clear \<and> ?rest = [] \<or>
     seq_originCid seq = cid \<and> seq_ownerContext seq = Some (context_binding user) \<and>
     ?rest = drop (seq_index seq) (seq_credentials seq) \<and> seq_index seq < length (seq_credentials seq)"
    using n by (auto split: if_splits)
  ultimately show thesis by (rule that)
qed

lemma get_assertion_next_ok:
  assumes ok: "store_ok st" and seq: "sequence_ok req st"
    and run: "get_assertion_build_response_next ctx env cid req st w = (r, req', st', w')"
  shows "store_ok st' \<and> (\<forall>payload. r = Inr payload \<and> length payload \<noteq> 1 \<longrightarrow> sequence_ok req' st')"
  using run
proof (cases rule: get_assertion_next_cases)
  case refused
  with ok show ?thesis by auto
next
  case (attempted user c seq')
  show ?thesis
  proof (cases "env_stop env 4")
    case True
    with attempted ok show ?thesis by auto
  next
    case False
    with attempted have gen: "generate_single_credential_payload ctx env c (uc_uid user) None req' st w = (r, st', w')"
      by simp
    have "sequence_ok req' st'" if r: "r = Inr payload" for payload
    proof -
      obtain rest where p: "pending_in_store (ga_rpId (ga_fields req)) (uc_uid user) st (c # rest)"
        and s: "seq' = sequence_clear \<and> rest = [] \<or>
           seq_originCid seq' = cid \<and> seq_ownerContext seq' = Some (context_binding user) \<and>
           rest = drop (seq_index seq') (seq_credentials seq') \<and> seq_index seq' < length (seq_credentials seq')"
        using sequence_next_pending [OF seq attempted(2)] .
      from p have "asserts env (uc_uid user) c None req' st st' payload"
        using generate_asserts [OF ok _ _ gen [unfolded r]] attempted(3) by (simp add: pending_in_store_def)
      with p have "pending_in_store (ga_rpId (ga_fields req)) (uc_uid user) st' rest" by (rule pending_in_store_Cons)
      with s attempted(3) show ?thesis
        by (auto simp: sequence_ok_def Let_def context_binding_def sequence_clear_def)
    qed
    with generate_ok [OF ok gen] show ?thesis by blast
  qed
qed

text \<open>What a registration that reaches the store went through.\<close>

definition registers ::
    "Env \<Rightarrow> CTAPMakeCredentialRequest \<Rightarrow> CredentialStore \<Rightarrow> UserContext \<Rightarrow> StoredCredential \<Rightarrow> bytes \<Rightarrow> bool" where
  "registers env req st user credential payload \<longleftrightarrow>
     env_context env = Inr user \<and>
     excluded_credential st (rp_id (mc_rp req)) (uc_uid user) (mc_excludeList req) = Inr False \<and>
     selected_alg (mc_publicKeyCredParams req) \<noteq> 0 \<and> make_credential_validation_error req = None \<and>
     registration_consent env user req = Inr None \<and>
     registration_payload env req (selected_alg (mc_publicKeyCredParams req)) = Inr (credential, payload)"

lemma make_credential_cases:
  assumes run: "make_credential_build_response ctx env req st w = (r, st', w')"
  obtains (kept) "st' = st" "w' = w"
  | (put) user credential payload r' where "registers env req st user credential payload"
      "rp_id (mc_rp req) \<notin> {''make.me.blink'', ''.dummy''}" "\<not> env_stop env 8" "\<not> env_stop env 9"
      "put_credential ctx (env_io env) credential (uc_uid user) st w = (r', st', w')"
      "r = bind_result r' (\<lambda>_. Inr payload)"
proof -
  let ?rpid = "rp_id (mc_rp req)"
  let ?pre = "bind_result (cancellation_point (env_stop env 0)) (\<lambda>_.
           bind_result (env_context env) (\<lambda>user.
           bind_result (excluded_credential st ?rpid (uc_uid user) (mc_excludeList req)) (\<lambda>excluded.
             Inr (user, excluded))))"
  note def = make_credential_build_response_def Let_def
  show thesis
  proof (cases "\<exists>user credential payload. ?pre = Inr (user, False) \<and> registers env req st user credential payload \<and>
      ?rpid \<notin> {''make.me.blink'', ''.dummy''} \<and> \<not> env_stop env 8 \<and> \<not> env_stop env 9")
    case True
    then obtain user credential payload where pre: "?pre = Inr (user, False)"
      and reg: "registers env req st user credential payload"
      and rest: "?rpid \<noteq> ''make.me.blink''" "?rpid \<noteq> ''.dummy''" "\<not> env_stop env 8" "\<not> env_stop env 9" by auto
    obtain r' st1 w1 where put: "put_credential ctx (env_io env) credential (uc_uid user) st w = (r', st1, w1)"
      by (metis surj_pair)
    have "r = bind_result r' (\<lambda>_. Inr payload) \<and> st1 = st' \<and> w1 = w'"
      using run reg by (cases r') (simp_all add: def pre registers_def rest put)
    with reg rest put show thesis by (intro that(2) [of user credential payload r']) simp_all
  next
    case False
    have "st' = st \<and> w' = w"
    proof (cases ?pre)
      case (Inl e)
      with run show ?thesis by (simp add: def)
    next
      case (Inr ue)
      then obtain user excluded where ue: "?pre = Inr (user, excluded)" by (cases ue) simp
      then have "env_context env = Inr user \<and> excluded_credential st ?rpid (uc_uid user) (mc_excludeList req) = Inr excluded"
        by (auto simp: bind_result_eq_Inr)
      with False ue run show ?thesis
        by (auto simp: def registers_def split: bool.splits if_splits option.splits sum.splits prod.splits)
    qed
    then show thesis by (intro that(1)) simp_all
  qed
qed

lemma make_credential_ok:
  assumes "store_ok st" "make_credential_build_response ctx env req st w = (r, st', w')"
  shows "store_ok st'"
  using assms(2)
proof (cases rule: make_credential_cases)
  case kept
  with assms(1) show ?thesis by simp
next
  case put
  from assms(1) put(5) show ?thesis by (rule put_credential_ok)
qed

lemma daemon_ok_reset: "daemon_ok d \<Longrightarrow> daemon_ok (reset_handler d)"
  by (simp add: daemon_ok_def reset_handler_def clear_request_def)

lemma finish_assertion_daemon_ok:
  assumes "finish_assertion cid r d = (p, d')" "store_ok (d_store d)"
    "\<forall>payload. r = Inr payload \<and> length payload \<noteq> 1 \<longrightarrow> sequence_ok (d_request d) (d_store d)"
  shows "daemon_ok d'"
  using assms
  by (auto simp: finish_assertion_def cbor_packet_def daemon_ok_def reset_handler_def clear_request_def
      split: sum.splits if_splits)

lemma handle_command_daemon_ok:
  assumes ok: "daemon_ok d" and run: "handle_command ctx env request d = (r, d')"
  shows "daemon_ok d'"
proof -
  have st: "store_ok (d_store d)" and seq: "sequence_ok (d_request d) (d_store d)"
    using ok by (simp_all add: daemon_ok_def)
  have cbor: "daemon_ok d'" if "cbor_packet cid payload x = (r, d')" "daemon_ok x" for cid payload x
    using that daemon_ok_reset [of x] by (auto simp: cbor_packet_def split: if_splits)
  consider (info) "handle_get_info env request (reset_handler d) = (r, d')"
    | (make) "handle_make_credential ctx env request (reset_handler d) = (r, d')"
    | (assertion) "handle_get_assertion ctx env request d = (r, d')"
    | (more) "handle_get_next_assertion ctx env request d = (r, d')" | (other) "d' = reset_handler d"
    using run by (auto simp: handle_command_def Let_def split: if_splits)
  then show ?thesis
  proof cases
    case info
    with cbor [OF _ daemon_ok_reset [OF ok]] daemon_ok_reset [OF ok] show ?thesis
      by (auto simp: handle_get_info_def split: if_splits sum.splits exn.splits)
  next
    case make
    let ?d = "reset_handler d"
    have good: "daemon_ok (?d\<lparr>d_store := st', d_world := w'\<rparr>)"
      if "make_credential_build_response ctx env req (d_store ?d) (d_world ?d) = (r1, st', w')" for req r1 st' w'
      using make_credential_ok [OF _ that] st by (simp add: daemon_ok_def reset_handler_def clear_request_def)
    from make show ?thesis
      by (auto simp: handle_make_credential_def Let_def daemon_ok_reset [OF ok] good
          split: prod.splits sum.splits bool.splits if_splits intro: cbor [OF _ good])
  next
    case assertion
    have "store_ok st' \<and> sequence_ok req st'"
      if "get_assertion_build_response ctx env (rep_cid request) (clear_request\<lparr>ga_fields := parsed\<rparr>)
                  (d_store d) (d_world d) = (r1, req, st', w')" for parsed r1 req st' w'
      using get_assertion_ok [OF st _ that] by (simp add: clear_request_def)
    with assertion daemon_ok_reset [OF ok] show ?thesis
      by (auto simp: handle_get_assertion_def Let_def split: prod.splits sum.splits bool.splits
          intro: finish_assertion_daemon_ok)
  next
    case more
    obtain r1 req st' w' where nxt: "get_assertion_build_response_next ctx env (rep_cid request) (d_request d)
        (d_store d) (d_world d) = (r1, req, st', w')" by (metis surj_pair)
    show ?thesis
    proof (cases "d' = d \<or> d' = reset_handler d")
      case True
      with ok daemon_ok_reset [OF ok] show ?thesis by blast
    next
      case False
      with more nxt have "finish_assertion (rep_cid request) r1 (d\<lparr>d_request := req, d_store := st', d_world := w'\<rparr>) = (r, d')"
        by (auto simp: handle_get_next_assertion_def Let_def split: if_splits)
      then show ?thesis using get_assertion_next_ok [OF st seq nxt] by (elim finish_assertion_daemon_ok) auto
    qed
  next
    case other
    with daemon_ok_reset [OF ok] show ?thesis by simp
  qed
qed

interpretation daemon: invariant_handler "handle_command ctx" reset_handler daemon_ok for ctx
  by unfold_locales (use handle_command_daemon_ok daemon_ok_reset in blast)+

lemma asserts_sequence [simp]:
  "asserts env uid c n (req\<lparr>ga_sequence := s\<rparr>) st st' payload = asserts env uid c n req st st' payload"
  by (simp add: asserts_def assertion_payload_def)

lemma finish_assertion_success:
  assumes "finish_assertion cid r d = (Inr p, d')" "length (pkt_payload p) \<noteq> 1"
  shows "r = Inr (pkt_payload p) \<and> d' = d"
  using assms
  by (auto simp: finish_assertion_def fail_ceremony_def cbor_packet_def make_status_error_def make_cbor_error_def
      split: sum.splits if_splits)

lemma assertion_consent_granted:
  assumes "assertion_consent env user f = Inr (Inr (present, verified))"
  shows "ga_options f ''up'' = Some present \<and> ga_options f ''uv'' = Some verified \<and>
    (verified \<longrightarrow> env_verification env user
       \<lparr>uir_operation = get_assertion, uir_relyingPartyId = ga_rpId f, uir_requestId = 0\<rparr> = Inr approved) \<and>
    (present \<and> \<not> verified \<longrightarrow> env_presence env user
       \<lparr>uir_operation = get_assertion, uir_relyingPartyId = ga_rpId f, uir_requestId = 0\<rparr> = Inr approved)"
  using assms
  by (auto simp: assertion_consent_def assertion_interaction_def bind_result_eq_Inr Let_def option_at_def
      split: if_splits option.splits)

section \<open>Sample environment\<close>

text \<open>A user who approves, a TPM, a hash and a CBOR library with fixed answers, and a daemon that holds
  the sample credential.\<close>

definition sample_user :: UserContext where
  "sample_user = \<lparr>uc_uid = 1000, uc_name = ''ada'', uc_session = None\<rparr>"

definition sample_env :: Env where
  "sample_env = \<lparr>env_tinycbor = (\<lambda>_. Inr sample_cursor), env_emit = (\<lambda>_. [[7]]), env_stop = (\<lambda>_. False),
     env_context = Inr sample_user, env_presence = (\<lambda>_ _. Inr approved),
     env_verification = (\<lambda>_ _. Inr denied), env_sha256 = (\<lambda>_. Inr (replicate 32 5)),
     env_random = (\<lambda>n. Inr (replicate n 6)), env_create = (\<lambda>_. Inr \<lparr>publicBlob = [1], privateBlob = [2]\<rparr>),
     env_sign = (\<lambda>_ _ _ _. Inr [9]), env_extractPublic = (\<lambda>_. Inr ([1], [2])), env_now = 0, env_io = sample_io\<rparr>"

abbreviation sample_fields :: GetAssertionFields where
  "sample_fields \<equiv> clear_get_assertion\<lparr>ga_rpId := ''rp'', ga_clientDataHash := replicate 32 0\<rparr>"

abbreviation stored_sample :: StoredCredential where
  "stored_sample \<equiv> sample_credential\<lparr>cred_ownerUid := 1000, cred_creationOrder := 1\<rparr>"

definition sample_daemon :: "u64 Daemon" where
  "sample_daemon = \<lparr>d_request = clear_request, d_store = sample_store, d_world = sample_world\<lparr>w_counter := 1\<rparr>\<rparr>"

definition sample_sequence :: AssertionSequence where
  "sample_sequence = \<lparr>seq_credentials = [stored_sample], seq_index = 0, seq_originCid = 5,
     seq_ownerContext = Some (context_binding sample_user), seq_lastUse = 0\<rparr>"

definition sample_request :: "u8 \<Rightarrow> UHIDReport" where
  "sample_request command =
     \<lparr>rep_cid = 5, rep_cmd = CTAPHID_CBOR, rep_len = 1, rep_payload = [command], rep_seq = 0\<rparr>"

definition sample_response :: bytes where
  "sample_response = [0, 7, 7, 7, 7, 7, 7, 7, 7, 7, 7, 7, 7, 7, 7, 7, 7, 7, 7]"

lemma sample_env_simps [simp]:
  "env_tinycbor sample_env = (\<lambda>_. Inr sample_cursor)" "env_emit sample_env = (\<lambda>_. [[7]])"
  "env_stop sample_env = (\<lambda>_. False)" "env_context sample_env = Inr sample_user"
  "env_presence sample_env = (\<lambda>_ _. Inr approved)" "env_verification sample_env = (\<lambda>_ _. Inr denied)"
  "env_sha256 sample_env = (\<lambda>_. Inr (replicate 32 5))" "env_sign sample_env = (\<lambda>_ _ _ _. Inr [9])"
  "env_io sample_env = sample_io" "env_now sample_env = 0"
  by (simp_all add: sample_env_def)

lemma sample_simps [simp]:
  "uc_uid sample_user = 1000" "cancellation_point False = Inr ()"
  "ga_allowList clear_get_assertion = []" "get_assertion_validation_error sample_fields = None"
  "rep_cid (sample_request command) = 5" "rep_payload (sample_request command) = [command]"
  by (simp_all add: sample_user_def cancellation_point_def clear_get_assertion_def get_assertion_validation_error_def
      sample_request_def)

lemma sample_payload:
  "ga_fields req = sample_fields \<Longrightarrow> ga_userVerified req = False \<Longrightarrow>
   assertion_payload sample_env stored_sample None req = Inr sample_response"
  by (simp add: assertion_payload_def build_authenticatorGetAssertion_response_def encode_cbor_def
      append_cbor_def CTAPHID_MAX_PAYLOAD_SIZE_def sample_response_def)

lemma sample_generate:
  assumes "ga_fields req = sample_fields" "ga_userVerified req = False"
  obtains st' w' where "generate_single_credential_payload lenient_context sample_env stored_sample 1000 None req
    sample_store (sample_world\<lparr>w_counter := 1\<rparr>) = (Inr sample_response, st', w')"
  using sample_increment sample_payload [OF assms]
  by (auto simp: generate_single_credential_payload_def sample_credential_def)

lemma sample_daemon_ok: "daemon_ok sample_daemon"
  "daemon_ok (sample_daemon\<lparr>d_request := clear_request\<lparr>ga_fields := sample_fields, ga_sequence := sample_sequence\<rparr>\<rparr>)"
  using store_ok_sample
  by (simp_all add: daemon_ok_def sample_daemon_def clear_request_def sequence_clear_def sequence_ok_def sample_sequence_def Let_def
      context_binding_def sample_user_def pending_in_store_def sample_store_def sample_storage_def sample_credential_def)

text \<open>The sample assertion for any user 1000 who confirms their presence, with any key that signs.\<close>

lemma sample_assertion_with:
  assumes "uc_uid user = 1000"
    and "presence user \<lparr>uir_operation = get_assertion, uir_relyingPartyId = ''rp'', uir_requestId = 0\<rparr> = Inr approved"
    and "\<And>bs. hash bs = Inr (replicate 32 5)" "signer (replicate 16 1) (replicate 32 5) [2] [1] = Inr signature"
  shows "\<exists>p d'. handle_command lenient_context
      (sample_env\<lparr>env_context := Inr user, env_presence := presence, env_verification := verification, env_sha256 := hash,
         env_random := random, env_create := create, env_sign := signer, env_extractPublic := public_of\<rparr>)
      (sample_request 0x02) sample_daemon = (Inr p, d') \<and> pkt_payload p = sample_response \<and> ga_fields (d_request d') = sample_fields"
proof -
  let ?env = "sample_env\<lparr>env_context := Inr user, env_presence := presence, env_verification := verification,
    env_sha256 := hash, env_random := random, env_create := create, env_sign := signer, env_extractPublic := public_of\<rparr>"
  let ?req = "clear_request\<lparr>ga_fields := sample_fields, ga_userPresent := True, ga_userVerified := False\<rparr>"
  have "signer (cred_id sample_credential) (replicate 32 5) (cred_public_blob sample_credential)
      (cred_private_blob sample_credential) = Inr signature"
    using assms(4) by (simp add: sample_credential_def)
  then have "assertion_payload ?env stored_sample None ?req = Inr sample_response"
    by (simp add: assms(3) assertion_payload_def build_authenticatorGetAssertion_response_def encode_cbor_def
        append_cbor_def CTAPHID_MAX_PAYLOAD_SIZE_def sample_response_def)
  then obtain st' w' where gen: "generate_single_credential_payload lenient_context ?env stored_sample 1000 None ?req
      sample_store (sample_world\<lparr>w_counter := 1\<rparr>) = (Inr sample_response, st', w')"
    using sample_increment by (auto simp: generate_single_credential_payload_def sample_credential_def)
  have found: "find_for_assertion sample_store ''rp'' [] 1000 = Inr [stored_sample]"
    by (simp add: find_for_assertion_def require_ready_def sample_store_def sample_storage_def sample_credential_def
        sort_by_def)
  have consent: "assertion_consent ?env user sample_fields = Inr (Inr (True, False))"
    using assms(2)
    by (simp add: assertion_consent_def assertion_interaction_def option_at_def clear_get_assertion_def
        cancellation_point_def Let_def)
  have "assertion_after_consent lenient_context ?env 5 user [stored_sample] ?req sample_store
      (sample_world\<lparr>w_counter := 1\<rparr>) = (Inr sample_response, ?req, st', w')"
    using gen assms(1) by (simp add: assertion_after_consent_def has_assertion_continuations_def Let_def)
  then have "get_assertion_build_response lenient_context ?env 5 (clear_request\<lparr>ga_fields := sample_fields\<rparr>)
      sample_store (sample_world\<lparr>w_counter := 1\<rparr>) = (Inr sample_response, ?req, st', w')"
    using found consent assms(1) by (simp add: get_assertion_build_response_def Let_def)
  then show ?thesis
    using sample_request_parsed [of "[]"]
    by (simp add: handle_command_def handle_get_assertion_def sample_daemon_def reset_handler_def
        finish_assertion_def cbor_packet_def CTAPHID_MAX_PAYLOAD_SIZE_def Let_def sample_response_def)
qed

lemma sample_assertion:
  assumes "uc_uid user = 1000"
    and "presence user \<lparr>uir_operation = get_assertion, uir_relyingPartyId = ''rp'', uir_requestId = 0\<rparr> = Inr approved"
  shows "\<exists>p d'. handle_command lenient_context
      (sample_env\<lparr>env_context := Inr user, env_presence := presence, env_verification := verification\<rparr>)
      (sample_request 0x02) sample_daemon = (Inr p, d') \<and> pkt_payload p = sample_response \<and> ga_fields (d_request d') = sample_fields"
  using sample_assertion_with [where user = user and presence = presence and verification = verification and
      hash = "env_sha256 sample_env" and signer = "env_sign sample_env" and signature = "[9]" and
      random = "env_random sample_env" and create = "env_create sample_env" and public_of = "env_extractPublic sample_env"] assms
  by (simp add: sample_env_def)

lemma assertion_success:
  assumes ok: "daemon_ok d" and run: "handle_command ctx env request d = (Inr p, d')"
    and cmd: "hd (rep_payload request) = 0x02" and success: "length (pkt_payload p) \<noteq> 1"
  shows "\<exists>user c rest up uv f. env_context env = Inr user \<and> f = ga_fields (d_request d') \<and>
    get_assertion_parseRequest (env_tinycbor env) (tl (rep_payload request)) = (Inr True, f) \<and>
    ga_options f ''up'' = Some up \<and> ga_options f ''uv'' = Some uv \<and>
    ga_userPresent (d_request d') = up \<and> ga_userVerified (d_request d') = uv \<and>
    (uv \<longrightarrow> env_verification env user
       \<lparr>uir_operation = get_assertion, uir_relyingPartyId = ga_rpId f, uir_requestId = 0\<rparr> = Inr approved) \<and>
    (up \<and> \<not> uv \<longrightarrow> env_presence env user
       \<lparr>uir_operation = get_assertion, uir_relyingPartyId = ga_rpId f, uir_requestId = 0\<rparr> = Inr approved) \<and>
    find_for_assertion (d_store d) (ga_rpId f) (ga_allowList f) (uc_uid user) = Inr (c # rest) \<and>
    asserts env (uc_uid user) c
      (if ga_allowList f = [] \<and> rest \<noteq> [] then Some (word_of_nat (length (c # rest))) else None)
      (d_request d') (d_store d) (d_store d') (pkt_payload p)"
proof -
  have st: "store_ok (d_store d)" using ok by (simp add: daemon_ok_def)
  obtain r1 f where parse: "get_assertion_parseRequest (env_tinycbor env) (tl (rep_payload request)) = (r1, f)" by fastforce
  let ?req = "clear_request\<lparr>ga_fields := f\<rparr>"
  obtain r req st' w' where build: "get_assertion_build_response ctx env (rep_cid request) ?req (d_store d) (d_world d) =
      (r, req, st', w')" by (metis surj_pair)
  have handled: "handle_get_assertion ctx env request d = (Inr p, d')"
    using run cmd by (simp add: handle_command_def)
  then have r1: "r1 = Inr True"
    using success parse by (auto simp: handle_get_assertion_def Let_def make_cbor_error_def split: sum.splits bool.splits)
  with handled parse build have "finish_assertion (rep_cid request) r
     ((reset_handler d)\<lparr>d_request := req, d_store := st', d_world := w'\<rparr>) = (Inr p, d')"
    by (simp add: handle_get_assertion_def Let_def)
  from finish_assertion_success [OF this success] have r: "r = Inr (pkt_payload p)"
    and d': "d_request d' = req" "d_store d' = st'" by auto
  from build show ?thesis
  proof (cases rule: get_assertion_cases)
    case refused
    with r success show ?thesis by simp
  next
    case (consented user available present verified)
    note mem = find_for_assertion_stored [OF consented(2)]
    from consented(4) mem have "\<forall>c \<in> set available. cred_ownerUid c = uc_uid user" by blast
    with consented(4) show ?thesis
    proof (cases rule: assertion_after_consent_cases)
      case (asserted c remaining payload)
      have "c \<in> snd ` set (stored (d_store d))" "cred_rpId c = ga_rpId f" using mem asserted(1) by auto
      with generate_asserts [OF st store_ok_lookup [OF st] _ asserted(2)] asserted r
      have "asserts env (uc_uid user) c
          (if ga_allowList f = [] \<and> remaining \<noteq> [] then Some (word_of_nat (length (c # remaining))) else None)
          req (d_store d) st' (pkt_payload p)" by (auto split: if_splits)
      moreover have "ga_fields req = f \<and> ga_userPresent req = present \<and> ga_userVerified req = verified"
        using asserted(4) by simp
      ultimately show ?thesis
        using consented(1,2) assertion_consent_granted [OF consented(3)] asserted(1) parse r1 d'
        by (intro exI [of _ user] exI [of _ c] exI [of _ remaining] exI [of _ present] exI [of _ verified] exI [of _ f])
          simp
    qed (use r success in auto)
  qed
qed



text \<open>
  C20.  A successful authenticatorGetNextAssertion continues the sequence: it came on the channel that
  began it, within 30 seconds of the last use, while the same user session is current.  It is signed
  with the next credential of the sequence, which is the stored one and belongs to that user, over the
  counter that the store then holds, with the consent flags and parameters of the first assertion.
\<close>

theorem next_assertion_authentic:
  assumes ok: "daemon_ok d" and run: "handle_command ctx env request d = (Inr p, d')"
    and cmd: "hd (rep_payload request) = 0x08" and success: "length (pkt_payload p) \<noteq> 1"
    and seq: "seq = ga_sequence (d_request d)"
  shows "\<exists>user. env_context env = Inr user \<and> seq_originCid seq = rep_cid request \<and> rep_cid request \<noteq> 0 \<and>
    seq_ownerContext seq = Some (context_binding user) \<and> env_now env - seq_lastUse seq \<le> seconds 30 \<and>
    asserts env (uc_uid user) (seq_credentials seq ! seq_index seq) None (d_request d')
      (d_store d) (d_store d') (pkt_payload p) \<and>
    d_request d' = (d_request d)\<lparr>ga_sequence :=
      if seq_index seq + 1 = length (seq_credentials seq) then sequence_clear
      else seq\<lparr>seq_index := seq_index seq + 1, seq_lastUse := env_now env\<rparr>\<rparr>"
proof -
  have st: "store_ok (d_store d)" and sq: "sequence_ok (d_request d) (d_store d)" using ok by (simp_all add: daemon_ok_def)
  obtain r req st' w' where build: "get_assertion_build_response_next ctx env (rep_cid request) (d_request d)
     (d_store d) (d_world d) = (r, req, st', w')" by (metis surj_pair)
  have "handle_get_next_assertion ctx env request d = (Inr p, d')"
    using run cmd by (simp add: handle_command_def)
  then have "finish_assertion (rep_cid request) r (d\<lparr>d_request := req, d_store := st', d_world := w'\<rparr>) = (Inr p, d')"
    using success build by (auto simp: handle_get_next_assertion_def Let_def make_cbor_error_def split: if_splits)
  from finish_assertion_success [OF this success] have r: "r = Inr (pkt_payload p)"
    and d': "d_request d' = req" "d_store d' = st'" by auto
  from build show ?thesis
  proof (cases rule: get_assertion_next_cases)
    case refused
    with r success show ?thesis by simp
  next
    case (attempted user c seq')
    then have gen: "generate_single_credential_payload ctx env c (uc_uid user) None req (d_store d) (d_world d) =
        (Inr (pkt_payload p), st', w')" using r by (auto split: if_splits)
    obtain rest where "pending_in_store (ga_rpId (ga_fields (d_request d))) (uc_uid user) (d_store d) (c # rest)"
      using sequence_next_pending [OF sq attempted(2)] by metis
    then have "asserts env (uc_uid user) c None req (d_store d) st' (pkt_payload p)"
      using generate_asserts [OF st _ _ gen] attempted(3) by (simp add: pending_in_store_def)
    with sequence_next_Some [OF attempted(2)] attempted d' show ?thesis
      unfolding seq by (auto simp: SEQUENCE_TIMEOUT_def)
  qed
qed


theorem next_assertion_authentic_witness:
  "\<exists>p d'. handle_command lenient_context sample_env (sample_request 0x08)
       (sample_daemon\<lparr>d_request := clear_request\<lparr>ga_fields := sample_fields, ga_sequence := sample_sequence\<rparr>\<rparr>) =
       (Inr p, d') \<and>
     asserts sample_env 1000 stored_sample None (d_request d') sample_store (d_store d') (pkt_payload p) \<and>
     ga_sequence (d_request d') = sequence_clear"
proof -
  let ?req = "clear_request\<lparr>ga_fields := sample_fields, ga_sequence := sample_sequence\<rparr>"
  let ?req' = "clear_request\<lparr>ga_fields := sample_fields, ga_sequence := sequence_clear\<rparr>"
  obtain st' w' where gen: "generate_single_credential_payload lenient_context sample_env stored_sample 1000 None ?req'
    sample_store (sample_world\<lparr>w_counter := 1\<rparr>) = (Inr sample_response, st', w')"
    using sample_generate [of ?req'] by (auto simp: clear_request_def)
  have "sequence_next 5 sample_user 0 sample_sequence = (Some stored_sample, sequence_clear)"
    by (simp add: sequence_next_def sample_sequence_def)
  with gen have "get_assertion_build_response_next lenient_context sample_env 5 ?req sample_store
      (sample_world\<lparr>w_counter := 1\<rparr>) = (Inr sample_response, ?req', st', w')"
    by (simp add: get_assertion_build_response_next_def Let_def)
  then obtain p d' where run: "handle_command lenient_context sample_env (sample_request 0x08)
      (sample_daemon\<lparr>d_request := ?req\<rparr>) = (Inr p, d')" "pkt_payload p = sample_response"
    by (simp add: handle_command_def handle_get_next_assertion_def sample_daemon_def sample_sequence_def
        finish_assertion_def cbor_packet_def CTAPHID_MAX_PAYLOAD_SIZE_def Let_def sample_response_def)
  have "hd (rep_payload (sample_request 8)) = 8" "length (pkt_payload p) \<noteq> 1"
    by (simp_all add: run(2) sample_response_def)
  from next_assertion_authentic [OF sample_daemon_ok(2) run(1) this refl] run(1) show ?thesis
    by (auto simp: sample_daemon_def sample_sequence_def)
qed

lemma put_credential_keeps_on_error:
  assumes "put_credential ctx io cred uid st w = (Inl e, st', w')"
  shows "stored st' = stored st"
proof (cases "put_storage st cred uid")
  case (Inl e')
  with assms show ?thesis by (simp add: put_credential_def save_result_def)
next
  case (Inr updated)
  with assms have "save_and_swap ctx io updated st w = (Inl e, st', w')" by (simp add: put_credential_def save_result_def)
  then show ?thesis by (cases rule: save_and_swap_cases) auto
qed

lemma registration_consent_granted:
  assumes "registration_consent env user req = Inr None" "mc_options req ''uv'' = Some uv"
  shows "(if uv then env_verification env user else env_presence env user)
     \<lparr>uir_operation = make_credential, uir_relyingPartyId = rp_id (mc_rp req), uir_requestId = 0\<rparr> = Inr approved"
  using assms by (cases uv) (auto simp: registration_consent_def Let_def bind_result_eq_Inr split: if_splits)

lemma selected_alg_cases: "selected_alg params = 0 \<or> selected_alg params = -7"
  by (auto simp: selected_alg_def find_Some_iff split: option.split)

lemma registration_payload_Inr:
  assumes "registration_payload env req alg = Inr (credential, payload)"
  shows "\<exists>uv. mc_options req ''uv'' = Some uv"
    "cred_rpId credential = rp_id (mc_rp req)" "cred_userId credential = ue_id (mc_user req)"
    "cred_alg credential = alg" "cred_signCount credential = 0" "mc_options req ''rk'' = Some (cred_discoverable credential)"
    "\<exists>auth sig. build_authenticatorMakeCredential_response (env_emit env) auth sig = Inr payload"
  using assms
  by (auto simp: registration_payload_def bind_result_eq_Inr Let_def option_at_def split: option.splits)

text \<open>
  C21.  The credential store gains a credential only by an authentic registration: the ceremony
  succeeded, no excluded credential of that user and relying party exists, the user approved this
  registration (by verification when it was asked for, by presence otherwise), and the one new record
  is an ES256 credential of that user for the relying party and account of the request, with counter
  zero.  Nothing else changes but the removal of the discoverable credentials it replaces.
\<close>

theorem registration_authentic:
  assumes ok: "store_ok st" and run: "make_credential_build_response ctx env req st w = (r, st', w')"
    and changed: "stored st' \<noteq> stored st"
  shows "\<exists>user credential payload uv. r = Inr payload \<and> env_context env = Inr user \<and>
    excluded_credential st (rp_id (mc_rp req)) (uc_uid user) (mc_excludeList req) = Inr False \<and>
    mc_options req ''uv'' = Some uv \<and>
    (if uv then env_verification env user else env_presence env user)
      \<lparr>uir_operation = make_credential, uir_relyingPartyId = rp_id (mc_rp req), uir_requestId = 0\<rparr> = Inr approved \<and>
    registration_payload env req (-7) = Inr (credential, payload) \<and>
    cred_rpId credential = rp_id (mc_rp req) \<and> cred_userId credential = ue_id (mc_user req) \<and>
    cred_alg credential = -7 \<and> cred_signCount credential = 0 \<and>
    map_of (stored st) (hex_text (cred_id credential)) = None \<and>
    stored st' = (hex_text (cred_id credential), new_credential st credential (uc_uid user)) #
      filter (\<lambda>(_, c). \<not> superseded_by (new_credential st credential (uc_uid user)) c) (stored st)"
  using run
proof (cases rule: make_credential_cases)
  case kept
  with changed show ?thesis by simp
next
  case (put user credential payload r')
  have "r' = Inr ()"
  proof (cases r')
    case (Inl e)
    with put(5) changed put_credential_keeps_on_error [of ctx "env_io env" credential "uc_uid user" st w e st' w']
    show ?thesis by simp
  qed simp
  with put(5) obtain updated where u: "put_storage st credential (uc_uid user) = Inr updated" "stored st' = updated"
    unfolding put_credential_def by (auto elim!: save_result_Inr)
  have reg: "registration_payload env req (-7) = Inr (credential, payload)"
    using put(1) selected_alg_cases [of "mc_publicKeyCredParams req"] by (auto simp: registers_def)
  note facts = registration_payload_Inr [OF reg]
  obtain uv where uv: "mc_options req ''uv'' = Some uv" using facts(1) ..
  with put(1,6) \<open>r' = Inr ()\<close> registration_consent_granted [of env user req uv] reg facts put_storage_Inr(3,4) [OF u(1)] u(2)
  show ?thesis
    by (intro exI [of _ user] exI [of _ credential] exI [of _ payload] exI [of _ uv]) (simp add: registers_def)
qed

definition sample_registration :: CTAPMakeCredentialRequest where
  "sample_registration = clear_make_credential\<lparr>mc_rp := \<lparr>rp_id = ''rp'', rp_name = []\<rparr>,
     mc_user := \<lparr>ue_id = [3], ue_name = [], ue_displayName = []\<rparr>,
     mc_publicKeyCredParams := [\<lparr>pk_type = ''public-key'', pk_alg = -7\<rparr>]\<rparr>"

abbreviation registered_sample :: StoredCredential where
  "registered_sample \<equiv> \<lparr>cred_id = replicate 32 6, cred_ownerUid = 0, cred_rpId = ''rp'', cred_userId = [3],
     cred_userName = [], cred_userDisplayName = [], cred_alg = -7, cred_signCount = 0, cred_private_blob = [2],
     cred_public_blob = [1], cred_discoverable = False, cred_creationOrder = 0\<rparr>"

lemma sample_registration_payload:
  "\<exists>payload. registration_payload sample_env sample_registration (-7) = Inr (registered_sample, payload)"
  by (simp add: registration_payload_def sample_registration_def clear_make_credential_def option_at_def Let_def)
    (simp add: sample_env_def build_cose_key_def build_authenticatorMakeCredential_response_def encode_cbor_def pad32_def
      append_cbor_def CTAPHID_MAX_PAYLOAD_SIZE_def)

lemma sample_registration_put:
  "\<exists>st' w'. put_credential lenient_context sample_io registered_sample 1000 sample_store
     (sample_world\<lparr>w_counter := 1\<rparr>) = (Inr (), st', w') \<and> length (stored st') = 2"
proof -
  have "\<exists>updated. put_storage sample_store registered_sample 1000 = Inr updated \<and> length updated = 2"
    by (simp add: put_storage_def require_ready_def sample_store_def sample_storage_def sample_credential_def
        validate_credential_def MAX_CREDENTIALS_def MAX_CREDENTIAL_BLOB_SIZE_def)
  then obtain updated where u: "put_storage sample_store registered_sample 1000 = Inr updated" "length updated = 2" by blast
  with store_ok_put [OF store_ok_sample u(1)] lenient_save_result [of updated sample_store] obtain st' w' where
    run: "save_result lenient_context sample_io (Inr updated) sample_store (sample_world\<lparr>w_counter := 1\<rparr>) = (Inr (), st', w')"
    by (auto simp: store_ok_def sample_store_def)
  then have "stored st' = updated" by (rule save_result_Inr) simp
  with run u show ?thesis by (auto simp: put_credential_def)
qed

theorem registration_authentic_witness:
  "\<exists>payload st' w'. make_credential_build_response lenient_context sample_env sample_registration sample_store
       (sample_world\<lparr>w_counter := 1\<rparr>) = (Inr payload, st', w') \<and>
     length (stored st') = Suc (length (stored sample_store)) \<and>
     map_of (stored st') (hex_text (replicate 32 6)) = Some (new_credential sample_store registered_sample 1000)"
proof -
  obtain st' w' where put: "put_credential lenient_context sample_io registered_sample 1000 sample_store
     (sample_world\<lparr>w_counter := 1\<rparr>) = (Inr (), st', w')" and two: "length (stored st') = 2"
    using sample_registration_put by blast
  obtain payload where reg: "registration_payload sample_env sample_registration (-7) = Inr (registered_sample, payload)"
    using sample_registration_payload by blast
  have consent: "registration_consent sample_env sample_user sample_registration = Inr None"
    by (simp add: registration_consent_def sample_registration_def clear_make_credential_def)
  have run: "make_credential_build_response lenient_context sample_env sample_registration sample_store
       (sample_world\<lparr>w_counter := 1\<rparr>) = (Inr payload, st', w')"
    using consent reg put
    by (simp add: make_credential_build_response_def Let_def)
      (simp add: sample_registration_def clear_make_credential_def selected_alg_def make_credential_validation_error_def)
  have "stored st' \<noteq> stored sample_store" using two by (auto simp: sample_store_def sample_storage_def)
  from registration_authentic [OF store_ok_sample run this] reg run show ?thesis
    by (auto simp: sample_store_def sample_storage_def superseded_by_def new_credential_def)
qed

lemma append_chunks_prefix: "append_chunks acc chunks = Inr result \<Longrightarrow> \<exists>rest. result = acc @ rest"
  by (induction acc chunks rule: append_chunks.induct)
    (fastforce simp: bind_result_eq_Inr append_cbor_def split: if_splits)+

lemma run_calls_prefix: "run_calls emit acc calls = Inr result \<Longrightarrow> \<exists>rest. result = acc @ rest"
  by (induction emit acc calls rule: run_calls.induct)
    (fastforce simp: bind_result_eq_Inr dest: append_chunks_prefix)+

lemma make_credential_response_status:
  "build_authenticatorMakeCredential_response emit auth sig = Inr payload \<Longrightarrow> \<exists>rest. payload = 0 # rest"
  unfolding build_authenticatorMakeCredential_response_def encode_cbor_def
  by (drule run_calls_prefix) simp

lemma registration_consent_refused:
  "registration_consent env user req = Inr (Some payload) \<Longrightarrow>
   payload = status_payload CTAP2_ERR_OPERATION_DENIED \<or> payload = status_payload ctap20_uv_failure_error"
  by (auto simp: registration_consent_def Let_def bind_result_eq_Inr split: option.splits bool.splits if_splits)

lemma excluded_credential_True:
  "excluded_credential st rp uid ds = Inr True \<Longrightarrow>
   \<exists>d \<in> set ds. desc_type d = ''public-key'' \<and> has_for_rp st (desc_id d) rp uid = Inr True"
  by (induction ds) (auto simp: bind_result_eq_Inr split: if_splits)

text \<open>
  C22.  That a credential is excluded is revealed only with consent: the status CREDENTIAL_EXCLUDED is
  answered only when the exclude list names a credential of the current user for that relying party and
  the user approved the presence check for it, and the store is left alone.
\<close>

theorem exclusion_needs_presence:
  assumes run: "make_credential_build_response ctx env req st w = (Inr payload, st', w')"
    and status: "payload = status_payload CTAP2_ERR_CREDENTIAL_EXCLUDED"
  shows "st' = st \<and> (\<exists>user d. env_context env = Inr user \<and> d \<in> set (mc_excludeList req) \<and>
    desc_type d = ''public-key'' \<and> has_for_rp st (desc_id d) (rp_id (mc_rp req)) (uc_uid user) = Inr True \<and>
    env_presence env user \<lparr>uir_operation = check_excluded_credential,
      uir_relyingPartyId = rp_id (mc_rp req), uir_requestId = 0\<rparr> = Inr approved)"
proof -
  have code: "ctap_error_code CTAP2_ERR_CREDENTIAL_EXCLUDED = 0x19" by simp
  have fresh: "payload' \<noteq> payload" if "registration_payload env req alg = Inr (credential, payload')" for alg credential payload'
    using registration_payload_Inr(7) [OF that] make_credential_response_status status
    by (fastforce simp: status_payload_def)
  let ?pre = "bind_result (cancellation_point (env_stop env 0)) (\<lambda>_.
           bind_result (env_context env) (\<lambda>user.
           bind_result (excluded_credential st (rp_id (mc_rp req)) (uc_uid user) (mc_excludeList req)) (\<lambda>excluded.
             Inr (user, excluded))))"
  obtain user excluded where pre: "?pre = Inr (user, excluded)"
    using run by (cases ?pre) (auto simp: make_credential_build_response_def Let_def)
  then have user: "env_context env = Inr user"
    and ex: "excluded_credential st (rp_id (mc_rp req)) (uc_uid user) (mc_excludeList req) = Inr excluded"
    by (auto simp: bind_result_eq_Inr)
  show ?thesis
  proof (cases excluded)
    case True
    with run pre have "excluded_response env user (rp_id (mc_rp req)) = Inr payload" "st' = st"
      by (auto simp: make_credential_build_response_def Let_def)
    then show ?thesis
      using user excluded_credential_True [of st "rp_id (mc_rp req)"] ex True status
      by (auto simp: excluded_response_def bind_result_eq_Inr status_payload_def split: if_splits)
  next
    case False
    with run pre fresh registration_consent_refused [of env user req] status show ?thesis
      by (auto simp: make_credential_build_response_def Let_def make_credential_validation_error_def status_payload_def
          ctap20_uv_failure_error_def split: if_splits option.splits sum.splits prod.splits)
  qed
qed

theorem exclusion_needs_presence_witness:
  "make_credential_build_response lenient_context sample_env
      (sample_registration\<lparr>mc_excludeList := [\<lparr>desc_type = ''public-key'', desc_id = replicate 16 1, desc_transports = []\<rparr>]\<rparr>)
      sample_store sample_world = (Inr (status_payload CTAP2_ERR_CREDENTIAL_EXCLUDED), sample_store, sample_world) \<and>
   has_for_rp sample_store (replicate 16 1) ''rp'' 1000 = Inr True"
proof -
  let ?req = "sample_registration\<lparr>mc_excludeList :=
      [\<lparr>desc_type = ''public-key'', desc_id = replicate 16 1, desc_transports = []\<rparr>]\<rparr>"
  have "has_for_rp sample_store (replicate 16 1) ''rp'' 1000 = Inr True"
    by (simp add: has_for_rp_def require_ready_def find_credential_def sample_store_def sample_storage_def
        sample_credential_def)
  then have run: "make_credential_build_response lenient_context sample_env ?req sample_store sample_world =
      (Inr (status_payload CTAP2_ERR_CREDENTIAL_EXCLUDED), sample_store, sample_world)"
    by (simp add: make_credential_build_response_def Let_def excluded_response_def sample_registration_def)
  from exclusion_needs_presence [OF run refl] run show ?thesis by (simp add: sample_registration_def)
qed

end
