(* ===== verification/Effects.thy ===== *)
theory Effects
  imports Prelude
begin

text \<open>
  Computations that act on a state and may throw, for the components whose code threads one object
  through a long sequence of calls: \<open>exec_bind\<close> is sequencing, \<open>exec_catch\<close> a handler of every
  exception, and the state changes made before an exception stay.
\<close>

type_synonym ('s, 'a) exec = "'s \<Rightarrow> 'a result \<times> 's"

definition exec_return :: "'a \<Rightarrow> ('s, 'a) exec" where
  "exec_return x s = (Inr x, s)"

definition exec_throw :: "exn \<Rightarrow> ('s, 'a) exec" where
  "exec_throw e s = (Inl e, s)"

definition exec_lift :: "'a result \<Rightarrow> ('s, 'a) exec" where
  "exec_lift r s = (r, s)"

definition exec_modify :: "('s \<Rightarrow> 's) \<Rightarrow> ('s, unit) exec" where
  "exec_modify f s = (Inr (), f s)"

definition exec_get :: "('s \<Rightarrow> 'a) \<Rightarrow> ('s, 'a) exec" where
  "exec_get f s = (Inr (f s), s)"

definition exec_bind :: "('s, 'a) exec \<Rightarrow> ('a \<Rightarrow> ('s, 'b) exec) \<Rightarrow> ('s, 'b) exec" where
  "exec_bind m f s = (case m s of (Inl e, s') \<Rightarrow> (Inl e, s') | (Inr x, s') \<Rightarrow> f x s')"

definition exec_then :: "('s, 'a) exec \<Rightarrow> ('s, 'b) exec \<Rightarrow> ('s, 'b) exec" where
  "exec_then m k = exec_bind m (\<lambda>_. k)"

definition exec_catch :: "('s, 'a) exec \<Rightarrow> (exn \<Rightarrow> ('s, 'a) exec) \<Rightarrow> ('s, 'a) exec" where
  "exec_catch m h s = (case m s of (Inl e, s') \<Rightarrow> h e s' | (Inr x, s') \<Rightarrow> (Inr x, s'))"

definition exec_guard :: "bool \<Rightarrow> exn \<Rightarrow> ('s, unit) exec" where
  "exec_guard ok e s = (if ok then Inr () else Inl e, s)"

lemmas exec_defs = exec_return_def exec_throw_def exec_lift_def exec_modify_def exec_get_def exec_guard_def

named_theorems exec_simps

lemma exec_prim [exec_simps]:
  "exec_return x s = (Inr x, s)" "exec_throw e s = (Inl e, s)" "exec_lift r s = (r, s)"
  "exec_modify f s = (Inr (), f s)" "exec_get g s = (Inr (g s), s)"
  by (simp_all add: exec_defs)

lemma exec_bind_Inr [exec_simps]:
  "exec_bind m f s = (Inr y, s'') \<longleftrightarrow> (\<exists>x s'. m s = (Inr x, s') \<and> f x s' = (Inr y, s''))"
  by (auto simp: exec_bind_def split: prod.splits sum.splits)

lemma exec_then_Inr [exec_simps]:
  "exec_then m k s = (Inr y, s'') \<longleftrightarrow> (\<exists>x s'. m s = (Inr x, s') \<and> k s' = (Inr y, s''))"
  by (simp add: exec_then_def exec_bind_Inr)

lemma exec_guard_Inr [exec_simps]: "exec_guard ok e s = (Inr u, s') \<longleftrightarrow> ok \<and> s' = s"
  by (auto simp: exec_guard_def)

lemma exec_lift_bind [exec_simps]:
  "exec_bind (exec_lift (Inr x)) f = f x" "exec_bind (exec_lift (Inl e)) f = exec_throw e"
  by (auto simp: exec_bind_def exec_lift_def exec_throw_def)

lemma exec_bind_cases:
  assumes "exec_bind m f s = (r, s'')"
  obtains (threw) e where "m s = (Inl e, s'')" "r = Inl e"
  | (went_on) x s' where "m s = (Inr x, s')" "f x s' = (r, s'')"
  using assms by (auto simp: exec_bind_def split: prod.splits sum.splits)

text \<open>A relation between the state before and after that every step of a computation keeps.\<close>

definition keeps :: "('s \<Rightarrow> 's \<Rightarrow> bool) \<Rightarrow> ('s, 'a) exec \<Rightarrow> bool" where
  "keeps R m \<longleftrightarrow> (\<forall>s r s'. m s = (r, s') \<longrightarrow> R s s')"

named_theorems keeps_intros

lemma keeps_prim [keeps_intros]:
  assumes "reflp R"
  shows "keeps R (exec_return x)" "keeps R (exec_throw e)" "keeps R (exec_lift r)"
    "keeps R (exec_get g)" "keeps R (exec_guard ok e)"
  using assms by (auto simp: keeps_def exec_defs reflp_def)

lemma keeps_modify: "keeps R (exec_modify f) \<longleftrightarrow> (\<forall>s. R s (f s))"
  by (auto simp: keeps_def exec_modify_def)

lemma keeps_bind [keeps_intros]:
  assumes "transp R" "keeps R m" "\<And>x. keeps R (f x)"
  shows "keeps R (exec_bind m f)"
  unfolding keeps_def
proof (intro allI impI)
  fix s r s'
  assume "exec_bind m f s = (r, s')"
  then show "R s s'"
    by (cases rule: exec_bind_cases) (use assms in \<open>unfold keeps_def, blast dest: transpD\<close>)+
qed

lemma keeps_then [keeps_intros]:
  "transp R \<Longrightarrow> keeps R m \<Longrightarrow> keeps R k \<Longrightarrow> keeps R (exec_then m k)"
  by (simp add: exec_then_def keeps_bind)

lemma keeps_catch [keeps_intros]:
  assumes "transp R" "keeps R m" "\<And>e. keeps R (h e)"
  shows "keeps R (exec_catch m h)"
  using assms unfolding keeps_def exec_catch_def
  by (auto split: prod.splits sum.splits dest: transpD) (metis transpD)

lemma keeps_if [keeps_intros]:
  "(b \<Longrightarrow> keeps R m) \<Longrightarrow> (\<not> b \<Longrightarrow> keeps R k) \<Longrightarrow> keeps R (if b then m else k)"
  by simp

lemma keeps_option [keeps_intros]:
  "keeps R m \<Longrightarrow> (\<And>y. keeps R (f y)) \<Longrightarrow> keeps R (case x of None \<Rightarrow> m | Some y \<Rightarrow> f y)"
  by (simp split: option.split)

lemma keeps_prod [keeps_intros]: "(\<And>y z. keeps R (f y z)) \<Longrightarrow> keeps R (case p of (y, z) \<Rightarrow> f y z)"
  by (simp split: prod.split)

lemma keepsD: "keeps R m \<Longrightarrow> m s = (r, s') \<Longrightarrow> R s s'"
  by (auto simp: keeps_def)

text \<open>What holds after a computation that returns, given what held before.\<close>

definition ensures :: "('s \<Rightarrow> bool) \<Rightarrow> ('s, 'a) exec \<Rightarrow> ('a \<Rightarrow> 's \<Rightarrow> bool) \<Rightarrow> bool" where
  "ensures P m Q \<longleftrightarrow> (\<forall>s x s'. P s \<and> m s = (Inr x, s') \<longrightarrow> Q x s')"

named_theorems ensures_intros

lemma ensuresI: "(\<And>s x s'. P s \<Longrightarrow> m s = (Inr x, s') \<Longrightarrow> Q x s') \<Longrightarrow> ensures P m Q"
  by (auto simp: ensures_def)

lemma ensuresD: "ensures P m Q \<Longrightarrow> P s \<Longrightarrow> m s = (Inr x, s') \<Longrightarrow> Q x s'"
  by (simp add: ensures_def)

lemma ensures_bind: "ensures P m Q \<Longrightarrow> (\<And>x. ensures (Q x) (f x) W) \<Longrightarrow> ensures P (exec_bind m f) W"
  unfolding ensures_def exec_bind_Inr by blast

lemma ensures_then: "ensures P m (\<lambda>_. Q) \<Longrightarrow> ensures Q k W \<Longrightarrow> ensures P (exec_then m k) W"
  by (auto simp: exec_then_def intro: ensures_bind)

lemma ensures_throw [ensures_intros]:
  "ensures P (exec_throw e) Q" "ensures P (exec_then m (exec_throw e)) Q"
  by (auto simp: ensures_def exec_simps)

lemma ensures_guard [ensures_intros]: "ensures P (exec_guard ok e) (\<lambda>_ s. ok \<and> P s)"
  by (auto simp: ensures_def exec_simps)

lemma ensures_lift [ensures_intros]: "ensures P (exec_lift r) (\<lambda>x s. r = Inr x \<and> P s)"
  by (auto simp: ensures_def exec_simps)

lemma ensures_lift_bind:
  "(\<And>x. r = Inr x \<Longrightarrow> ensures P (f x) Q) \<Longrightarrow> ensures P (exec_bind (exec_lift r) f) Q"
  by (cases r) (auto simp: exec_lift_bind ensures_def exec_prim)

lemma ensures_return: "(\<And>s. P s \<Longrightarrow> Q x s) \<Longrightarrow> ensures P (exec_return x) Q"
  by (auto simp: ensures_def exec_simps)

lemma ensures_if: "(b \<Longrightarrow> ensures P m Q) \<Longrightarrow> (\<not> b \<Longrightarrow> ensures P k Q) \<Longrightarrow> ensures P (if b then m else k) Q"
  by simp

lemma ensures_weaken: "ensures P m Q \<Longrightarrow> (\<And>s. P' s \<Longrightarrow> P s) \<Longrightarrow> (\<And>x s. Q x s \<Longrightarrow> Q' x s) \<Longrightarrow> ensures P' m Q'"
  unfolding ensures_def by blast

end
