(* ===== verification/Store_Security.thy ===== *)
theory Store_Security
  imports Store_Laws Effects
begin

text \<open>
  What protects the credential store (\<open>cryptography/store_security.cpp\<close>,
  \<open>storage/authorization.cpp\<close>): the authorization value read from a file, the database key and the
  origin of the rollback counter sealed together in the TPM, and the counter itself.  The FAPI and ESYS
  libraries are a record of functions over an abstract TPM state; an error code is its decoded text.
\<close>

section \<open>Big-endian counters\<close>

definition KEY_SIZE :: nat where "KEY_SIZE = 32"
definition COUNTER_SIZE :: nat where "COUNTER_SIZE = 8"
definition SEALED_MATERIAL_SIZE :: nat where "SEALED_MATERIAL_SIZE = KEY_SIZE + COUNTER_SIZE"

definition decode_uint64 :: "bytes \<Rightarrow> u64 result" where
  "decode_uint64 data =
     (if length data \<noteq> COUNTER_SIZE then Inl (RuntimeError ''TPM rollback counter has an invalid size'')
      else Inr (foldl (\<lambda>acc b. push_bit 8 acc OR ucast b) 0 data))"

definition encode_uint64 :: "u64 \<Rightarrow> bytes" where
  "encode_uint64 v = map (\<lambda>index. ucast (drop_bit ((COUNTER_SIZE - index - 1) * 8) v)) [0..<COUNTER_SIZE]"

section \<open>The libraries\<close>

type_synonym 'a tss = "string + 'a"

text \<open>A capability response: its kind and its properties with their values.\<close>

type_synonym capability = "(nat \<times> (nat \<times> u32) list) option"

record 't Fapi =
  fapi_initialize :: "unit tss"
  fapi_set_auth_cb :: "unit tss"
  fapi_create_nv :: "string \<Rightarrow> string \<Rightarrow> nat \<Rightarrow> string \<Rightarrow> 't \<Rightarrow> unit tss \<times> 't"
  fapi_nv_increment :: "string \<Rightarrow> 't \<Rightarrow> unit tss \<times> 't"
  fapi_nv_read :: "string \<Rightarrow> 't \<Rightarrow> bytes option tss \<times> 't"
  fapi_get_random :: "nat \<Rightarrow> 't \<Rightarrow> bytes option tss \<times> 't"
  fapi_create_seal :: "string \<Rightarrow> string \<Rightarrow> string \<Rightarrow> bytes \<Rightarrow> 't \<Rightarrow> unit tss \<times> 't"
  fapi_unseal :: "string \<Rightarrow> 't \<Rightarrow> bytes option tss \<times> 't"
  fapi_delete :: "string \<Rightarrow> 't \<Rightarrow> unit tss \<times> 't"
  fapi_get_tcti :: "'t \<Rightarrow> bool tss \<times> 't"
  esys_initialize :: "'t \<Rightarrow> bool tss \<times> 't"
  esys_get_capability :: "nat \<Rightarrow> 't \<Rightarrow> capability tss \<times> 't"

record 't Security =
  sec_authorization :: string
  counterOrigin :: "u64 option"
  sec_tpm :: 't

definition KEY_PATH :: string where "KEY_PATH = ''/HS/SRK/vauth-database-key''"
definition COUNTER_PATH :: string where "COUNTER_PATH = ''/nv/Owner/vauth-db-generation''"

definition tss_check :: "'a tss \<Rightarrow> string \<Rightarrow> 'a result" where
  "tss_check r operation =
     (case r of Inl description \<Rightarrow> Inl (RuntimeError (operation @ '' failed: '' @ description)) | Inr x \<Rightarrow> Inr x)"

definition tss_call :: "('t \<Rightarrow> 'a tss \<times> 't) \<Rightarrow> string \<Rightarrow> ('t Security, 'a) exec" where
  "tss_call f operation s = (case f (sec_tpm s) of (r, t) \<Rightarrow> (tss_check r operation, s\<lparr>sec_tpm := t\<rparr>))"

section \<open>The store security object\<close>

definition security_init :: "'t Fapi \<Rightarrow> string \<Rightarrow> 't \<Rightarrow> 't Security result" where
  "security_init fapi authorization t =
     (if authorization = [] \<or> length authorization > 32 then
        Inl (InvalidArgument ''Store authorization must contain between 1 and 32 bytes'')
      else if CHR 0x00 \<in> set authorization then
        Inl (InvalidArgument ''Store authorization must not contain NUL'')
      else
        bind_result (tss_check (fapi_initialize fapi) ''Fapi_Initialize'') (\<lambda>_.
        bind_result (tss_check (fapi_set_auth_cb fapi) ''Fapi_SetAuthCB'') (\<lambda>_.
          Inr \<lparr>sec_authorization = authorization, counterOrigin = None, sec_tpm = t\<rparr>)))"

text \<open>The callback that supplies authorization values: ours, for our two objects only.\<close>

definition ends_with :: "string \<Rightarrow> string \<Rightarrow> bool" where
  "ends_with s suffix_text \<longleftrightarrow>
     length suffix_text \<le> length s \<and> drop (length s - length suffix_text) s = suffix_text"

definition authorize :: "string option \<Rightarrow> 't Security \<Rightarrow> string option" where
  "authorize object_path s =
     (let path = (case object_path of None \<Rightarrow> [] | Some p \<Rightarrow> p) in
      if ends_with path KEY_PATH \<or> ends_with path COUNTER_PATH then Some (sec_authorization s) else None)"

definition tcti :: "'t Fapi \<Rightarrow> ('t Security, unit) exec" where
  "tcti fapi = exec_bind (tss_call (fapi_get_tcti fapi) ''Fapi_GetTcti'') (\<lambda>present.
     exec_guard present (RuntimeError ''Fapi_GetTcti returned no TPM transport''))"

text \<open>Capability and property numbers and attribute bits of the TPM 2.0 specification.\<close>

definition TPM2_CAP_TPM_PROPERTIES :: nat where "TPM2_CAP_TPM_PROPERTIES = 6"
definition TPM2_PT_PERMANENT :: nat where "TPM2_PT_PERMANENT = 0x200"
definition TPM2_PT_STARTUP_CLEAR :: nat where "TPM2_PT_STARTUP_CLEAR = 0x201"
definition TPMA_STARTUP_CLEAR_SHENABLE :: u32 where "TPMA_STARTUP_CLEAR_SHENABLE = 2"
definition TPMA_PERMANENT_OWNERAUTHSET :: u32 where "TPMA_PERMANENT_OWNERAUTHSET = 1"

definition read_tpm_property :: "'t Fapi \<Rightarrow> nat \<Rightarrow> ('t Security, u32) exec" where
  "read_tpm_property fapi property =
     exec_bind (tss_call (esys_get_capability fapi property) ''Esys_GetCapability TPM properties'') (\<lambda>capability.
       case capability of
         Some (kind, [(p, v)]) \<Rightarrow>
           if kind = TPM2_CAP_TPM_PROPERTIES \<and> p = property then exec_return v
           else exec_throw (RuntimeError ''TPM returned an invalid property response'')
       | _ \<Rightarrow> exec_throw (RuntimeError ''TPM returned an invalid property response''))"

definition require_unprotected_owner_hierarchy :: "'t Fapi \<Rightarrow> ('t Security, unit) exec" where
  "require_unprotected_owner_hierarchy fapi =
     exec_then (tcti fapi)
     (exec_bind (tss_call (esys_initialize fapi) ''Esys_Initialize provisioning preflight'') (\<lambda>present.
     exec_then (exec_guard present (RuntimeError ''Esys_Initialize provisioning preflight returned no context''))
     (exec_bind (read_tpm_property fapi TPM2_PT_STARTUP_CLEAR) (\<lambda>startup_clear.
     exec_then (exec_guard (startup_clear AND TPMA_STARTUP_CLEAR_SHENABLE \<noteq> 0)
       (RuntimeError ''TPM Owner hierarchy is disabled; vAuth provisioning cannot create the rollback counter''))
     (exec_bind (read_tpm_property fapi TPM2_PT_PERMANENT) (\<lambda>permanent.
       exec_guard (permanent AND TPMA_PERMANENT_OWNERAUTHSET = 0)
       (RuntimeError ''TPM Owner hierarchy has a non-empty authorization; vAuth provisioning requires an unprotected Owner hierarchy to create the rollback counter'')))))))"

definition read_raw_counter :: "'t Fapi \<Rightarrow> ('t Security, u64) exec" where
  "read_raw_counter fapi =
     exec_bind (tss_call (fapi_nv_read fapi COUNTER_PATH) ''Fapi_NvRead rollback counter'') (\<lambda>data.
       case data of
         None \<Rightarrow> exec_throw (RuntimeError ''TPM rollback counter returned no data'')
       | Some bs \<Rightarrow>
           exec_bind (exec_lift (decode_uint64 bs)) (\<lambda>v.
           exec_then (exec_guard (v \<noteq> 0) (RuntimeError ''TPM rollback counter is not initialized''))
             (exec_return v)))"

definition unseal_key :: "'t Fapi \<Rightarrow> ('t Security, bytes) exec" where
  "unseal_key fapi =
     exec_then (exec_modify (\<lambda>s. s\<lparr>counterOrigin := None\<rparr>))
     (exec_bind (tss_call (fapi_unseal fapi KEY_PATH) ''Fapi_Unseal database key'') (\<lambda>data.
       case data of
         None \<Rightarrow> exec_throw (RuntimeError ''Sealed database material has an invalid size'')
       | Some bs \<Rightarrow>
           exec_then (exec_guard (length bs = SEALED_MATERIAL_SIZE)
             (RuntimeError ''Sealed database material has an invalid size''))
           (exec_bind (exec_lift (decode_uint64 (take COUNTER_SIZE (drop KEY_SIZE bs)))) (\<lambda>origin.
           exec_then (exec_guard (origin \<noteq> 0) (RuntimeError ''Sealed rollback counter origin is invalid''))
           (exec_then (exec_modify (\<lambda>s. s\<lparr>counterOrigin := Some origin\<rparr>))
             (exec_return (take KEY_SIZE bs)))))))"

definition read_generation_counter :: "'t Fapi \<Rightarrow> ('t Security, u64) exec" where
  "read_generation_counter fapi =
     exec_bind (exec_get counterOrigin) (\<lambda>cached.
     exec_then (if cached = None then exec_then (unseal_key fapi) (exec_return ()) else exec_return ())
     (exec_bind (read_raw_counter fapi) (\<lambda>v.
     exec_bind (exec_get counterOrigin) (\<lambda>origin.
     exec_then (exec_guard (\<not> v < the origin) (RuntimeError ''TPM rollback counter precedes its sealed origin''))
       (exec_return (v - the origin))))))"

definition increment_generation_counter :: "'t Fapi \<Rightarrow> ('t Security, unit) exec" where
  "increment_generation_counter fapi =
     tss_call (fapi_nv_increment fapi COUNTER_PATH) ''Fapi_NvIncrement rollback counter''"

text \<open>The clean-up of a provisioning that failed after the counter was created.\<close>

definition provision_cleanup :: "'t Fapi \<Rightarrow> bool \<Rightarrow> exn \<Rightarrow> ('t Security, unit) exec" where
  "provision_cleanup fapi key_created e s =
     (let (counter_cleanup, t1) = fapi_delete fapi COUNTER_PATH (sec_tpm s);
          (key_cleanup, t2) = (if key_created then fapi_delete fapi KEY_PATH t1 else (Inr (), t1))
      in (Inl (if counter_cleanup \<noteq> Inr () \<or> key_cleanup \<noteq> Inr ()
               then RuntimeError (exn_what e @ ''; cleanup of provisioned objects failed'') else e),
          s\<lparr>sec_tpm := t2, counterOrigin := None\<rparr>))"

definition provision_material :: "'t Fapi \<Rightarrow> ('t Security, unit) exec" where
  "provision_material fapi =
     exec_then (tss_call (fapi_nv_increment fapi COUNTER_PATH) ''initialize rollback counter'')
     (exec_bind (read_raw_counter fapi) (\<lambda>origin.
     exec_then (exec_guard (origin \<noteq> 0) (RuntimeError ''TPM rollback counter is not initialized''))
     (exec_bind (tss_call (fapi_get_random fapi KEY_SIZE) ''Fapi_GetRandom database key'') (\<lambda>random.
       case random of
         None \<Rightarrow> exec_throw (RuntimeError ''Fapi_GetRandom returned no database key'')
       | Some key \<Rightarrow>
           exec_bind (exec_get sec_authorization) (\<lambda>auth.
             tss_call (fapi_create_seal fapi KEY_PATH ''system,noda'' auth (take KEY_SIZE key @ encode_uint64 origin))
               ''Fapi_CreateSeal'')))))"

definition provision_check :: "'t Fapi \<Rightarrow> ('t Security, unit) exec" where
  "provision_check fapi =
     exec_then (unseal_key fapi)
     (exec_bind (read_generation_counter fapi) (\<lambda>g.
       exec_guard (g = 0) (RuntimeError ''Provisioned store security objects are invalid'')))"

definition provision :: "'t Fapi \<Rightarrow> ('t Security, unit) exec" where
  "provision fapi =
     exec_then (require_unprotected_owner_hierarchy fapi)
     (exec_then (exec_modify (\<lambda>s. s\<lparr>counterOrigin := None\<rparr>))
     (exec_bind (exec_get sec_authorization) (\<lambda>auth.
     exec_then (tss_call (fapi_create_nv fapi COUNTER_PATH ''counter,noda'' 8 auth) ''Fapi_CreateNv'')
     (exec_then (exec_catch (provision_material fapi) (provision_cleanup fapi False))
       (exec_catch (provision_check fapi) (provision_cleanup fapi True))))))"

section \<open>The authorization value\<close>

datatype StoreAuthorizationOrigin = explicit_file | systemd_credential

record StoreAuthorizationInput =
  auth_path :: string
  auth_origin :: StoreAuthorizationOrigin

definition CREDENTIAL_NAME :: string where "CREDENTIAL_NAME = ''vauth-db-auth''"

text \<open>What \<open>open\<close> and \<open>fstat\<close> say of the file, and what each \<open>read\<close> returns.\<close>

record AuthFileStatus =
  afs_regular :: bool
  afs_nlink :: nat
  afs_uid :: u32
  afs_mode :: u32
  afs_size :: int

datatype ReadOutcome = Read_interrupted | Read_failed | Read_bytes bytes

text \<open>The reading loop; \<open>None\<close> when the outcomes supplied end before it does.\<close>

fun read_authorization_loop :: "nat \<Rightarrow> bytes \<Rightarrow> ReadOutcome list \<Rightarrow> bytes result option" where
  "read_authorization_loop wanted acc [] = (if length acc \<ge> wanted then Some (Inr acc) else None)"
| "read_authorization_loop wanted acc (outcome # rest) =
     (if length acc \<ge> wanted then Some (Inr acc)
      else case outcome of
             Read_interrupted \<Rightarrow> read_authorization_loop wanted acc rest
           | Read_failed \<Rightarrow> Some (Inl (RuntimeError ''Could not read the database authorization credential''))
           | Read_bytes bs \<Rightarrow>
               if bs = [] then Some (Inl (RuntimeError ''Could not read the database authorization credential''))
               else read_authorization_loop wanted (acc @ take (wanted - length acc) bs) rest)"

definition check_authorization_file :: "u32 \<Rightarrow> StoreAuthorizationOrigin \<Rightarrow> AuthFileStatus \<Rightarrow> unit result" where
  "check_authorization_file euid origin status =
     (if \<not> afs_regular status \<or> afs_nlink status \<noteq> 1 then
        Inl (RuntimeError ''Database authorization credential must be a regular file with one link'')
      else if afs_uid status \<noteq> euid \<and> afs_uid status \<noteq> 0 then
        Inl (RuntimeError ''Database authorization credential must be owned by root or the service user'')
      else
        let mode = afs_mode status AND 0x1FF in
        if \<not> (mode = 0x100 \<or> origin = systemd_credential \<and> mode = 0x120) then
          Inl (RuntimeError (if origin = systemd_credential
            then ''Systemd database authorization credential must have mode 0400 or 0440''
            else ''Database authorization credential must have mode 0400''))
        else if afs_size status < 1 \<or> afs_size status > 34 then
          Inl (RuntimeError ''Database authorization credential has an invalid size'')
        else Inr ())"

definition strip_last :: "u8 \<Rightarrow> bytes \<Rightarrow> bytes" where
  "strip_last c bs = (if bs \<noteq> [] \<and> last bs = c then butlast bs else bs)"

definition trim_authorization :: "bytes \<Rightarrow> string result" where
  "trim_authorization bs =
     (let trimmed = strip_last 0x0D (strip_last 0x0A bs) in
      if trimmed = [] \<or> length trimmed > 32 \<or> 0 \<in> set trimmed then
        Inl (RuntimeError ''Database authorization must contain 1 to 32 non-NUL bytes'')
      else Inr (map char_of_byte trimmed))"

definition read_authorization ::
    "u32 \<Rightarrow> StoreAuthorizationOrigin \<Rightarrow> AuthFileStatus OpenResult \<Rightarrow> ReadOutcome list \<Rightarrow> string result option" where
  "read_authorization euid origin opened outcomes =
     (case opened of
        Opened status \<Rightarrow>
          (case check_authorization_file euid origin status of
             Inl e \<Rightarrow> Some (Inl e)
           | Inr _ \<Rightarrow>
               map_option (\<lambda>r. bind_result r trim_authorization)
                 (read_authorization_loop (nat (afs_size status)) [] outcomes))
      | Inspect_failed \<Rightarrow> Some (Inl (SystemError ''inspect database authorization credential''))
      | _ \<Rightarrow> Some (Inl (SystemError ''open database authorization credential'')))"

definition store_authorization_path :: "string option \<Rightarrow> string option \<Rightarrow> StoreAuthorizationInput result" where
  "store_authorization_path explicit_path credentials_directory =
     (case explicit_path of
        Some path \<Rightarrow> Inr \<lparr>auth_path = path, auth_origin = explicit_file\<rparr>
      | None \<Rightarrow>
          (case credentials_directory of
             Some (c # cs) \<Rightarrow>
               Inr \<lparr>auth_path = (c # cs) @ (if last (c # cs) = CHR ''/'' then [] else ''/'') @ CREDENTIAL_NAME,
                    auth_origin = systemd_credential\<rparr>
           | _ \<Rightarrow> Inl (RuntimeError
               ''Systemd database authorization credential vauth-db-auth was not provided'')))"

section \<open>Lemmas\<close>

lemma encode_uint64_eq: "encode_uint64 v = be64 v"
  by (simp add: encode_uint64_def be64_def COUNTER_SIZE_def upt_rec)

lemma decode_uint64_eq: "length bs = 8 \<Longrightarrow> decode_uint64 bs = Inr (of_be64 bs)"
  by (simp add: decode_uint64_def of_be64_def COUNTER_SIZE_def)

lemma decode_encode_uint64 [simp]: "decode_uint64 (encode_uint64 v) = Inr v"
  by (simp add: encode_uint64_eq decode_uint64_eq of_be64_be64)

lemma length_8_cases:
  assumes "length bs = 8"
  obtains a b c d e f g h where "bs = [a, b, c, d, e, f, g, h]"
  using assms by (auto simp: length_Suc_conv eval_nat_numeral)

lemma be64_of_be64: "length bs = 8 \<Longrightarrow> be64 (of_be64 bs) = bs"
  by (erule length_8_cases)
    (simp add: of_be64_def be64_def, intro conjI bit_word_eqI; auto simp: bit_simps dest: word_bit_bound)

lemma tss_call_cases:
  assumes "tss_call f operation s = (r, s')"
  obtains t x where "f (sec_tpm s) = (Inr x, t)" "r = Inr x" "s' = s\<lparr>sec_tpm := t\<rparr>"
  | t description where "f (sec_tpm s) = (Inl description, t)" "r = Inl (RuntimeError (operation @ '' failed: '' @ description))"
      "s' = s\<lparr>sec_tpm := t\<rparr>"
  using assms by (auto simp: tss_call_def tss_check_def split: prod.splits sum.splits)

text \<open>
  The behaviour of the libraries that the store relies on: \<open>raw\<close> is the value of the NV counter,
  \<open>sealed\<close> the content of the sealed object.  Reading changes neither, a successful read returns the
  value, an increment that reports success adds one and a failed one may or may not have done so.
\<close>

definition fapi_laws :: "'t Fapi \<Rightarrow> ('t \<Rightarrow> u64) \<Rightarrow> ('t \<Rightarrow> bytes option) \<Rightarrow> bool" where
  "fapi_laws fapi raw sealed \<longleftrightarrow>
     (\<forall>t r t'. fapi_nv_read fapi COUNTER_PATH t = (r, t') \<longrightarrow> raw t' = raw t \<and> sealed t' = sealed t \<and>
        (\<forall>data. r = Inr (Some data) \<longrightarrow> data = be64 (raw t))) \<and>
     (\<forall>t r t'. fapi_nv_increment fapi COUNTER_PATH t = (r, t') \<longrightarrow> sealed t' = sealed t \<and>
        (raw t' = raw t + 1 \<or> raw t' = raw t \<and> r \<noteq> Inr ())) \<and>
     (\<forall>t r t'. fapi_unseal fapi KEY_PATH t = (r, t') \<longrightarrow> raw t' = raw t \<and> sealed t' = sealed t \<and>
        (\<forall>data. r = Inr (Some data) \<longrightarrow> sealed t = Some data))"

definition fapi_counter :: "'t Fapi \<Rightarrow> 't Security CounterOps" where
  "fapi_counter fapi = \<lparr>ctr_read = read_generation_counter fapi, ctr_increment = increment_generation_counter fapi\<rparr>"

text \<open>The generation a security object stands for: the counter relative to its origin.\<close>

definition sealed_origin :: "bytes option \<Rightarrow> u64" where
  "sealed_origin material = (case material of None \<Rightarrow> 0 | Some m \<Rightarrow> of_be64 (take 8 (drop 32 m)))"

definition generation_value :: "('t \<Rightarrow> u64) \<Rightarrow> ('t \<Rightarrow> bytes option) \<Rightarrow> 't Security \<Rightarrow> u64" where
  "generation_value raw sealed s =
     raw (sec_tpm s) - (case counterOrigin s of Some origin \<Rightarrow> origin | None \<Rightarrow> sealed_origin (sealed (sec_tpm s)))"

lemma read_raw_counter_laws:
  assumes laws: "fapi_laws fapi raw sealed" and run: "read_raw_counter fapi s = (r, s')"
  shows "counterOrigin s' = counterOrigin s \<and> raw (sec_tpm s') = raw (sec_tpm s) \<and>
    sealed (sec_tpm s') = sealed (sec_tpm s) \<and> (\<forall>v. r = Inr v \<longrightarrow> v = raw (sec_tpm s) \<and> v \<noteq> 0)"
  using run unfolding read_raw_counter_def
proof (cases rule: exec_bind_cases)
  case (threw e)
  from threw(1) show ?thesis
    by (cases rule: tss_call_cases) (use laws threw(2) in \<open>auto simp: fapi_laws_def\<close>)
next
  case (went_on data s1)
  from went_on(1) obtain t where t: "fapi_nv_read fapi COUNTER_PATH (sec_tpm s) = (Inr data, t)" "s1 = s\<lparr>sec_tpm := t\<rparr>"
    by (cases rule: tss_call_cases) auto
  with laws have t': "raw t = raw (sec_tpm s)" "sealed t = sealed (sec_tpm s)"
    "\<And>d. data = Some d \<Longrightarrow> d = be64 (raw (sec_tpm s))" by (auto simp: fapi_laws_def)
  show ?thesis
  proof (cases data)
    case None
    with went_on(2) t t' show ?thesis by (auto simp: exec_simps)
  next
    case (Some d)
    define v where "v = raw (sec_tpm s)"
    have "decode_uint64 d = Inr v" using t'(3) [OF Some] by (simp add: decode_uint64_eq of_be64_be64 v_def)
    with Some went_on(2) have "s' = s1" "r = (if v \<noteq> 0 then Inr v else Inl (RuntimeError ''TPM rollback counter is not initialized''))"
      by (simp_all add: exec_bind_def exec_then_def exec_prim exec_guard_def split: if_splits)
    then show ?thesis using t(2) t'(1,2) by (simp add: v_def)
  qed
qed

lemma unseal_key_laws:
  assumes laws: "fapi_laws fapi raw sealed" and run: "unseal_key fapi s = (r, s')"
  shows "raw (sec_tpm s') = raw (sec_tpm s) \<and> sealed (sec_tpm s') = sealed (sec_tpm s) \<and>
    sec_authorization s' = sec_authorization s \<and>
    (case r of
       Inl e \<Rightarrow> counterOrigin s' = None
     | Inr key \<Rightarrow> counterOrigin s' = Some (sealed_origin (sealed (sec_tpm s))) \<and>
         sealed_origin (sealed (sec_tpm s)) \<noteq> 0 \<and> length key = 32 \<and>
         sealed (sec_tpm s) = Some (key @ be64 (sealed_origin (sealed (sec_tpm s)))))"
proof -
  let ?s0 = "s\<lparr>counterOrigin := None\<rparr>"
  obtain data t where u: "fapi_unseal fapi KEY_PATH (sec_tpm s) = (data, t)" by fastforce
  with laws have t': "raw t = raw (sec_tpm s)" "sealed t = sealed (sec_tpm s)"
    "\<And>d. data = Inr (Some d) \<Longrightarrow> sealed (sec_tpm s) = Some d" by (auto simp: fapi_laws_def)
  consider (failed) description where "data = Inl description" | (null) "data = Inr None" | (some) d where "data = Inr (Some d)"
    by (cases data) auto
  then show ?thesis
  proof cases
    case failed
    with run u t' show ?thesis
      by (auto simp: unseal_key_def exec_then_def exec_bind_def exec_simps tss_call_def tss_check_def)
  next
    case null
    with run u t' show ?thesis
      by (auto simp: unseal_key_def exec_then_def exec_bind_def exec_simps tss_call_def tss_check_def)
  next
    case (some d)
    show ?thesis
    proof (cases "length d = 40")
      case False
      with some run u t' show ?thesis
        by (auto simp: unseal_key_def exec_then_def exec_bind_def exec_simps exec_guard_def tss_call_def tss_check_def
            SEALED_MATERIAL_SIZE_def KEY_SIZE_def COUNTER_SIZE_def)
    next
      case True
      then have "take 8 (drop 32 d) = drop 32 d" "length (drop 32 d) = 8" by simp_all
      then have "d = take 32 d @ be64 (of_be64 (take 8 (drop 32 d)))" by (simp only: be64_of_be64 append_take_drop_id)
      then have d: "d = take 32 d @ be64 (sealed_origin (sealed (sec_tpm s)))"
        using t'(3) [OF some] by (simp add: sealed_origin_def)
      define origin where "origin = sealed_origin (sealed (sec_tpm s))"
      have "decode_uint64 (take 8 (drop 32 d)) = Inr origin"
        using True t'(3) [OF some] by (simp add: decode_uint64_eq sealed_origin_def origin_def)
      with True some run u have "r = (if origin \<noteq> 0 then Inr (take 32 d) else Inl (RuntimeError ''Sealed rollback counter origin is invalid''))"
        "s' = s\<lparr>counterOrigin := (if origin \<noteq> 0 then Some origin else None), sec_tpm := t\<rparr>"
        by (auto simp: unseal_key_def exec_then_def exec_bind_def exec_prim exec_guard_def tss_call_def tss_check_def
            SEALED_MATERIAL_SIZE_def KEY_SIZE_def COUNTER_SIZE_def split: if_splits)
      moreover have "sealed (sec_tpm s) = Some (take 32 d @ be64 origin)" using t'(3) [OF some] d by (simp add: origin_def)
      moreover have "sealed_origin (Some (take 32 d @ be64 origin)) = origin"
        using True by (simp add: sealed_origin_def of_be64_be64)
      ultimately show ?thesis using t'(1,2) True by (cases "origin = 0") simp_all
    qed
  qed
qed

lemma fapi_counter_contract:
  assumes laws: "fapi_laws fapi raw sealed"
  shows "counter_contract (fapi_counter fapi) (generation_value raw sealed)"
proof -
  let ?val = "generation_value raw sealed"
  have read: "?val s' = ?val s \<and> (\<forall>v. r = Inr v \<longrightarrow> v = ?val s)"
    if run: "read_generation_counter fapi s = (r, s')" for s r s'
  proof (cases "counterOrigin s")
    case (Some origin)
    obtain r1 s1 where raw1: "read_raw_counter fapi s = (r1, s1)" by fastforce
    with run Some read_raw_counter_laws [OF laws raw1] show ?thesis
      by (auto simp: read_generation_counter_def exec_then_def exec_bind_def exec_simps exec_guard_def
          generation_value_def split: sum.splits prod.splits if_splits)
  next
    case None
    obtain r0 s0 where u: "unseal_key fapi s = (r0, s0)" by fastforce
    note ul = unseal_key_laws [OF laws u]
    show ?thesis
    proof (cases r0)
      case (Inl e)
      with run None u ul show ?thesis
        by (auto simp: read_generation_counter_def exec_then_def exec_bind_def exec_simps generation_value_def)
    next
      case (Inr key)
      obtain r1 s1 where raw1: "read_raw_counter fapi s0 = (r1, s1)" by fastforce
      with run None u ul Inr read_raw_counter_laws [OF laws raw1] show ?thesis
        by (auto simp: read_generation_counter_def exec_then_def exec_bind_def exec_simps exec_guard_def
            generation_value_def split: sum.splits prod.splits if_splits)
    qed
  qed
  have "?val s' = ?val s + 1 \<or> ?val s' = ?val s \<and> r \<noteq> Inr ()"
    if run: "increment_generation_counter fapi s = (r, s')" for s r s'
  proof -
    obtain x t where inc: "fapi_nv_increment fapi COUNTER_PATH (sec_tpm s) = (x, t)" by fastforce
    then have t: "sealed t = sealed (sec_tpm s)" "raw t = raw (sec_tpm s) + 1 \<or> raw t = raw (sec_tpm s) \<and> x \<noteq> Inr ()"
      using laws by (auto simp: fapi_laws_def)
    have "s' = s\<lparr>sec_tpm := t\<rparr>" "r = Inr () \<longleftrightarrow> x = Inr ()"
      using run inc by (auto simp: increment_generation_counter_def tss_call_def tss_check_def split: sum.splits)
    with t show ?thesis by (cases "counterOrigin s") (auto simp: generation_value_def)
  qed
  with read show ?thesis unfolding counter_contract_def fapi_counter_def by simp
qed

lemma read_generation_cached:
  assumes "fapi_laws fapi raw sealed" "read_generation_counter fapi s = (Inr g, s')" "counterOrigin s = Some origin"
  shows "counterOrigin s' = Some origin \<and> g = raw (sec_tpm s') - origin \<and> sealed (sec_tpm s') = sealed (sec_tpm s) \<and>
    raw (sec_tpm s') \<ge> origin"
proof -
  obtain r1 s1 where raw1: "read_raw_counter fapi s = (r1, s1)" by fastforce
  with assms(2,3) read_raw_counter_laws [OF assms(1) raw1] show ?thesis
    by (auto simp: read_generation_counter_def exec_then_def exec_bind_def exec_prim exec_guard_def
        split: sum.splits prod.splits if_splits)
qed

lemma provision_check_laws:
  assumes laws: "fapi_laws fapi raw sealed" and run: "provision_check fapi s = (Inr (), s')"
  shows "\<exists>key origin. length key = 32 \<and> origin \<noteq> 0 \<and> sealed (sec_tpm s') = Some (key @ be64 origin) \<and>
    counterOrigin s' = Some origin \<and> raw (sec_tpm s') = origin"
proof -
  from run obtain key s1 g where u: "unseal_key fapi s = (Inr key, s1)"
    and g: "read_generation_counter fapi s1 = (Inr g, s')" "g = 0"
    by (auto simp: provision_check_def exec_simps)
  note ul = unseal_key_laws [OF laws u]
  define origin where "origin = sealed_origin (sealed (sec_tpm s))"
  have "counterOrigin s1 = Some origin" using ul by (simp add: origin_def)
  from read_generation_cached [OF laws g(1) this] ul g(2) show ?thesis
    by (auto simp: origin_def)
qed

text \<open>
  C28.  The TPM-backed store security implements the rollback counter the credential store relies on:
  for libraries that behave as documented, reading never changes the generation and returns it, an
  increment advances it by one or reports failure, and the generation is the distance of the NV counter
  from the origin sealed with the key.  A provisioning that reports success leaves a sealed 32-byte key
  whose origin is non-zero and the generation zero.
\<close>

theorem store_security_refines:
  assumes laws: "fapi_laws fapi raw sealed"
  shows "counter_contract (fapi_counter fapi) (generation_value raw sealed) \<and>
    (\<forall>s s'. provision fapi s = (Inr (), s') \<longrightarrow>
       (\<exists>key origin. length key = KEY_SIZE \<and> origin \<noteq> 0 \<and> sealed (sec_tpm s') = Some (key @ encode_uint64 origin) \<and>
          counterOrigin s' = Some origin \<and> generation_value raw sealed s' = 0))"
proof (intro conjI allI impI)
  show "counter_contract (fapi_counter fapi) (generation_value raw sealed)" using laws by (rule fapi_counter_contract)
  fix s s'
  assume "provision fapi s = (Inr (), s')"
  then obtain s1 where "exec_catch (provision_check fapi) (provision_cleanup fapi True) s1 = (Inr (), s')"
    by (auto simp: provision_def exec_simps)
  then have "provision_check fapi s1 = (Inr (), s')"
    by (auto simp: exec_catch_def provision_cleanup_def Let_def split: prod.splits sum.splits if_splits)
  from provision_check_laws [OF laws this] show
    "\<exists>key origin. length key = KEY_SIZE \<and> origin \<noteq> 0 \<and> sealed (sec_tpm s') = Some (key @ encode_uint64 origin) \<and>
       counterOrigin s' = Some origin \<and> generation_value raw sealed s' = 0"
    by (auto simp: KEY_SIZE_def encode_uint64_eq generation_value_def)
qed

text \<open>A simulated TPM: the NV counter, once created, and the sealed material, once sealed.\<close>

definition sample_fapi :: "(u64 \<times> bytes option) Fapi" where
  "sample_fapi = \<lparr>fapi_initialize = Inr (), fapi_set_auth_cb = Inr (), fapi_create_nv = (\<lambda>_ _ _ _ t. (Inr (), t)),
     fapi_nv_increment = (\<lambda>_ (c, m). (Inr (), (c + 1, m))), fapi_nv_read = (\<lambda>_ (c, m). (Inr (Some (be64 c)), (c, m))),
     fapi_get_random = (\<lambda>n t. (Inr (Some (replicate n 9)), t)),
     fapi_create_seal = (\<lambda>_ _ _ material (c, m). (Inr (), (c, Some material))),
     fapi_unseal = (\<lambda>_ (c, m). (Inr m, (c, m))), fapi_delete = (\<lambda>_ t. (Inr (), t)),
     fapi_get_tcti = (\<lambda>t. (Inr True, t)), esys_initialize = (\<lambda>t. (Inr True, t)),
     esys_get_capability = (\<lambda>p t. (Inr (Some (TPM2_CAP_TPM_PROPERTIES,
       [(p, if p = TPM2_PT_PERMANENT then 0 else TPMA_STARTUP_CLEAR_SHENABLE)])), t))\<rparr>"

theorem store_security_refines_witness:
  "\<exists>s'. provision sample_fapi \<lparr>sec_authorization = ''auth'', counterOrigin = None, sec_tpm = (6, None)\<rparr> = (Inr (), s') \<and>
     generation_value fst snd s' = 0 \<and> counterOrigin s' = Some 7 \<and> counter_contract (fapi_counter sample_fapi) (generation_value fst snd)"
proof -
  let ?s = "\<lparr>sec_authorization = ''auth'', counterOrigin = None, sec_tpm = (6, None)\<rparr>"
  have laws: "fapi_laws sample_fapi fst snd" by (auto simp: fapi_laws_def sample_fapi_def split: prod.splits)
  have "\<exists>s'. provision sample_fapi ?s = (Inr (), s') \<and> counterOrigin s' = Some 7"
    by (simp add: provision_def require_unprotected_owner_hierarchy_def tcti_def read_tpm_property_def provision_material_def
        provision_check_def unseal_key_def read_generation_counter_def read_raw_counter_def exec_then_def exec_bind_def
        exec_catch_def exec_prim exec_guard_def tss_call_def tss_check_def sample_fapi_def decode_uint64_eq of_be64_be64
        encode_uint64_eq KEY_SIZE_def COUNTER_SIZE_def SEALED_MATERIAL_SIZE_def TPM2_PT_PERMANENT_def
        TPM2_PT_STARTUP_CLEAR_def TPMA_STARTUP_CLEAR_SHENABLE_def TPMA_PERMANENT_OWNERAUTHSET_def)
  then obtain s' where run: "provision sample_fapi ?s = (Inr (), s')" "counterOrigin s' = Some 7" by blast
  from store_security_refines [OF laws] run show ?thesis by blast
qed

lemma char_of_byte_nul [simp]: "CHR 0x00 = char_of_byte b \<longleftrightarrow> b = 0"
proof -
  have "char_of_byte 0 = CHR 0x00" by code_simp
  then show ?thesis by (metis byte_of_char_of_byte)
qed

text \<open>
  C29.  The authorization value is read safely: an accepted value comes from a regular file with one link,
  owned by root or the service user and readable by nobody else (by the group only for a systemd
  credential).  It has 1 to 32 bytes without NUL, and the store security object never refuses it.
\<close>

theorem authorization_sound:
  assumes "read_authorization euid origin opened outcomes = Some (Inr auth)"
  shows "(\<exists>status. opened = Opened status \<and> afs_regular status \<and> afs_nlink status = 1 \<and>
      (afs_uid status = euid \<or> afs_uid status = 0) \<and>
      (afs_mode status AND 0x1FF = 0x100 \<or> origin = systemd_credential \<and> afs_mode status AND 0x1FF = 0x120)) \<and>
    1 \<le> length auth \<and> length auth \<le> 32 \<and> CHR 0x00 \<notin> set auth \<and>
    (\<forall>fapi t e. security_init fapi auth t = Inl e \<longrightarrow>
       (\<exists>d. fapi_initialize fapi = Inl d \<or> fapi_set_auth_cb fapi = Inl d))"
proof -
  from assms obtain status where status: "opened = Opened status"
    by (auto simp: read_authorization_def split: OpenResult.splits)
  with assms have ok: "check_authorization_file euid origin status = Inr ()"
    by (auto simp: read_authorization_def split: sum.splits)
  with assms status obtain bs where "trim_authorization bs = Inr auth"
    by (auto simp: read_authorization_def bind_result_eq_Inr)
  then have auth: "auth \<noteq> []" "length auth \<le> 32" "CHR 0x00 \<notin> set auth"
    by (auto simp: trim_authorization_def Let_def split: if_splits)
  moreover have "\<exists>d. fapi_initialize fapi = Inl d \<or> fapi_set_auth_cb fapi = Inl d"
    if "security_init fapi auth t = Inl e" for fapi :: "'a Fapi" and t e
    using that auth by (auto simp: security_init_def tss_check_def bind_result_def split: if_splits sum.splits)
  moreover have "Suc 0 \<le> length auth" using auth(1) by (cases auth) simp_all
  ultimately show ?thesis
    using status ok by (auto simp: check_authorization_file_def Let_def split: if_splits)
qed

theorem authorization_sound_witness:
  "read_authorization 900 explicit_file
     (Opened \<lparr>afs_regular = True, afs_nlink = 1, afs_uid = 0, afs_mode = 0x100, afs_size = 3\<rparr>)
     [Read_bytes [0x61], Read_interrupted, Read_bytes [0x62, 0x0A]] = Some (Inr ''ab'') \<and>
   is_ok (security_init sample_fapi ''ab'' (0, None))"
proof -
  have run: "read_authorization 900 explicit_file
     (Opened \<lparr>afs_regular = True, afs_nlink = 1, afs_uid = 0, afs_mode = 0x100, afs_size = 3\<rparr>)
     [Read_bytes [0x61], Read_interrupted, Read_bytes [0x62, 0x0A]] = Some (Inr ''ab'')"
    by code_simp
  have "fapi_initialize sample_fapi = Inr ()" "fapi_set_auth_cb sample_fapi = Inr ()" by (simp_all add: sample_fapi_def)
  with authorization_sound [OF run] have "\<not> (\<exists>e. security_init sample_fapi ''ab'' (0, None) = Inl e)"
    by (metis Inl_Inr_False)
  then have "is_ok (security_init sample_fapi ''ab'' (0, None))"
    by (cases "security_init sample_fapi ''ab'' (0, None)") auto
  with run show ?thesis by blast
qed

end
