(* ===== verification/Key_Provider.thy ===== *)
theory Key_Provider
  imports Store_Security Ceremony_Laws
begin

text \<open>
  The keys of the credentials (\<open>cryptography/tpm.cpp\<close>, \<open>cryptography/tpm.hpp\<close>) and the wrappers of
  OpenSSL they use (\<open>cryptography/crypto.cpp\<close>).  A key lives in the TPM: the provider derives the
  parent's and each credential's authorization from the master key with HKDF, creates credential keys
  under a transient parent, keeps only the wrapped blobs, and loads them again for one signature.  The
  ESYS library is a record of functions over an abstract TPM state, OpenSSL a record of functions on
  opaque objects; an ESYS call that fails leaves its out handle unset.
\<close>

section \<open>OpenSSL\<close>

text \<open>The outcome of a call: its return code, the text of the error it queued, what it wrote.\<close>

type_synonym 'a ssl = "int \<times> string option \<times> 'a"

record 'o Ssl =
  ssl_md_ctx_new :: "'o option \<times> string option"
  ssl_digest_init :: "'o \<Rightarrow> 'o ssl"
  ssl_digest_update :: "'o \<Rightarrow> bytes \<Rightarrow> 'o ssl"
  ssl_digest_final :: "'o \<Rightarrow> bytes ssl"
  ssl_rand_bytes :: "nat \<Rightarrow> bytes ssl"
  ssl_pkey_ctx_new :: "'o option"
  ssl_derive_init :: "'o \<Rightarrow> 'o ssl"
  ssl_set_hkdf_md :: "'o \<Rightarrow> 'o ssl"
  ssl_set_hkdf_key :: "'o \<Rightarrow> bytes \<Rightarrow> 'o ssl"
  ssl_add_hkdf_info :: "'o \<Rightarrow> bytes \<Rightarrow> 'o ssl"
  ssl_derive :: "'o \<Rightarrow> nat \<Rightarrow> bytes ssl"
  ssl_ecdsa_sig_new :: "'o option \<times> string option"
  ssl_bin2bn :: "bytes \<Rightarrow> 'o option \<times> string option"
  ssl_sig_set0 :: "'o \<Rightarrow> 'o \<Rightarrow> 'o \<Rightarrow> 'o ssl"
  ssl_i2d_size :: "'o \<Rightarrow> unit ssl"
  ssl_i2d :: "'o \<Rightarrow> bytes ssl"

definition throw_openssl_error :: "string \<Rightarrow> string option \<Rightarrow> 'a result" where
  "throw_openssl_error operation queued =
     (case queued of None \<Rightarrow> Inl (RuntimeError (operation @ '' failed''))
      | Some description \<Rightarrow> Inl (RuntimeError (operation @ '': '' @ description)))"

fun openssl_check :: "'a ssl \<Rightarrow> string \<Rightarrow> 'a result" where
  "openssl_check (code, queued, x) operation =
     (if code = 1 then Inr x else throw_openssl_error operation queued)"

fun openssl_check_positive :: "'a ssl \<Rightarrow> string \<Rightarrow> (int \<times> 'a) result" where
  "openssl_check_positive (code, queued, x) operation =
     (if code > 0 then Inr (code, x) else throw_openssl_error operation queued)"

fun openssl_made :: "'o option \<times> string option \<Rightarrow> string \<Rightarrow> 'o result" where
  "openssl_made (Some x, _) operation = Inr x"
| "openssl_made (None, queued) operation = throw_openssl_error operation queued"

definition openssl_make_digest_context :: "'o Ssl \<Rightarrow> 'o result" where
  "openssl_make_digest_context ssl = openssl_made (ssl_md_ctx_new ssl) ''EVP_MD_CTX_new''"

definition openssl_make_ecdsa_signature :: "'o Ssl \<Rightarrow> 'o result" where
  "openssl_make_ecdsa_signature ssl = openssl_made (ssl_ecdsa_sig_new ssl) ''ECDSA_SIG_new''"

definition openssl_make_big_number :: "'o Ssl \<Rightarrow> bytes \<Rightarrow> 'o result" where
  "openssl_make_big_number ssl bs =
     bind_result (openssl_checked_size (length bs) ''BIGNUM input'') (\<lambda>_.
       openssl_made (ssl_bin2bn ssl bs) ''BN_bin2bn'')"

definition sha256_bytes :: "'o Ssl \<Rightarrow> bytes \<Rightarrow> bytes result" where
  "sha256_bytes ssl bs =
     bind_result (openssl_make_digest_context ssl) (\<lambda>context.
     bind_result (openssl_check (ssl_digest_init ssl context) ''EVP_DigestInit_ex'') (\<lambda>context.
     bind_result (openssl_check (ssl_digest_update ssl context bs) ''EVP_DigestUpdate'') (\<lambda>context.
       openssl_check (ssl_digest_final ssl context) ''EVP_DigestFinal_ex'')))"

definition openssl_random_bytes :: "'o Ssl \<Rightarrow> nat \<Rightarrow> bytes result" where
  "openssl_random_bytes ssl n =
     bind_result (openssl_checked_size n ''random output'') (\<lambda>_.
       openssl_check (ssl_rand_bytes ssl n) ''RAND_bytes'')"

definition AUTHORIZATION_SIZE :: nat where "AUTHORIZATION_SIZE = 32"
definition CREDENTIAL_ID_MIN_SIZE :: nat where "CREDENTIAL_ID_MIN_SIZE = 16"
definition CREDENTIAL_ID_MAX_SIZE :: nat where "CREDENTIAL_ID_MAX_SIZE = 1024"
definition SHA256_SIZE :: nat where "SHA256_SIZE = 32"

definition PARENT_AUTH_LABEL :: string where
  "PARENT_AUTH_LABEL = ''vauth transient parent authorization v1''"
definition CREDENTIAL_MASTER_LABEL :: string where
  "CREDENTIAL_MASTER_LABEL = ''vauth credential authorization master v1''"
definition CREDENTIAL_AUTH_LABEL :: string where
  "CREDENTIAL_AUTH_LABEL = ''vauth credential authorization v1''"

definition add_info :: "'o Ssl \<Rightarrow> 'o \<Rightarrow> bytes \<Rightarrow> string \<Rightarrow> string \<Rightarrow> 'o result" where
  "add_info ssl kdf info value_name operation =
     bind_result (openssl_checked_size (length info) value_name) (\<lambda>_.
       openssl_check (ssl_add_hkdf_info ssl kdf info) operation)"

definition derive_key :: "'o Ssl \<Rightarrow> bytes \<Rightarrow> string \<Rightarrow> bytes \<Rightarrow> bytes result" where
  "derive_key ssl input_key label context =
     (if input_key = [] then Inl (InvalidArgument ''HKDF input key must not be empty'')
      else case ssl_pkey_ctx_new ssl of
        None \<Rightarrow> Inl (RuntimeError ''EVP_PKEY_CTX_new_id HKDF failed'')
      | Some kdf \<Rightarrow>
          bind_result (openssl_check (ssl_derive_init ssl kdf) ''EVP_PKEY_derive_init HKDF'') (\<lambda>kdf.
          bind_result (openssl_check (ssl_set_hkdf_md ssl kdf) ''EVP_PKEY_CTX_set_hkdf_md'') (\<lambda>kdf.
          bind_result (openssl_checked_size (length input_key) ''HKDF input key'') (\<lambda>_.
          bind_result (openssl_check (ssl_set_hkdf_key ssl kdf input_key) ''EVP_PKEY_CTX_set1_hkdf_key'') (\<lambda>kdf.
          bind_result (add_info ssl kdf (map byte_of_char label) ''HKDF label''
            ''EVP_PKEY_CTX_add1_hkdf_info label'') (\<lambda>kdf.
          bind_result (if context = [] then Inr kdf
            else add_info ssl kdf context ''HKDF context'' ''EVP_PKEY_CTX_add1_hkdf_info context'') (\<lambda>kdf.
          bind_result (openssl_check (ssl_derive ssl kdf AUTHORIZATION_SIZE) ''EVP_PKEY_derive HKDF'') (\<lambda>derived.
            if length derived \<noteq> AUTHORIZATION_SIZE
            then Inl (RuntimeError ''HKDF returned an unexpected output size'')
            else Inr derived))))))))"

section \<open>Public areas\<close>

definition TPM2_ALG_ECC :: u16 where "TPM2_ALG_ECC = 0x0023"
definition TPM2_ALG_SHA256 :: u16 where "TPM2_ALG_SHA256 = 0x000B"
definition TPM2_ALG_AES :: u16 where "TPM2_ALG_AES = 0x0006"
definition TPM2_ALG_CFB :: u16 where "TPM2_ALG_CFB = 0x0043"
definition TPM2_ALG_NULL :: u16 where "TPM2_ALG_NULL = 0x0010"
definition TPM2_ALG_ECDSA :: u16 where "TPM2_ALG_ECDSA = 0x0018"
definition TPM2_ECC_NIST_P256 :: u16 where "TPM2_ECC_NIST_P256 = 0x0003"

text \<open>The attributes: fixedTPM, fixedParent, sensitiveDataOrigin, userWithAuth and noDA for both kinds,
  with restricted and decrypt for the parent and sign for a credential.\<close>

definition TPMA_OBJECT_FIXEDTPM :: u32 where "TPMA_OBJECT_FIXEDTPM = 0x2"
definition TPMA_OBJECT_FIXEDPARENT :: u32 where "TPMA_OBJECT_FIXEDPARENT = 0x10"
definition TPMA_OBJECT_SENSITIVEDATAORIGIN :: u32 where "TPMA_OBJECT_SENSITIVEDATAORIGIN = 0x20"
definition TPMA_OBJECT_USERWITHAUTH :: u32 where "TPMA_OBJECT_USERWITHAUTH = 0x40"
definition TPMA_OBJECT_NODA :: u32 where "TPMA_OBJECT_NODA = 0x400"
definition TPMA_OBJECT_RESTRICTED :: u32 where "TPMA_OBJECT_RESTRICTED = 0x10000"
definition TPMA_OBJECT_DECRYPT :: u32 where "TPMA_OBJECT_DECRYPT = 0x20000"
definition TPMA_OBJECT_SIGN_ENCRYPT :: u32 where "TPMA_OBJECT_SIGN_ENCRYPT = 0x40000"

lemmas TPMA_OBJECT_defs = TPMA_OBJECT_FIXEDTPM_def TPMA_OBJECT_FIXEDPARENT_def
  TPMA_OBJECT_SENSITIVEDATAORIGIN_def TPMA_OBJECT_USERWITHAUTH_def TPMA_OBJECT_NODA_def
  TPMA_OBJECT_RESTRICTED_def TPMA_OBJECT_DECRYPT_def TPMA_OBJECT_SIGN_ENCRYPT_def

definition PARENT_ATTRIBUTES :: u32 where
  "PARENT_ATTRIBUTES = TPMA_OBJECT_FIXEDTPM OR TPMA_OBJECT_FIXEDPARENT OR TPMA_OBJECT_SENSITIVEDATAORIGIN OR
     TPMA_OBJECT_USERWITHAUTH OR TPMA_OBJECT_NODA OR TPMA_OBJECT_RESTRICTED OR TPMA_OBJECT_DECRYPT"

definition CREDENTIAL_ATTRIBUTES :: u32 where
  "CREDENTIAL_ATTRIBUTES = TPMA_OBJECT_SIGN_ENCRYPT OR TPMA_OBJECT_FIXEDTPM OR TPMA_OBJECT_FIXEDPARENT OR
     TPMA_OBJECT_SENSITIVEDATAORIGIN OR TPMA_OBJECT_USERWITHAUTH OR TPMA_OBJECT_NODA"

text \<open>\<open>TPM2B_PUBLIC\<close> read as an elliptic-curve object; a zero field is what \<open>{}\<close> initialises.\<close>

record TPM2B_PUBLIC =
  pb_size :: u16
  pb_type :: u16
  pb_nameAlg :: u16
  pb_objectAttributes :: u32
  pb_authPolicy :: bytes
  pb_symmetric :: u16
  pb_keyBits :: u16
  pb_mode :: u16
  pb_scheme :: u16
  pb_hashAlg :: u16
  pb_curveID :: u16
  pb_kdf :: u16
  pb_x :: bytes
  pb_y :: bytes

definition parent_template :: TPM2B_PUBLIC where
  "parent_template = \<lparr>pb_size = 0, pb_type = TPM2_ALG_ECC, pb_nameAlg = TPM2_ALG_SHA256,
     pb_objectAttributes = PARENT_ATTRIBUTES, pb_authPolicy = [], pb_symmetric = TPM2_ALG_AES, pb_keyBits = 128,
     pb_mode = TPM2_ALG_CFB, pb_scheme = TPM2_ALG_NULL, pb_hashAlg = 0, pb_curveID = TPM2_ECC_NIST_P256,
     pb_kdf = TPM2_ALG_NULL, pb_x = [], pb_y = []\<rparr>"

definition credential_template :: TPM2B_PUBLIC where
  "credential_template = \<lparr>pb_size = 0, pb_type = TPM2_ALG_ECC, pb_nameAlg = TPM2_ALG_SHA256,
     pb_objectAttributes = CREDENTIAL_ATTRIBUTES, pb_authPolicy = [], pb_symmetric = TPM2_ALG_NULL, pb_keyBits = 0,
     pb_mode = 0, pb_scheme = TPM2_ALG_ECDSA, pb_hashAlg = TPM2_ALG_SHA256, pb_curveID = TPM2_ECC_NIST_P256,
     pb_kdf = TPM2_ALG_NULL, pb_x = [], pb_y = []\<rparr>"

definition coordinate_ok :: "bytes \<Rightarrow> bool" where
  "coordinate_ok c \<longleftrightarrow> c \<noteq> [] \<and> length c \<le> SHA256_SIZE"

definition validate_parent_public :: "TPM2B_PUBLIC \<Rightarrow> unit result" where
  "validate_parent_public p =
     (if pb_type p \<noteq> TPM2_ALG_ECC \<or> pb_nameAlg p \<noteq> TPM2_ALG_SHA256 \<or>
         pb_objectAttributes p \<noteq> PARENT_ATTRIBUTES \<or> pb_authPolicy p \<noteq> [] \<or>
         pb_symmetric p \<noteq> TPM2_ALG_AES \<or> pb_keyBits p \<noteq> 128 \<or> pb_mode p \<noteq> TPM2_ALG_CFB \<or>
         pb_scheme p \<noteq> TPM2_ALG_NULL \<or> pb_curveID p \<noteq> TPM2_ECC_NIST_P256 \<or> pb_kdf p \<noteq> TPM2_ALG_NULL \<or>
         \<not> coordinate_ok (pb_x p) \<or> \<not> coordinate_ok (pb_y p)
      then Inl (RuntimeError ''TPM parent public area has invalid parameters'') else Inr ())"

definition validate_public_key :: "TPM2B_PUBLIC \<Rightarrow> unit result" where
  "validate_public_key p =
     (if pb_type p \<noteq> TPM2_ALG_ECC \<or> pb_nameAlg p \<noteq> TPM2_ALG_SHA256 \<or>
         pb_objectAttributes p \<noteq> CREDENTIAL_ATTRIBUTES \<or> pb_authPolicy p \<noteq> [] \<or>
         pb_symmetric p \<noteq> TPM2_ALG_NULL \<or> pb_scheme p \<noteq> TPM2_ALG_ECDSA \<or>
         pb_hashAlg p \<noteq> TPM2_ALG_SHA256 \<or> pb_curveID p \<noteq> TPM2_ECC_NIST_P256 \<or> pb_kdf p \<noteq> TPM2_ALG_NULL \<or>
         \<not> coordinate_ok (pb_x p) \<or> \<not> coordinate_ok (pb_y p)
      then Inl (RuntimeError ''TPM credential public blob has invalid parameters'') else Inr ())"

definition validate_credential_id :: "bytes \<Rightarrow> unit result" where
  "validate_credential_id credential_id =
     (if length credential_id < CREDENTIAL_ID_MIN_SIZE \<or> length credential_id > CREDENTIAL_ID_MAX_SIZE
      then Inl (InvalidArgument ''Credential ID must contain between 16 and 1024 bytes'') else Inr ())"

section \<open>The TPM library\<close>

type_synonym ESYS_TR = u32

definition ESYS_TR_NONE :: ESYS_TR where "ESYS_TR_NONE = 0xFFF"

record TPMT_SIGNATURE =
  sg_sigAlg :: u16
  sg_hash :: u16
  sg_r :: bytes
  sg_s :: bytes

text \<open>Unmarshalling gives the value and the offset reached; marshalling is given the capacity of the
  output.  The private part is its buffer.\<close>

record 't Esys =
  mu_public_unmarshal :: "bytes \<Rightarrow> (TPM2B_PUBLIC \<times> nat) tss"
  mu_private_unmarshal :: "bytes \<Rightarrow> (bytes \<times> nat) tss"
  mu_public_marshal :: "TPM2B_PUBLIC \<Rightarrow> nat \<Rightarrow> bytes tss"
  mu_private_marshal :: "bytes \<Rightarrow> nat \<Rightarrow> bytes tss"
  es_initialize :: "'t \<Rightarrow> (unit tss \<times> bool) \<times> 't"
  es_finalize :: "'t \<Rightarrow> 't"
  es_create_primary :: "bytes \<Rightarrow> TPM2B_PUBLIC \<Rightarrow> 't \<Rightarrow> (ESYS_TR \<times> TPM2B_PUBLIC option) tss \<times> 't"
  es_set_auth :: "ESYS_TR \<Rightarrow> bytes \<Rightarrow> 't \<Rightarrow> unit tss \<times> 't"
  es_create :: "ESYS_TR \<Rightarrow> bytes \<Rightarrow> TPM2B_PUBLIC \<Rightarrow> 't \<Rightarrow> (bytes option \<times> TPM2B_PUBLIC option) tss \<times> 't"
  es_load :: "ESYS_TR \<Rightarrow> bytes \<Rightarrow> TPM2B_PUBLIC \<Rightarrow> 't \<Rightarrow> ESYS_TR tss \<times> 't"
  es_sign :: "ESYS_TR \<Rightarrow> bytes \<Rightarrow> 't \<Rightarrow> TPMT_SIGNATURE option tss \<times> 't"
  es_flush_context :: "ESYS_TR \<Rightarrow> 't \<Rightarrow> unit tss \<times> 't"

definition esys_call :: "('t \<Rightarrow> 'a tss \<times> 't) \<Rightarrow> string \<Rightarrow> ('t, 'a) exec" where
  "esys_call f operation t = (case f t of (r, t') \<Rightarrow> (tss_check r operation, t'))"

definition unmarshal_public :: "'t Esys \<Rightarrow> bytes \<Rightarrow> TPM2B_PUBLIC result" where
  "unmarshal_public lib blob =
     bind_result (tss_check (mu_public_unmarshal lib blob) ''Tss2_MU_TPM2B_PUBLIC_Unmarshal'') (\<lambda>(p, offset).
       if offset \<noteq> length blob then Inl (RuntimeError ''TPM public blob contains trailing data'') else Inr p)"

definition unmarshal_private :: "'t Esys \<Rightarrow> bytes \<Rightarrow> bytes result" where
  "unmarshal_private lib blob =
     bind_result (tss_check (mu_private_unmarshal lib blob) ''Tss2_MU_TPM2B_PRIVATE_Unmarshal'') (\<lambda>(p, offset).
       if offset \<noteq> length blob then Inl (RuntimeError ''TPM private blob contains trailing data'') else Inr p)"

definition marshal_public :: "'t Esys \<Rightarrow> TPM2B_PUBLIC \<Rightarrow> bytes result" where
  "marshal_public lib p =
     (let capacity = 2 + unat (pb_size p) in
      bind_result (tss_check (mu_public_marshal lib p capacity) ''Tss2_MU_TPM2B_PUBLIC_Marshal'') (\<lambda>out.
        if length out \<noteq> capacity then Inl (RuntimeError ''TPM public blob marshalled to an invalid size'')
        else Inr out))"

definition marshal_private :: "'t Esys \<Rightarrow> bytes \<Rightarrow> bytes result" where
  "marshal_private lib p =
     (let capacity = 2 + length p in
      bind_result (tss_check (mu_private_marshal lib p capacity) ''Tss2_MU_TPM2B_PRIVATE_Marshal'') (\<lambda>out.
        if length out \<noteq> capacity then Inl (RuntimeError ''TPM private blob marshalled to an invalid size'')
        else Inr out))"

definition set_auth :: "'t Esys \<Rightarrow> ESYS_TR \<Rightarrow> bytes \<Rightarrow> ('t, unit) exec" where
  "set_auth lib handle authorization = esys_call (es_set_auth lib handle authorization) ''Esys_TR_SetAuth''"

text \<open>\<open>TpmTransientHandle\<close>: what its destructor does, and a scope that holds one.\<close>

definition TpmTransientHandle_reset :: "'t Esys \<Rightarrow> ESYS_TR \<Rightarrow> 't \<Rightarrow> 't" where
  "TpmTransientHandle_reset lib handle t =
     (if handle \<noteq> ESYS_TR_NONE then snd (es_flush_context lib handle t) else t)"

definition holding :: "'t Esys \<Rightarrow> ESYS_TR \<Rightarrow> ('t, 'a) exec \<Rightarrow> ('t, 'a) exec" where
  "holding lib handle body t = (case body t of (r, t') \<Rightarrow> (r, TpmTransientHandle_reset lib handle t'))"

section \<open>The provider\<close>

record CredentialKeyProvider =
  kp_parent :: ESYS_TR
  kp_parentAuthorization :: bytes
  kp_credentialAuthorizationMaster :: bytes

definition TpmCtx :: "'t Esys \<Rightarrow> ('t, unit) exec" where
  "TpmCtx lib t =
     (case es_initialize lib t of
        ((Inr _, _), t') \<Rightarrow> (Inr (), t')
      | ((Inl description, context), t') \<Rightarrow>
          (tss_check (Inl description) ''Esys_Initialize'', if context then es_finalize lib t' else t'))"

text \<open>The body of the constructor once the parent exists; an exception in it flushes the parent.\<close>

definition adopt_parent :: "'t Esys \<Rightarrow> bytes \<Rightarrow> bytes \<Rightarrow> ESYS_TR \<times> TPM2B_PUBLIC option \<Rightarrow> ('t, CredentialKeyProvider) exec" where
  "adopt_parent lib authorization master = (\<lambda>(handle, out_public) t.
     let body = (case out_public of
           None \<Rightarrow> exec_throw (RuntimeError ''Esys_CreatePrimary returned no parent public area'')
         | Some p \<Rightarrow>
             exec_then (exec_lift (validate_parent_public p))
             (exec_then (set_auth lib handle authorization)
               (exec_return \<lparr>kp_parent = handle, kp_parentAuthorization = authorization,
                  kp_credentialAuthorizationMaster = master\<rparr>)))
     in case body t of
          (Inl e, t') \<Rightarrow> (Inl e, TpmTransientHandle_reset lib handle t')
        | (Inr provider, t') \<Rightarrow> (Inr provider, t'))"

definition provider_body :: "'o Ssl \<Rightarrow> 't Esys \<Rightarrow> bytes \<Rightarrow> ('t, CredentialKeyProvider) exec" where
  "provider_body ssl lib master_key =
     exec_then (exec_guard (length master_key = AUTHORIZATION_SIZE)
       (InvalidArgument ''Credential master key must be 32 bytes''))
     (exec_bind (exec_lift (derive_key ssl master_key PARENT_AUTH_LABEL [])) (\<lambda>authorization.
      exec_bind (exec_lift (derive_key ssl master_key CREDENTIAL_MASTER_LABEL [])) (\<lambda>master.
      exec_bind (esys_call (es_create_primary lib authorization parent_template)
        ''Esys_CreatePrimary credential parent'')
        (adopt_parent lib authorization master))))"

text \<open>The constructor: the context is a member and is closed when the body throws.\<close>

definition make_provider :: "'o Ssl \<Rightarrow> 't Esys \<Rightarrow> bytes \<Rightarrow> ('t, CredentialKeyProvider) exec" where
  "make_provider ssl lib master_key = exec_then (TpmCtx lib) (\<lambda>t.
     case provider_body ssl lib master_key t of
       (Inl e, t') \<Rightarrow> (Inl e, es_finalize lib t')
     | (Inr provider, t') \<Rightarrow> (Inr provider, t'))"

text \<open>The destructor: the parent is flushed, then the context closed.\<close>

definition destroy_provider :: "'t Esys \<Rightarrow> CredentialKeyProvider \<Rightarrow> 't \<Rightarrow> 't" where
  "destroy_provider lib provider t = es_finalize lib (TpmTransientHandle_reset lib (kp_parent provider) t)"

definition credential_authorization :: "'o Ssl \<Rightarrow> CredentialKeyProvider \<Rightarrow> bytes \<Rightarrow> bytes result" where
  "credential_authorization ssl provider credential_id =
     bind_result (validate_credential_id credential_id) (\<lambda>_.
       derive_key ssl (kp_credentialAuthorizationMaster provider) CREDENTIAL_AUTH_LABEL credential_id)"

definition package_key :: "'t Esys \<Rightarrow> bytes option \<times> TPM2B_PUBLIC option \<Rightarrow> CredentialKey result" where
  "package_key lib = (\<lambda>(private_blob, public_blob).
     case (private_blob, public_blob) of
       (Some priv, Some pub) \<Rightarrow>
         bind_result (validate_public_key pub) (\<lambda>_.
         bind_result (marshal_public lib pub) (\<lambda>pubBytes.
         bind_result (marshal_private lib priv) (\<lambda>privBytes.
           Inr \<lparr>publicBlob = pubBytes, privateBlob = privBytes\<rparr>)))
     | _ \<Rightarrow> Inl (RuntimeError ''Esys_Create returned incomplete key blobs''))"

definition CredentialKeyProvider_create ::
    "'o Ssl \<Rightarrow> 't Esys \<Rightarrow> CredentialKeyProvider \<Rightarrow> bytes \<Rightarrow> ('t, CredentialKey) exec" where
  "CredentialKeyProvider_create ssl lib provider credential_id =
     exec_bind (exec_lift (credential_authorization ssl provider credential_id)) (\<lambda>authorization.
     exec_bind (esys_call (es_create lib (kp_parent provider) authorization credential_template)
       ''Esys_Create credential key'') (\<lambda>blobs.
       exec_lift (package_key lib blobs)))"

text \<open>The DER form of a signature the TPM returned.\<close>

definition signature_ok :: "TPMT_SIGNATURE \<Rightarrow> bool" where
  "signature_ok signature \<longleftrightarrow> sg_sigAlg signature = TPM2_ALG_ECDSA \<and> sg_hash signature = TPM2_ALG_SHA256 \<and>
     coordinate_ok (sg_r signature) \<and> coordinate_ok (sg_s signature)"

definition der_signature :: "'o Ssl \<Rightarrow> TPMT_SIGNATURE option \<Rightarrow> bytes result" where
  "der_signature ssl sig =
     (case sig of
        None \<Rightarrow> Inl (RuntimeError ''TPM returned an invalid ECDSA signature'')
      | Some signature \<Rightarrow>
          if \<not> signature_ok signature then Inl (RuntimeError ''TPM returned an invalid ECDSA signature'')
          else bind_result (openssl_make_ecdsa_signature ssl) (\<lambda>ecdsa.
            bind_result (openssl_make_big_number ssl (sg_r signature)) (\<lambda>r.
            bind_result (openssl_make_big_number ssl (sg_s signature)) (\<lambda>s.
            bind_result (openssl_check (ssl_sig_set0 ssl ecdsa r s) ''ECDSA_SIG_set0'') (\<lambda>ecdsa.
            bind_result (openssl_check_positive (ssl_i2d_size ssl ecdsa) ''i2d_ECDSA_SIG size'') (\<lambda>(der_size, _).
            bind_result (openssl_check_positive (ssl_i2d ssl ecdsa) ''i2d_ECDSA_SIG encode'') (\<lambda>(encoded_size, out).
              if encoded_size \<noteq> der_size then Inl (RuntimeError ''i2d_ECDSA_SIG returned an inconsistent size'')
              else Inr out)))))))"

definition sign_loaded :: "'o Ssl \<Rightarrow> 't Esys \<Rightarrow> bytes \<Rightarrow> bytes \<Rightarrow> ESYS_TR \<Rightarrow> ('t, bytes) exec" where
  "sign_loaded ssl lib authorization digest handle =
     exec_then (set_auth lib handle authorization)
     (exec_bind (esys_call (es_sign lib handle digest) ''Esys_Sign credential assertion'') (\<lambda>signature.
        exec_lift (der_signature ssl signature)))"

definition load_and_sign ::
    "'o Ssl \<Rightarrow> 't Esys \<Rightarrow> CredentialKeyProvider \<Rightarrow> bytes \<Rightarrow> bytes \<Rightarrow> TPM2B_PUBLIC \<Rightarrow> bytes \<Rightarrow> ('t, bytes) exec" where
  "load_and_sign ssl lib provider authorization digest pub priv =
     exec_bind (esys_call (es_load lib (kp_parent provider) priv pub) ''Esys_Load credential key'') (\<lambda>handle.
       holding lib handle (sign_loaded ssl lib authorization digest handle))"

definition CredentialKeyProvider_sign ::
    "'o Ssl \<Rightarrow> 't Esys \<Rightarrow> CredentialKeyProvider \<Rightarrow> bytes \<Rightarrow> bytes \<Rightarrow> bytes \<Rightarrow> bytes \<Rightarrow> ('t, bytes) exec" where
  "CredentialKeyProvider_sign ssl lib provider credential_id digest public_bytes private_bytes =
     exec_then (exec_guard (length digest = SHA256_SIZE)
       (InvalidArgument ''Credential digest must contain 32 bytes''))
     (exec_bind (exec_lift (credential_authorization ssl provider credential_id)) (\<lambda>authorization.
      exec_bind (exec_lift (unmarshal_public lib public_bytes)) (\<lambda>pub.
      exec_then (exec_lift (validate_public_key pub))
      (exec_bind (exec_lift (unmarshal_private lib private_bytes)) (\<lambda>priv.
        load_and_sign ssl lib provider authorization digest pub priv)))))"

definition extractPublic :: "'t Esys \<Rightarrow> bytes \<Rightarrow> (bytes \<times> bytes) result" where
  "extractPublic lib public_bytes =
     bind_result (unmarshal_public lib public_bytes) (\<lambda>p.
     bind_result (validate_public_key p) (\<lambda>_.
       Inr (pb_x p, pb_y p)))"

section \<open>What the parameters are relied on for\<close>

text \<open>Unmarshalling reads recovered what marshalling wrote, to the end, when it wrote the size the value announces.\<close>

definition marshal_laws :: "'t Esys \<Rightarrow> bool" where
  "marshal_laws lib \<longleftrightarrow>
     (\<forall>p out. mu_public_marshal lib p (2 + unat (pb_size p)) = Inr out \<longrightarrow> length out = 2 + unat (pb_size p) \<longrightarrow>
        mu_public_unmarshal lib out = Inr (p, length out)) \<and>
     (\<forall>p out. mu_private_marshal lib p (2 + length p) = Inr out \<longrightarrow> length out = 2 + length p \<longrightarrow>
        mu_private_unmarshal lib out = Inr (p, length out))"

text \<open>The transient objects a TPM state holds: creating the primary object and loading add one under a
  new handle or fail and add none, flushing removes the one it names, nothing else touches them.\<close>

definition adds_handle :: "('t \<Rightarrow> ESYS_TR set) \<Rightarrow> ('a \<Rightarrow> ESYS_TR) \<Rightarrow> 't \<Rightarrow> 'a tss \<times> 't \<Rightarrow> bool" where
  "adds_handle loaded handle t = (\<lambda>(r, t'). case r of
     Inl _ \<Rightarrow> loaded t' = loaded t
   | Inr x \<Rightarrow> handle x \<noteq> ESYS_TR_NONE \<and> handle x \<notin> loaded t \<and> loaded t' = insert (handle x) (loaded t))"

definition transient_laws :: "'t Esys \<Rightarrow> ('t \<Rightarrow> ESYS_TR set) \<Rightarrow> bool" where
  "transient_laws lib loaded \<longleftrightarrow>
     (\<forall>t. loaded (snd (es_initialize lib t)) = loaded t) \<and> (\<forall>t. loaded (es_finalize lib t) = loaded t) \<and>
     (\<forall>a p t. adds_handle loaded fst t (es_create_primary lib a p t)) \<and>
     (\<forall>h a t. loaded (snd (es_set_auth lib h a t)) = loaded t) \<and>
     (\<forall>h a p t. loaded (snd (es_create lib h a p t)) = loaded t) \<and>
     (\<forall>h b p t. adds_handle loaded (\<lambda>h'. h') t (es_load lib h b p t)) \<and>
     (\<forall>h d t. loaded (snd (es_sign lib h d t)) = loaded t) \<and>
     (\<forall>h t. loaded (snd (es_flush_context lib h t)) = loaded t - {h})"

section \<open>Keys\<close>

lemma derive_key_length: "derive_key ssl k label context = Inr a \<Longrightarrow> length a = AUTHORIZATION_SIZE"
  by (auto simp: derive_key_def bind_result_eq_Inr split: if_splits option.splits)

lemma credential_authorization_ok:
  assumes "credential_authorization ssl provider cid = Inr a"
  shows "length a = 32" "16 \<le> length cid" "length cid \<le> 1024"
  using assms derive_key_length [of ssl _ _ cid a]
  by (auto simp: credential_authorization_def validate_credential_id_def bind_result_eq_Inr AUTHORIZATION_SIZE_def
      CREDENTIAL_ID_MIN_SIZE_def CREDENTIAL_ID_MAX_SIZE_def split: if_splits)

text \<open>A key the daemon accepts: a P-256 key for ECDSA with SHA-256 that was generated in the TPM, cannot
  leave it, and can only sign, under its authorization.\<close>

definition tpm_bound :: "TPM2B_PUBLIC \<Rightarrow> bool" where
  "tpm_bound p \<longleftrightarrow> pb_type p = TPM2_ALG_ECC \<and> pb_curveID p = TPM2_ECC_NIST_P256 \<and> pb_scheme p = TPM2_ALG_ECDSA \<and>
     pb_hashAlg p = TPM2_ALG_SHA256 \<and>
     (\<forall>flag \<in> {TPMA_OBJECT_FIXEDTPM, TPMA_OBJECT_FIXEDPARENT, TPMA_OBJECT_SENSITIVEDATAORIGIN, TPMA_OBJECT_USERWITHAUTH,
        TPMA_OBJECT_SIGN_ENCRYPT}. pb_objectAttributes p AND flag = flag) \<and>
     pb_objectAttributes p AND TPMA_OBJECT_DECRYPT = 0 \<and> pb_objectAttributes p AND TPMA_OBJECT_RESTRICTED = 0 \<and>
     pb_authPolicy p = []"

lemma validated_key_bound:
  assumes "validate_public_key p = Inr u"
  shows "tpm_bound p" "pb_x p \<noteq> []" "length (pb_x p) \<le> 32" "pb_y p \<noteq> []" "length (pb_y p) \<le> 32"
  using assms
  by (auto simp: validate_public_key_def tpm_bound_def CREDENTIAL_ATTRIBUTES_def TPMA_OBJECT_defs coordinate_ok_def
      SHA256_SIZE_def split: if_splits)

lemma marshal_public_inverse:
  "marshal_laws lib \<Longrightarrow> marshal_public lib p = Inr out \<Longrightarrow> unmarshal_public lib out = Inr p"
  by (auto simp: marshal_laws_def marshal_public_def unmarshal_public_def bind_result_eq_Inr Let_def tss_check_def
      split: if_splits sum.splits)

lemma marshal_private_inverse:
  "marshal_laws lib \<Longrightarrow> marshal_private lib p = Inr out \<Longrightarrow> unmarshal_private lib out = Inr p"
  by (auto simp: marshal_laws_def marshal_private_def unmarshal_private_def bind_result_eq_Inr Let_def tss_check_def
      split: if_splits sum.splits)

lemma esys_call_Inr: "esys_call f operation t = (Inr x, t') \<longleftrightarrow> f t = (Inr x, t')"
  by (auto simp: esys_call_def tss_check_def split: prod.splits sum.splits)

lemma package_key_Inr:
  assumes "package_key lib blobs = Inr key"
  obtains priv pub where "blobs = (Some priv, Some pub)" "validate_public_key pub = Inr ()"
    "marshal_public lib pub = Inr (publicBlob key)" "marshal_private lib priv = Inr (privateBlob key)"
  using assms by (auto simp: package_key_def bind_result_eq_Inr split: prod.splits option.splits)

lemma create_Inr:
  assumes "CredentialKeyProvider_create ssl lib provider cid t = (Inr key, t')"
  obtains authorization priv pub where "credential_authorization ssl provider cid = Inr authorization"
    "es_create lib (kp_parent provider) authorization credential_template t = (Inr (Some priv, Some pub), t')"
    "validate_public_key pub = Inr ()" "marshal_public lib pub = Inr (publicBlob key)"
    "marshal_private lib priv = Inr (privateBlob key)"
proof -
  from assms obtain authorization blobs where
    "credential_authorization ssl provider cid = Inr authorization"
    "es_create lib (kp_parent provider) authorization credential_template t = (Inr blobs, t')"
    "package_key lib blobs = Inr key"
    by (auto simp: CredentialKeyProvider_create_def exec_simps esys_call_Inr)
  then show thesis by (auto elim!: package_key_Inr intro: that)
qed

text \<open>The blobs of a created key denote that key in every later use.\<close>

lemma created_key_denotes:
  assumes "marshal_laws lib" "CredentialKeyProvider_create ssl lib provider cid t = (Inr key, t')"
  obtains authorization priv pub where
    "es_create lib (kp_parent provider) authorization credential_template t = (Inr (Some priv, Some pub), t')"
    "length authorization = 32" "validate_public_key pub = Inr ()"
    "extractPublic lib (publicBlob key) = Inr (pb_x pub, pb_y pub)"
    "\<forall>digest u. length digest = 32 \<longrightarrow>
       CredentialKeyProvider_sign ssl lib provider cid digest (publicBlob key) (privateBlob key) u =
       load_and_sign ssl lib provider authorization digest pub priv u"
proof -
  from assms(2) obtain authorization priv pub where made:
    "credential_authorization ssl provider cid = Inr authorization"
    "es_create lib (kp_parent provider) authorization credential_template t = (Inr (Some priv, Some pub), t')"
    "validate_public_key pub = Inr ()" "marshal_public lib pub = Inr (publicBlob key)"
    "marshal_private lib priv = Inr (privateBlob key)"
    by (rule create_Inr)
  note recovered = marshal_public_inverse [OF assms(1) made(4)] marshal_private_inverse [OF assms(1) made(5)]
  have "CredentialKeyProvider_sign ssl lib provider cid digest (publicBlob key) (privateBlob key) u =
      load_and_sign ssl lib provider authorization digest pub priv u" if "length digest = 32" for digest u
    by (simp add: CredentialKeyProvider_sign_def made(1,3) recovered that SHA256_SIZE_def exec_then_def exec_bind_def
        exec_lift_def exec_guard_def)
  then show thesis
    using that [OF made(2) credential_authorization_ok(1) [OF made(1)] made(3)]
    by (simp add: extractPublic_def recovered made(3))
qed

lemma der_signature_Inr:
  "der_signature ssl sig = Inr der \<Longrightarrow> \<exists>signature. sig = Some signature \<and> signature_ok signature"
  by (auto simp: der_signature_def split: option.splits if_splits)

lemma holding_Inr:
  "holding lib handle body t = (Inr x, t') \<longleftrightarrow>
     (\<exists>u. body t = (Inr x, u) \<and> t' = TpmTransientHandle_reset lib handle u)"
  by (auto simp: holding_def split: prod.splits)

lemma sign_Inr:
  assumes "CredentialKeyProvider_sign ssl lib provider cid digest pb sb t = (Inr der, t')"
  obtains authorization pub priv handle t1 t2 signature t3 where
    "length digest = 32" "credential_authorization ssl provider cid = Inr authorization"
    "unmarshal_public lib pb = Inr pub" "validate_public_key pub = Inr ()" "unmarshal_private lib sb = Inr priv"
    "es_load lib (kp_parent provider) priv pub t = (Inr handle, t1)"
    "es_set_auth lib handle authorization t1 = (Inr (), t2)"
    "es_sign lib handle digest t2 = (Inr (Some signature), t3)" "signature_ok signature"
    "der_signature ssl (Some signature) = Inr der" "t' = TpmTransientHandle_reset lib handle t3"
proof -
  from assms obtain authorization pub priv handle t1 t3 where opened:
    "length digest = 32" "credential_authorization ssl provider cid = Inr authorization"
    "unmarshal_public lib pb = Inr pub" "validate_public_key pub = Inr ()" "unmarshal_private lib sb = Inr priv"
    "es_load lib (kp_parent provider) priv pub t = (Inr handle, t1)"
    "sign_loaded ssl lib authorization digest handle t1 = (Inr der, t3)"
    "t' = TpmTransientHandle_reset lib handle t3"
    by (auto simp: CredentialKeyProvider_sign_def load_and_sign_def holding_Inr exec_simps esys_call_Inr SHA256_SIZE_def)
  from opened(7) obtain t2 sig where signed: "es_set_auth lib handle authorization t1 = (Inr (), t2)"
    "es_sign lib handle digest t2 = (Inr sig, t3)" "der_signature ssl sig = Inr der"
    by (auto simp: sign_loaded_def set_auth_def exec_simps esys_call_Inr)
  with der_signature_Inr [OF signed(3)] opened show thesis by (auto intro: that)
qed

section \<open>Transient objects\<close>

datatype KeyOp = CreateKey bytes | SignWith bytes bytes bytes bytes | ReadPublic bytes

fun run_key_op :: "'o Ssl \<Rightarrow> 't Esys \<Rightarrow> CredentialKeyProvider \<Rightarrow> KeyOp \<Rightarrow> 't \<Rightarrow> 't" where
  "run_key_op ssl lib provider (CreateKey cid) t = snd (CredentialKeyProvider_create ssl lib provider cid t)"
| "run_key_op ssl lib provider (SignWith cid digest pb sb) t =
     snd (CredentialKeyProvider_sign ssl lib provider cid digest pb sb t)"
| "run_key_op ssl lib provider (ReadPublic pb) t = t"

text \<open>The life of a provider: it is made, serves any operations, each of which may throw, and is destroyed.\<close>

definition provider_life :: "'o Ssl \<Rightarrow> 't Esys \<Rightarrow> bytes \<Rightarrow> KeyOp list \<Rightarrow> 't \<Rightarrow> 't" where
  "provider_life ssl lib master_key ops t =
     (case make_provider ssl lib master_key t of
        (Inl _, t') \<Rightarrow> t'
      | (Inr provider, t') \<Rightarrow> destroy_provider lib provider (fold (run_key_op ssl lib provider) ops t'))"

lemma sign_loaded_transients:
  assumes "transient_laws lib loaded"
  shows "loaded (snd (sign_loaded ssl lib a d h t)) = loaded t"
  using assms
  by (simp add: transient_laws_def sign_loaded_def set_auth_def exec_then_def exec_bind_def esys_call_def exec_lift_def
      tss_check_def split: prod.splits sum.splits) (metis snd_conv)+

lemma load_and_sign_transients:
  assumes "transient_laws lib loaded"
  shows "loaded (snd (load_and_sign ssl lib provider a d pub priv t)) = loaded t"
proof (cases "es_load lib (kp_parent provider) priv pub t")
  case (Pair r t1)
  have load: "adds_handle loaded (\<lambda>h'. h') t (r, t1)"
    using assms Pair unfolding transient_laws_def by metis
  have flush: "loaded (snd (es_flush_context lib h u)) = loaded u - {h}" for h u
    using assms by (simp add: transient_laws_def)
  show ?thesis
  proof (cases r)
    case (Inl e)
    with load Pair show ?thesis
      by (simp add: load_and_sign_def exec_bind_def esys_call_def tss_check_def adds_handle_def)
  next
    case (Inr h)
    with load have fresh: "h \<noteq> ESYS_TR_NONE" "h \<notin> loaded t" "loaded t1 = insert h (loaded t)"
      by (auto simp: adds_handle_def)
    have "snd (load_and_sign ssl lib provider a d pub priv t) =
        snd (es_flush_context lib h (snd (sign_loaded ssl lib a d h t1)))"
      using Pair Inr fresh(1)
      by (simp add: load_and_sign_def exec_bind_def esys_call_def tss_check_def holding_def TpmTransientHandle_reset_def
          split: prod.splits)
    then show ?thesis using fresh by (simp add: flush sign_loaded_transients [OF assms])
  qed
qed

lemma lift_bind_snd:
  "snd (exec_bind (exec_lift r) f t) = (case r of Inl _ \<Rightarrow> t | Inr x \<Rightarrow> snd (f x t))"
  "snd (exec_then (exec_lift r) k t) = (case r of Inl _ \<Rightarrow> t | Inr x \<Rightarrow> snd (k t))"
  "snd (exec_then (exec_guard ok e) k t) = (if ok then snd (k t) else t)"
  by (simp_all add: exec_then_def exec_bind_def exec_lift_def exec_guard_def split: sum.splits)

lemma run_key_op_transients:
  assumes "transient_laws lib loaded"
  shows "loaded (run_key_op ssl lib provider op t) = loaded t"
proof (cases op)
  case (CreateKey cid)
  have "loaded (snd (exec_bind (esys_call (es_create lib h a p) operation) (\<lambda>blobs. exec_lift (f blobs)) t)) = loaded t"
    for h a p operation and f :: "_ \<Rightarrow> CredentialKey result"
    using assms
    by (simp add: transient_laws_def exec_bind_def esys_call_def exec_lift_def tss_check_def split: prod.splits sum.splits)
      (metis snd_conv)
  then show ?thesis
    by (simp add: CreateKey CredentialKeyProvider_create_def lift_bind_snd split: sum.splits)
next
  case (SignWith cid digest pb sb)
  then show ?thesis
    by (simp add: CredentialKeyProvider_sign_def lift_bind_snd load_and_sign_transients [OF assms] split: sum.splits)
qed simp

lemma fold_key_ops_transients:
  "transient_laws lib loaded \<Longrightarrow> loaded (fold (run_key_op ssl lib provider) ops t) = loaded t"
  by (induction ops arbitrary: t) (simp_all add: run_key_op_transients)

text \<open>After the constructor the provider's parent is the one new object; after an exception there is none.\<close>

definition parent_added :: "('t \<Rightarrow> ESYS_TR set) \<Rightarrow> 't \<Rightarrow> CredentialKeyProvider result \<Rightarrow> 't \<Rightarrow> bool" where
  "parent_added loaded t r t' = (case r of Inl _ \<Rightarrow> loaded t' = loaded t
     | Inr provider \<Rightarrow> kp_parent provider \<noteq> ESYS_TR_NONE \<and> kp_parent provider \<notin> loaded t \<and>
         loaded t' = insert (kp_parent provider) (loaded t))"

lemma adopt_parent_transients:
  assumes "transient_laws lib loaded" and out: "adds_handle loaded fst t0 (Inr made, t)"
    and adopted: "adopt_parent lib a m made t = (r, t')"
  shows "parent_added loaded t0 r t'"
proof -
  obtain h p where made: "made = (h, p)" by (cases made)
  have auth: "loaded (snd (es_set_auth lib h' a' u)) = loaded u"
    and flush: "loaded (snd (es_flush_context lib h' u)) = loaded u - {h'}" for h' a' u
    using assms(1) by (simp_all add: transient_laws_def)
  have fresh: "h \<noteq> ESYS_TR_NONE" "h \<notin> loaded t0" "loaded t = insert h (loaded t0)"
    using out by (simp_all add: adds_handle_def made)
  have set: "loaded u' = loaded u" if "set_auth lib h a u = (x, u')" for u u' x
    using that auth [of h a u] by (auto simp: set_auth_def esys_call_def split: prod.splits)
  show ?thesis
    using adopted fresh
    by (auto simp: adopt_parent_def made exec_then_def exec_bind_def exec_lift_def exec_throw_def exec_return_def
        TpmTransientHandle_reset_def flush parent_added_def dest!: set split: option.splits sum.splits prod.splits)
qed

lemma create_parent_transients:
  assumes "transient_laws lib loaded"
    and ran: "exec_bind (esys_call (es_create_primary lib a p) operation) (adopt_parent lib a m) t = (r, t')"
  shows "parent_added loaded t r t'"
proof -
  have prim: "adds_handle loaded fst t (es_create_primary lib a p t)"
    using assms(1) by (simp add: transient_laws_def)
  from ran show ?thesis
  proof (cases rule: exec_bind_cases)
    case (threw e)
    then have "\<exists>d. es_create_primary lib a p t = (Inl d, t')"
      by (auto simp: esys_call_def tss_check_def split: prod.splits sum.splits)
    with prim threw show ?thesis by (auto simp: adds_handle_def parent_added_def)
  next
    case (went_on made u)
    then have "es_create_primary lib a p t = (Inr made, u)" by (simp add: esys_call_Inr)
    with prim have "adds_handle loaded fst t (Inr made, u)" by simp
    from adopt_parent_transients [OF assms(1) this went_on(2)] show ?thesis .
  qed
qed

lemma exec_lift_case: "exec_bind (exec_lift x) f = (case x of Inl e \<Rightarrow> exec_throw e | Inr y \<Rightarrow> f y)"
  by (simp add: exec_simps split: sum.splits)

lemma exec_guard_case: "exec_then (exec_guard ok e) m = (if ok then m else exec_throw e)"
  by (auto simp: exec_then_def exec_bind_def exec_guard_def exec_throw_def)

lemma provider_body_transients:
  assumes "transient_laws lib loaded" "provider_body ssl lib k t = (r, t')"
  shows "parent_added loaded t r t'"
proof -
  have kept: "parent_added loaded u (Inl e) u" for u e by (simp add: parent_added_def)
  note parent = create_parent_transients [OF assms(1)]
  show ?thesis
    using assms(2) unfolding provider_body_def exec_lift_case exec_guard_case
    by (auto simp: exec_throw_def kept intro: parent split: if_splits sum.splits)
qed

lemma make_provider_transients:
  assumes "transient_laws lib loaded" and made: "make_provider ssl lib k t = (r, t')"
  shows "parent_added loaded t r t'"
proof -
  have fin: "loaded (es_finalize lib u) = loaded u" and ini: "loaded (snd (es_initialize lib u)) = loaded u" for u
    using assms(1) by (simp_all add: transient_laws_def)
  have ctx: "loaded u = loaded t" if "TpmCtx lib t = (x, u)" for x u
  proof (cases "es_initialize lib t")
    case (Pair r1 t1)
    with ini [of t] have "loaded t1 = loaded t" by simp
    with that Pair fin [of t1] show ?thesis
      by (cases r1; cases "fst r1") (simp_all add: TpmCtx_def split: if_splits)
  qed
  from made [unfolded make_provider_def exec_then_def] show ?thesis
  proof (cases rule: exec_bind_cases)
    case (threw e)
    then show ?thesis by (auto simp: parent_added_def dest: ctx)
  next
    case (went_on x u)
    obtain r1 u1 where body: "provider_body ssl lib k u = (r1, u1)" by (cases "provider_body ssl lib k u")
    have "parent_added loaded u r1 u1" by (rule provider_body_transients [OF assms(1) body])
    with went_on(2) body ctx [OF went_on(1)] show ?thesis
      by (auto simp: parent_added_def fin split: sum.splits)
  qed
qed

lemma provider_life_transients:
  assumes "transient_laws lib loaded"
  shows "loaded (provider_life ssl lib master_key ops t) = loaded t"
proof (cases "make_provider ssl lib master_key t")
  case (Pair r t')
  have "loaded (es_finalize lib u) = loaded u" "loaded (snd (es_flush_context lib h u)) = loaded u - {h}" for h u
    using assms by (simp_all add: transient_laws_def)
  with make_provider_transients [OF assms Pair] Pair show ?thesis
    by (cases r) (simp_all add: provider_life_def parent_added_def destroy_provider_def TpmTransientHandle_reset_def
      fold_key_ops_transients [OF assms])
qed

section \<open>The provider in a ceremony\<close>

text \<open>The environment of a command whose keys come from a provider: the TPM is in state \<open>t\<close> when the
  ceremony creates a key and in state \<open>u\<close> when it signs.\<close>

definition provider_env :: "'o Ssl \<Rightarrow> 't Esys \<Rightarrow> CredentialKeyProvider \<Rightarrow> 't \<Rightarrow> 't \<Rightarrow> Env \<Rightarrow> Env" where
  "provider_env ssl lib provider t u env = env\<lparr>env_sha256 := sha256_bytes ssl, env_random := openssl_random_bytes ssl,
     env_create := (\<lambda>cid. fst (CredentialKeyProvider_create ssl lib provider cid t)),
     env_sign := (\<lambda>cid digest pb sb. fst (CredentialKeyProvider_sign ssl lib provider cid digest pb sb u)),
     env_extractPublic := extractPublic lib\<rparr>"

lemma provider_env_simps:
  "env_sha256 (provider_env ssl lib provider t u env) = sha256_bytes ssl"
  "env_create (provider_env ssl lib provider t u env) cid = fst (CredentialKeyProvider_create ssl lib provider cid t)"
  "env_sign (provider_env ssl lib provider t u env) cid digest pb sb =
     fst (CredentialKeyProvider_sign ssl lib provider cid digest pb sb u)"
  "env_extractPublic (provider_env ssl lib provider t u env) = extractPublic lib"
  "env_emit (provider_env ssl lib provider t u env) = env_emit env"
  by (simp_all add: provider_env_def)

lemma registration_steps:
  assumes "registration_payload env req alg = Inr (credential, payload)"
  obtains prefix key x y cose digest der where "env_create env (cred_id credential) = Inr key"
    "cred_public_blob credential = publicBlob key" "cred_private_blob credential = privateBlob key"
    "env_extractPublic env (publicBlob key) = Inr (x, y)" "build_cose_key (env_emit env) x y = Inr cose"
    "env_sha256 env ((prefix @ cose) @ mc_clientDataHash req) = Inr digest"
    "env_sign env (cred_id credential) digest (publicBlob key) (privateBlob key) = Inr der"
    "build_authenticatorMakeCredential_response (env_emit env) (prefix @ cose) der = Inr payload"
  using assms unfolding registration_payload_def
  by (auto simp: bind_result_eq_Inr Let_def)

lemma sign_digest_length:
  "fst (CredentialKeyProvider_sign ssl lib provider cid digest pb sb u) = Inr der \<Longrightarrow> length digest = 32"
  by (simp add: CredentialKeyProvider_sign_def exec_guard_case SHA256_SIZE_def exec_throw_def split: if_splits)

text \<open>
  C0.  Registration binds the credential to one TPM key.  When the marshalling functions invert each
  other, a registration that succeeds created, under the provider's parent and with a 32-byte
  authorization value, a P-256 signing key that cannot leave the TPM; the response carries that key's
  coordinates and is signed by it; and every later signature asked for with the stored identifier and
  blobs, whatever happened to the TPM since, loads exactly that key and uses that authorization.
\<close>

theorem registered_key_signs:
  assumes laws: "marshal_laws lib"
    and reg: "registration_payload (provider_env ssl lib provider t u env) req alg = Inr (credential, payload)"
  shows "\<exists>authorization priv pub prefix cose digest der.
    fst (es_create lib (kp_parent provider) authorization credential_template t) = Inr (Some priv, Some pub) \<and>
    length authorization = 32 \<and> tpm_bound pub \<and>
    build_cose_key (env_emit env) (pb_x pub) (pb_y pub) = Inr cose \<and>
    sha256_bytes ssl (prefix @ cose @ mc_clientDataHash req) = Inr digest \<and>
    fst (load_and_sign ssl lib provider authorization digest pub priv u) = Inr der \<and>
    build_authenticatorMakeCredential_response (env_emit env) (prefix @ cose) der = Inr payload \<and>
    (\<forall>later v. length later = 32 \<longrightarrow>
       CredentialKeyProvider_sign ssl lib provider (cred_id credential) later (cred_public_blob credential)
         (cred_private_blob credential) v =
       load_and_sign ssl lib provider authorization later pub priv v)"
proof -
  from reg obtain prefix key x y cose digest der where steps:
    "fst (CredentialKeyProvider_create ssl lib provider (cred_id credential) t) = Inr key"
    "cred_public_blob credential = publicBlob key" "cred_private_blob credential = privateBlob key"
    "extractPublic lib (publicBlob key) = Inr (x, y)" "build_cose_key (env_emit env) x y = Inr cose"
    "sha256_bytes ssl ((prefix @ cose) @ mc_clientDataHash req) = Inr digest"
    "fst (CredentialKeyProvider_sign ssl lib provider (cred_id credential) digest (publicBlob key) (privateBlob key) u)
       = Inr der"
    "build_authenticatorMakeCredential_response (env_emit env) (prefix @ cose) der = Inr payload"
    by (elim registration_steps) (simp add: provider_env_simps)
  obtain t' where "CredentialKeyProvider_create ssl lib provider (cred_id credential) t = (Inr key, t')"
    using steps(1) by (metis prod.collapse)
  with laws obtain authorization priv pub where made:
    "es_create lib (kp_parent provider) authorization credential_template t = (Inr (Some priv, Some pub), t')"
    "length authorization = 32" "validate_public_key pub = Inr ()"
    "extractPublic lib (publicBlob key) = Inr (pb_x pub, pb_y pub)"
    "\<forall>digest u. length digest = 32 \<longrightarrow>
       CredentialKeyProvider_sign ssl lib provider (cred_id credential) digest (publicBlob key) (privateBlob key) u =
       load_and_sign ssl lib provider authorization digest pub priv u"
    by (rule created_key_denotes)
  from steps(4) made(4) have xy: "x = pb_x pub" "y = pb_y pub" by simp_all
  show ?thesis
    using made steps xy sign_digest_length [OF steps(7)] validated_key_bound(1) [OF made(3)]
    by (intro exI conjI allI impI) simp_all
qed

text \<open>A library pair and a TPM for the examples: the TPM state is the list of loaded handles.\<close>

definition sample_ssl :: "bytes Ssl" where
  "sample_ssl = \<lparr>ssl_md_ctx_new = (Some [], None), ssl_digest_init = (\<lambda>x. (1, None, x)),
     ssl_digest_update = (\<lambda>x bs. (1, None, x @ bs)), ssl_digest_final = (\<lambda>x. (1, None, replicate 32 5)),
     ssl_rand_bytes = (\<lambda>n. (1, None, replicate n 6)), ssl_pkey_ctx_new = Some [], ssl_derive_init = (\<lambda>x. (1, None, x)),
     ssl_set_hkdf_md = (\<lambda>x. (1, None, x)), ssl_set_hkdf_key = (\<lambda>x k. (1, None, x @ k)),
     ssl_add_hkdf_info = (\<lambda>x i. (1, None, x @ i)), ssl_derive = (\<lambda>x n. (1, None, replicate n 8)),
     ssl_ecdsa_sig_new = (Some [], None), ssl_bin2bn = (\<lambda>bs. (Some bs, None)), ssl_sig_set0 = (\<lambda>_ r s. (1, None, r @ s)),
     ssl_i2d_size = (\<lambda>x. (int (length x), None, ())), ssl_i2d = (\<lambda>x. (int (length x), None, x))\<rparr>"

definition sample_public :: TPM2B_PUBLIC where
  "sample_public = credential_template\<lparr>pb_size := 1, pb_x := [1], pb_y := [2]\<rparr>"

definition sample_load :: "ESYS_TR list \<Rightarrow> ESYS_TR tss \<times> ESYS_TR list" where
  "sample_load t = (let h = word_of_nat (length t) in
     if h \<in> set t \<or> h = ESYS_TR_NONE then (Inl ''out of memory'', t) else (Inr h, h # t))"

definition sample_esys :: "ESYS_TR list Esys" where
  "sample_esys = \<lparr>
     mu_public_unmarshal = (\<lambda>bs. if bs = [0, 1, 9] \<or> bs = [2] then Inr (sample_public, length bs) else Inl ''bad''),
     mu_private_unmarshal = (\<lambda>bs. if bs = [0, 1, 7] \<or> bs = [1] then Inr ([7], length bs) else Inl ''bad''),
     mu_public_marshal = (\<lambda>p n. if p = sample_public then Inr [0, 1, 9] else Inl ''bad''),
     mu_private_marshal = (\<lambda>p n. if p = [7] then Inr [0, 1, 7] else Inl ''bad''),
     es_initialize = (\<lambda>t. ((Inr (), True), t)), es_finalize = (\<lambda>t. t),
     es_create_primary = (\<lambda>_ p t. case sample_load t of
        (Inl e, t') \<Rightarrow> (Inl e, t') | (Inr h, t') \<Rightarrow> (Inr (h, Some (p\<lparr>pb_x := [1], pb_y := [2]\<rparr>)), t')),
     es_set_auth = (\<lambda>_ _ t. (Inr (), t)),
     es_create = (\<lambda>_ _ _ t. (Inr (Some [7], Some sample_public), t)),
     es_load = (\<lambda>_ _ _ t. sample_load t),
     es_sign = (\<lambda>_ _ t. (Inr (Some \<lparr>sg_sigAlg = TPM2_ALG_ECDSA, sg_hash = TPM2_ALG_SHA256, sg_r = [3], sg_s = [4]\<rparr>), t)),
     es_flush_context = (\<lambda>h t. (Inr (), filter (\<lambda>x. x \<noteq> h) t))\<rparr>"

definition sample_provider :: CredentialKeyProvider where
  "sample_provider = \<lparr>kp_parent = 0, kp_parentAuthorization = replicate 32 8,
     kp_credentialAuthorizationMaster = replicate 32 8\<rparr>"

lemma sample_marshal_laws: "marshal_laws sample_esys"
  by (auto simp: marshal_laws_def sample_esys_def split: if_splits)

lemma sample_load_adds: "adds_handle set (\<lambda>h. h) t (sample_load t)"
  by (auto simp: sample_load_def adds_handle_def Let_def)

lemma sample_primary_adds: "adds_handle set fst t (es_create_primary sample_esys a p t)"
  using sample_load_adds [of t]
  by (auto simp: sample_esys_def adds_handle_def split: prod.splits sum.splits)

lemma sample_transient_laws: "transient_laws sample_esys set"
  unfolding transient_laws_def
  using sample_primary_adds sample_load_adds by (auto simp: sample_esys_def)

lemma sample_authorization:
  "credential_authorization sample_ssl sample_provider (replicate 32 6) = Inr (replicate 32 8)"
  "credential_authorization sample_ssl sample_provider (replicate 16 1) = Inr (replicate 32 8)"
  by (simp_all add: credential_authorization_def validate_credential_id_def CREDENTIAL_ID_MIN_SIZE_def CREDENTIAL_ID_MAX_SIZE_def
      derive_key_def sample_ssl_def sample_provider_def openssl_checked_size_def add_info_def CREDENTIAL_AUTH_LABEL_def
      AUTHORIZATION_SIZE_def)

lemma sample_public_valid: "validate_public_key sample_public = Inr ()"
  by (simp add: validate_public_key_def sample_public_def credential_template_def coordinate_ok_def SHA256_SIZE_def)

lemma sample_create:
  "fst (CredentialKeyProvider_create sample_ssl sample_esys sample_provider (replicate 32 6) t) =
     Inr \<lparr>publicBlob = [0, 1, 9], privateBlob = [0, 1, 7]\<rparr>"
  by (simp add: CredentialKeyProvider_create_def exec_lift_case sample_authorization exec_bind_def exec_lift_def esys_call_def
      sample_esys_def tss_check_def package_key_def sample_public_valid marshal_public_def marshal_private_def)
    (simp add: sample_public_def)

lemma sample_load_and_sign: "fst (load_and_sign sample_ssl sample_esys provider a digest pub priv [0]) = Inr [3, 4]"
  by (simp add: load_and_sign_def sample_esys_def sample_load_def ESYS_TR_NONE_def exec_bind_def esys_call_def tss_check_def
      holding_def sign_loaded_def set_auth_def exec_then_def exec_lift_def der_signature_def signature_ok_def coordinate_ok_def
      SHA256_SIZE_def sample_ssl_def openssl_make_ecdsa_signature_def openssl_make_big_number_def openssl_checked_size_def)

lemma sample_unmarshal:
  "unmarshal_public sample_esys [0, 1, 9] = Inr sample_public" "unmarshal_private sample_esys [0, 1, 7] = Inr [7]"
  "unmarshal_public sample_esys [2] = Inr sample_public" "unmarshal_private sample_esys [1] = Inr [7]"
  by (simp_all add: unmarshal_public_def unmarshal_private_def sample_esys_def tss_check_def)

lemma sample_sign:
  "fst (CredentialKeyProvider_sign sample_ssl sample_esys sample_provider (replicate 32 6) (replicate 32 5)
     [0, 1, 9] [0, 1, 7] [0]) = Inr [3, 4]"
  "fst (CredentialKeyProvider_sign sample_ssl sample_esys sample_provider (replicate 16 1) (replicate 32 5) [2] [1] [0]) =
     Inr [3, 4]"
  by (simp_all add: CredentialKeyProvider_sign_def exec_lift_case exec_guard_case sample_authorization sample_unmarshal
      exec_then_def [of "exec_lift _"] sample_public_valid SHA256_SIZE_def sample_load_and_sign)

lemma sample_hash: "sha256_bytes sample_ssl bs = Inr (replicate 32 5)"
  by (simp add: sha256_bytes_def openssl_make_digest_context_def sample_ssl_def)

lemma sample_random: "openssl_random_bytes sample_ssl 32 = Inr (replicate 32 6)"
  by (simp add: openssl_random_bytes_def openssl_checked_size_def sample_ssl_def)

lemma sample_extract: "extractPublic sample_esys [0, 1, 9] = Inr ([1], [2])"
  by (simp add: extractPublic_def sample_unmarshal sample_public_valid) (simp add: sample_public_def)

lemma sample_registration_with_provider:
  "\<exists>(credential :: StoredCredential) payload.
     registration_payload (provider_env sample_ssl sample_esys sample_provider [0] [0] sample_env)
       sample_registration (-7) = Inr (credential, payload) \<and> cred_id credential = replicate 32 6"
  by (simp add: registration_payload_def provider_env_def sample_registration_def clear_make_credential_def option_at_def
      Let_def sample_hash sample_random sample_create sample_extract sample_sign)
    (simp add: sample_env_def build_cose_key_def build_authenticatorMakeCredential_response_def encode_cbor_def pad32_def
      append_cbor_def CTAPHID_MAX_PAYLOAD_SIZE_def)

theorem registered_key_signs_witness:
  "\<exists>(credential :: StoredCredential) payload.
     registration_payload (provider_env sample_ssl sample_esys sample_provider [0] [0] sample_env)
       sample_registration (-7) = Inr (credential, payload) \<and>
     fst (CredentialKeyProvider_sign sample_ssl sample_esys sample_provider (cred_id credential) (replicate 32 5)
       (cred_public_blob credential) (cred_private_blob credential) [0]) = Inr [3, 4]"
proof -
  obtain credential :: StoredCredential and payload where
    reg: "registration_payload (provider_env sample_ssl sample_esys sample_provider [0] [0] sample_env)
       sample_registration (-7) = Inr (credential, payload)"
    using sample_registration_with_provider by blast
  from registered_key_signs [OF sample_marshal_laws reg] obtain authorization priv pub where
    "CredentialKeyProvider_sign sample_ssl sample_esys sample_provider (cred_id credential) (replicate 32 5)
       (cred_public_blob credential) (cred_private_blob credential) [0] =
     load_and_sign sample_ssl sample_esys sample_provider authorization (replicate 32 5) pub priv [0]"
    by auto
  then have "fst (CredentialKeyProvider_sign sample_ssl sample_esys sample_provider (cred_id credential) (replicate 32 5)
       (cred_public_blob credential) (cred_private_blob credential) [0]) = Inr [3, 4]"
    by (simp only: sample_load_and_sign)
  with reg show ?thesis by blast
qed

text \<open>
  C0.  An assertion is signed in the TPM.  A successful authenticatorGetAssertion of a daemon whose keys
  come from the provider carries the DER form of a well-formed ECDSA signature that the TPM made, over
  the hash of the authenticator data with the incremented counter and the client data hash, with the
  key the stored blobs of the credential denote, which is a P-256 signing key that cannot leave the
  TPM, loaded under the provider's parent and used with the authorization derived from the credential
  identifier.
\<close>

theorem assertion_signed_in_tpm:
  assumes "daemon_ok d" "handle_command ctx (provider_env ssl lib provider t u env) request d = (Inr p, d')"
    and "hd (rep_payload request) = 0x02" "length (pkt_payload p) \<noteq> 1"
  shows "\<exists>c n rphash authData digest authorization pub priv handle u1 u2 signature u3 der.
    map_of (stored (d_store d)) (hex_text (cred_id c)) = Some c \<and>
    sha256_bytes ssl (map byte_of_char (ga_rpId (ga_fields (d_request d')))) = Inr rphash \<and>
    authData = assertion_auth_data rphash
      (assertion_authenticator_flags (ga_userPresent (d_request d')) (ga_userVerified (d_request d'))) (cred_signCount c + 1) \<and>
    sha256_bytes ssl (authData @ ga_clientDataHash (ga_fields (d_request d'))) = Inr digest \<and>
    credential_authorization ssl provider (cred_id c) = Inr authorization \<and>
    unmarshal_public lib (cred_public_blob c) = Inr pub \<and> tpm_bound pub \<and>
    unmarshal_private lib (cred_private_blob c) = Inr priv \<and>
    es_load lib (kp_parent provider) priv pub u = (Inr handle, u1) \<and>
    es_set_auth lib handle authorization u1 = (Inr (), u2) \<and>
    es_sign lib handle digest u2 = (Inr (Some signature), u3) \<and> signature_ok signature \<and>
    der_signature ssl (Some signature) = Inr der \<and>
    build_authenticatorGetAssertion_response (env_emit env) authData der (ga_userVerified (d_request d'))
      (c\<lparr>cred_signCount := cred_signCount c + 1\<rparr>) (length (ga_allowList (ga_fields (d_request d'))) \<noteq> 1) n =
      Inr (pkt_payload p)"
proof -
  from assertion_success [OF assms] obtain user :: UserContext and c n where
    made: "asserts (provider_env ssl lib provider t u env) (uc_uid user) c n (d_request d') (d_store d) (d_store d')
      (pkt_payload p)" by blast
  then obtain rphash digest der where steps:
    "map_of (stored (d_store d)) (hex_text (cred_id c)) = Some c"
    "sha256_bytes ssl (map byte_of_char (ga_rpId (ga_fields (d_request d')))) = Inr rphash"
    "sha256_bytes ssl (assertion_auth_data rphash
      (assertion_authenticator_flags (ga_userPresent (d_request d')) (ga_userVerified (d_request d'))) (cred_signCount c + 1) @
      ga_clientDataHash (ga_fields (d_request d'))) = Inr digest"
    "fst (CredentialKeyProvider_sign ssl lib provider (cred_id c) digest (cred_public_blob c) (cred_private_blob c) u) = Inr der"
    "build_authenticatorGetAssertion_response (env_emit env) (assertion_auth_data rphash
      (assertion_authenticator_flags (ga_userPresent (d_request d')) (ga_userVerified (d_request d'))) (cred_signCount c + 1))
      der (ga_userVerified (d_request d')) (c\<lparr>cred_signCount := cred_signCount c + 1\<rparr>)
      (length (ga_allowList (ga_fields (d_request d'))) \<noteq> 1) n = Inr (pkt_payload p)"
    by (auto simp: asserts_def assertion_payload_def provider_env_simps bind_result_eq_Inr Let_def)
  obtain u' where "CredentialKeyProvider_sign ssl lib provider (cred_id c) digest (cred_public_blob c) (cred_private_blob c) u =
      (Inr der, u')" using steps(4) by (metis prod.collapse)
  then obtain authorization pub priv handle u1 u2 signature u3 where
    "credential_authorization ssl provider (cred_id c) = Inr authorization"
    "unmarshal_public lib (cred_public_blob c) = Inr pub" "validate_public_key pub = Inr ()"
    "unmarshal_private lib (cred_private_blob c) = Inr priv"
    "es_load lib (kp_parent provider) priv pub u = (Inr handle, u1)"
    "es_set_auth lib handle authorization u1 = (Inr (), u2)"
    "es_sign lib handle digest u2 = (Inr (Some signature), u3)" "signature_ok signature"
    "der_signature ssl (Some signature) = Inr der"
    by (elim sign_Inr)
  with steps show ?thesis
    by (intro exI conjI) (assumption | rule refl | erule validated_key_bound(1))+
qed

theorem assertion_signed_in_tpm_witness:
  "\<exists>p d' u1 u2 u3 handle digest signature.
     handle_command lenient_context (provider_env sample_ssl sample_esys sample_provider [0] [0] sample_env)
       (sample_request 0x02) sample_daemon = (Inr p, d') \<and> pkt_payload p = sample_response \<and>
     es_load sample_esys 0 [7] sample_public [0] = (Inr handle, u1) \<and>
     es_sign sample_esys handle digest u2 = (Inr (Some signature), u3) \<and> signature_ok signature"
proof -
  have user: "uc_uid sample_user = 1000" by (simp add: sample_user_def)
  from sample_assertion_with [OF user, where presence = "env_presence sample_env" and hash = "sha256_bytes sample_ssl" and
      verification = "env_verification sample_env" and signature = "[3, 4]" and random = "openssl_random_bytes sample_ssl" and
      signer = "\<lambda>cid digest pb sb. fst (CredentialKeyProvider_sign sample_ssl sample_esys sample_provider cid digest pb sb [0])"
      and create = "\<lambda>cid. fst (CredentialKeyProvider_create sample_ssl sample_esys sample_provider cid [0])" and
      public_of = "extractPublic sample_esys"]
  obtain p d' where run: "handle_command lenient_context (provider_env sample_ssl sample_esys sample_provider [0] [0] sample_env)
       (sample_request 0x02) sample_daemon = (Inr p, d')" and payload: "pkt_payload p = sample_response"
    by (auto simp: sample_hash sample_sign provider_env_def sample_env_def)
  have cmd: "hd (rep_payload (sample_request 0x02)) = 0x02" by (simp add: sample_request_def)
  have long: "length (pkt_payload p) \<noteq> 1" by (simp add: payload sample_response_def)
  from assertion_signed_in_tpm [OF sample_daemon_ok(1) run cmd long] obtain c digest pub priv handle u1 u2 signature u3 where
    facts: "map_of (stored (d_store sample_daemon)) (hex_text (cred_id c)) = Some c"
    "unmarshal_public sample_esys (cred_public_blob c) = Inr pub" "unmarshal_private sample_esys (cred_private_blob c) = Inr priv"
    "es_load sample_esys (kp_parent sample_provider) priv pub [0] = (Inr handle, u1)"
    "es_sign sample_esys handle digest u2 = (Inr (Some signature), u3)" "signature_ok signature" by blast
  from facts(1) have "cred_public_blob c = [2]" "cred_private_blob c = [1]"
    by (auto simp: sample_daemon_def sample_store_def sample_storage_def sample_credential_def split: if_splits)
  with facts run payload show ?thesis by (auto simp: sample_unmarshal sample_provider_def)
qed

text \<open>
  C0.  The provider leaves no object in the TPM: whatever the master key, whichever keys are created,
  used for signatures or read while it lives, and whichever of these steps throw, the transient
  objects after its destruction are those before its construction.
\<close>

theorem provider_leaves_no_objects:
  assumes "transient_laws lib loaded"
  shows "loaded (provider_life ssl lib master_key ops t) = loaded t"
  by (rule provider_life_transients [OF assms])

theorem provider_leaves_no_objects_witness:
  "set (provider_life sample_ssl sample_esys (replicate 32 1)
      [CreateKey (replicate 32 6), SignWith (replicate 32 6) (replicate 32 5) [0, 1, 9] [0, 1, 7], SignWith [] [] [] []] [0, 5]) =
   {0, 5} \<and> transient_laws sample_esys set"
  using provider_leaves_no_objects [OF sample_transient_laws, of sample_ssl "replicate 32 1" _ "[0, 5]"]
  by (simp add: sample_transient_laws)

end
