(* ===== verification/Verifier_Protocol.thy ===== *)
theory Verifier_Protocol
  imports Prelude
begin

text \<open>
  The packets exchanged with the PAM verifier (\<open>uv/src/verifier_protocol.cpp\<close>) and the conversation
  they form (\<open>uv/src/verifier_conversation.cpp\<close>).  The enumerations \<open>VerificationStatusKind\<close> and
  \<open>VerificationResult\<close> are bytes, as in the source, where any byte can be cast to them and
  \<open>is_valid\<close> tells the named values from the others.
\<close>

section \<open>Messages\<close>

definition VERIFIER_PROTOCOL_VERSION :: u8 where "VERIFIER_PROTOCOL_VERSION = 1"
definition VERIFIER_PROTOCOL_HEADER_SIZE :: nat where "VERIFIER_PROTOCOL_HEADER_SIZE = 2"
definition MAX_SESSION_ID_SIZE :: nat where "MAX_SESSION_ID_SIZE = 255"
definition MAX_VERIFICATION_TEXT_SIZE :: nat where "MAX_VERIFICATION_TEXT_SIZE = 512"
definition MAX_SECRET_SIZE :: nat where "MAX_SECRET_SIZE = 1024"
definition MAX_VERIFICATION_SECRET_SIZE :: nat where "MAX_VERIFICATION_SECRET_SIZE = MAX_SECRET_SIZE"
definition MAX_VERIFIER_PACKET_SIZE :: nat where
  "MAX_VERIFIER_PACKET_SIZE = VERIFIER_PROTOCOL_HEADER_SIZE +
     foldr max [4 + MAX_SESSION_ID_SIZE, MAX_VERIFICATION_SECRET_SIZE,
                1 + MAX_VERIFICATION_TEXT_SIZE, MAX_VERIFICATION_TEXT_SIZE] 0"

lemmas verifier_limits =
  VERIFIER_PROTOCOL_VERSION_def VERIFIER_PROTOCOL_HEADER_SIZE_def MAX_SESSION_ID_SIZE_def
  MAX_VERIFICATION_TEXT_SIZE_def MAX_SECRET_SIZE_def MAX_VERIFICATION_SECRET_SIZE_def
  MAX_VERIFIER_PACKET_SIZE_def

type_synonym VerificationStatusKind = u8
type_synonym VerificationResult = u8

definition is_valid_kind :: "VerificationStatusKind \<Rightarrow> bool" where
  "is_valid_kind kind \<longleftrightarrow> kind = 1 \<or> kind = 2"

definition is_valid_result :: "VerificationResult \<Rightarrow> bool" where
  "is_valid_result r \<longleftrightarrow> r = 1 \<or> r = 2 \<or> r = 3"

abbreviation verification_success :: VerificationResult where "verification_success \<equiv> 1"
abbreviation verification_denied :: VerificationResult where "verification_denied \<equiv> 2"
abbreviation verification_error_result :: VerificationResult where "verification_error_result \<equiv> 3"

datatype VerifierMessage =
    StartVerification u32 string
  | SecretResponse bytes
  | CancelVerification
  | VerificationStatus VerificationStatusKind string
  | SecretRequired string
  | VerificationComplete VerificationResult

datatype MessageType = mt_start | mt_secret_response | mt_cancel | mt_status | mt_secret_required | mt_complete

primrec message_type_code :: "MessageType \<Rightarrow> u8" where
  "message_type_code mt_start = 1"
| "message_type_code mt_secret_response = 2"
| "message_type_code mt_cancel = 3"
| "message_type_code mt_status = 4"
| "message_type_code mt_secret_required = 5"
| "message_type_code mt_complete = 6"

section \<open>Validation\<close>

definition validate_session_id :: "bytes \<Rightarrow> unit result" where
  "validate_session_id session =
     (if session = [] then Inl (VerifierProtocolError ''session ID must not be empty'')
      else if length session > MAX_SESSION_ID_SIZE then
        Inl (VerifierProtocolError ''session ID exceeds the verifier protocol limit'')
      else if 0 \<in> set session then
        Inl (VerifierProtocolError ''session ID contains an embedded NUL'')
      else Inr ())"

definition validate_secret :: "bytes \<Rightarrow> unit result" where
  "validate_secret secret =
     (if length secret > MAX_VERIFICATION_SECRET_SIZE then
        Inl (VerifierProtocolError ''secret exceeds the verifier protocol limit'')
      else if 0 \<in> set secret then
        Inl (VerifierProtocolError ''secret contains an embedded NUL'')
      else Inr ())"

definition is_continuation_byte :: "u8 \<Rightarrow> bool" where
  "is_continuation_byte b \<longleftrightarrow> 0x80 \<le> b \<and> b \<le> 0xBF"

definition not_utf8 :: "string \<Rightarrow> unit result" where
  "not_utf8 field = Inl (VerifierProtocolError (field @ '' is not valid UTF-8''))"

definition control_character :: "string \<Rightarrow> unit result" where
  "control_character field = Inl (VerifierProtocolError (field @ '' contains a control character''))"

text \<open>The loop of \<open>validate_display_text\<close> over the bytes from the index on.\<close>

fun scan_display_text :: "string \<Rightarrow> bytes \<Rightarrow> unit result" where
  "scan_display_text field [] = Inr ()"
| "scan_display_text field (first # rest) =
     (if first \<le> 0x7F then
        if first < 0x20 \<or> first = 0x7F then control_character field
        else scan_display_text field rest
      else if 0xC2 \<le> first \<and> first \<le> 0xDF then
        (case rest of
           second # rest' \<Rightarrow>
             if \<not> is_continuation_byte second then not_utf8 field
             else if first = 0xC2 \<and> second \<le> 0x9F then control_character field
             else scan_display_text field rest'
         | _ \<Rightarrow> not_utf8 field)
      else if 0xE0 \<le> first \<and> first \<le> 0xEF then
        (case rest of
           second # third # rest' \<Rightarrow>
             let valid_second =
               (first = 0xE0 \<and> 0xA0 \<le> second \<and> second \<le> 0xBF) \<or>
               (0xE1 \<le> first \<and> first \<le> 0xEC \<and> is_continuation_byte second) \<or>
               (first = 0xED \<and> 0x80 \<le> second \<and> second \<le> 0x9F) \<or>
               (0xEE \<le> first \<and> first \<le> 0xEF \<and> is_continuation_byte second)
             in if \<not> valid_second \<or> \<not> is_continuation_byte third then not_utf8 field
                else scan_display_text field rest'
         | _ \<Rightarrow> not_utf8 field)
      else if 0xF0 \<le> first \<and> first \<le> 0xF4 then
        (case rest of
           second # third # fourth # rest' \<Rightarrow>
             let valid_second =
               (first = 0xF0 \<and> 0x90 \<le> second \<and> second \<le> 0xBF) \<or>
               (0xF1 \<le> first \<and> first \<le> 0xF3 \<and> is_continuation_byte second) \<or>
               (first = 0xF4 \<and> 0x80 \<le> second \<and> second \<le> 0x8F)
             in if \<not> valid_second \<or> \<not> is_continuation_byte third \<or> \<not> is_continuation_byte fourth
                then not_utf8 field
                else scan_display_text field rest'
         | _ \<Rightarrow> not_utf8 field)
      else not_utf8 field)"

declare scan_display_text.simps(2) [simp del]

definition validate_display_text :: "string \<Rightarrow> string \<Rightarrow> unit result" where
  "validate_display_text text field =
     (if length text > MAX_VERIFICATION_TEXT_SIZE then
        Inl (VerifierProtocolError (field @ '' exceeds the verifier protocol limit''))
      else scan_display_text field (map byte_of_char text))"

definition decode_display_text :: "bytes \<Rightarrow> string \<Rightarrow> string result" where
  "decode_display_text payload field =
     (if length payload > MAX_VERIFICATION_TEXT_SIZE then
        Inl (VerifierProtocolError (field @ '' exceeds the verifier protocol limit''))
      else let text = map char_of_byte payload in
        bind_result (validate_display_text text field) (\<lambda>_. Inr text))"

section \<open>Encoding\<close>

definition header :: "MessageType \<Rightarrow> bytes" where
  "header type = [VERIFIER_PROTOCOL_VERSION, message_type_code type]"

definition write_uint32_be :: "u32 \<Rightarrow> bytes" where
  "write_uint32_be v =
     [ucast (drop_bit 24 v), ucast (drop_bit 16 v), ucast (drop_bit 8 v), ucast v]"

definition read_uint32_be :: "bytes \<Rightarrow> u32" where
  "read_uint32_be source =
     push_bit 24 (ucast (source ! 0)) OR push_bit 16 (ucast (source ! 1)) OR
     push_bit 8 (ucast (source ! 2)) OR ucast (source ! 3)"

definition encode_start :: "u32 \<Rightarrow> string \<Rightarrow> bytes result" where
  "encode_start target_uid session_id =
     bind_result (validate_session_id (map byte_of_char session_id)) (\<lambda>_.
       Inr (header mt_start @ write_uint32_be target_uid @ map byte_of_char session_id))"

definition encode_secret :: "bytes \<Rightarrow> bytes result" where
  "encode_secret secret =
     bind_result (validate_secret secret) (\<lambda>_. Inr (header mt_secret_response @ secret))"

definition encode_empty :: "MessageType \<Rightarrow> bytes" where
  "encode_empty type = header type"

definition encode_byte :: "MessageType \<Rightarrow> u8 \<Rightarrow> bytes" where
  "encode_byte type b = header type @ [b]"

definition encode_status :: "VerificationStatusKind \<Rightarrow> string \<Rightarrow> bytes result" where
  "encode_status kind message =
     bind_result (validate_display_text message ''verification status message'') (\<lambda>_.
       Inr (header mt_status @ kind # map byte_of_char message))"

definition encode_secret_required :: "string \<Rightarrow> bytes result" where
  "encode_secret_required prompt =
     bind_result (validate_display_text prompt ''verification prompt'') (\<lambda>_.
       Inr (header mt_secret_required @ map byte_of_char prompt))"

primrec encode_verifier_message :: "VerifierMessage \<Rightarrow> bytes result" where
  "encode_verifier_message (StartVerification uid session) = encode_start uid session"
| "encode_verifier_message (SecretResponse secret) = encode_secret secret"
| "encode_verifier_message CancelVerification = Inr (encode_empty mt_cancel)"
| "encode_verifier_message (VerificationStatus kind message) =
     (if \<not> is_valid_kind kind then Inl (VerifierProtocolError ''invalid verification status kind'')
      else encode_status kind message)"
| "encode_verifier_message (SecretRequired prompt) = encode_secret_required prompt"
| "encode_verifier_message (VerificationComplete r) =
     (if \<not> is_valid_result r then Inl (VerifierProtocolError ''invalid verification result'')
      else Inr (encode_byte mt_complete r))"

section \<open>Decoding\<close>

definition decode_start :: "bytes \<Rightarrow> VerifierMessage result" where
  "decode_start payload =
     (if length payload \<le> 4 \<or> length payload > 4 + MAX_SESSION_ID_SIZE then
        Inl (VerifierProtocolError ''invalid start-verification packet length'')
      else let session = drop 4 payload in
        bind_result (validate_session_id session) (\<lambda>_.
          Inr (StartVerification (read_uint32_be (take 4 payload)) (map char_of_byte session))))"

definition decode_status :: "bytes \<Rightarrow> VerifierMessage result" where
  "decode_status payload =
     (case payload of
        [] \<Rightarrow> Inl (VerifierProtocolError ''invalid verification-status packet length'')
      | kind # text \<Rightarrow>
          if length payload > 1 + MAX_VERIFICATION_TEXT_SIZE then
            Inl (VerifierProtocolError ''invalid verification-status packet length'')
          else if \<not> is_valid_kind kind then
            Inl (VerifierProtocolError ''invalid verification status kind'')
          else bind_result (decode_display_text text ''verification status message'') (\<lambda>message.
            Inr (VerificationStatus kind message)))"

definition decode_complete :: "bytes \<Rightarrow> VerifierMessage result" where
  "decode_complete payload =
     (case payload of
        [r] \<Rightarrow>
          if \<not> is_valid_result r then Inl (VerifierProtocolError ''invalid verification result'')
          else Inr (VerificationComplete r)
      | _ \<Rightarrow> Inl (VerifierProtocolError ''invalid verification-result packet length''))"

definition decode_verifier_message :: "bytes \<Rightarrow> VerifierMessage result" where
  "decode_verifier_message packet =
     (if length packet < VERIFIER_PROTOCOL_HEADER_SIZE then
        Inl (VerifierProtocolError ''verifier packet header is truncated'')
      else if length packet > MAX_VERIFIER_PACKET_SIZE then
        Inl (VerifierProtocolError ''verifier packet exceeds the protocol limit'')
      else if packet ! 0 \<noteq> VERIFIER_PROTOCOL_VERSION then
        Inl (VerifierProtocolError ''unsupported verifier protocol version'')
      else
        let payload = drop VERIFIER_PROTOCOL_HEADER_SIZE packet; type = packet ! 1 in
        if type = message_type_code mt_start then decode_start payload
        else if type = message_type_code mt_secret_response then
          bind_result (validate_secret payload) (\<lambda>_. Inr (SecretResponse payload))
        else if type = message_type_code mt_cancel then
          if payload \<noteq> [] then Inl (VerifierProtocolError ''cancel packet contains a payload'')
          else Inr CancelVerification
        else if type = message_type_code mt_status then decode_status payload
        else if type = message_type_code mt_secret_required then
          bind_result (decode_display_text payload ''verification prompt'') (\<lambda>prompt.
            Inr (SecretRequired prompt))
        else if type = message_type_code mt_complete then decode_complete payload
        else Inl (VerifierProtocolError ''unknown verifier message type''))"

section \<open>The conversation\<close>

datatype VerifierMessageSender = from_daemon | from_pam_verifier

datatype VerifierConversationState =
    VerifierAwaitingStart
  | VerifierVerifying
  | VerifierAwaitingSecret
  | VerifierCompleted VerificationResult
  | VerifierCancelled

definition invalid_conversation :: "VerifierConversationState result" where
  "invalid_conversation = Inl (VerifierConversationError ''invalid verifier conversation transition'')"

definition validate_message_enums :: "VerifierMessage \<Rightarrow> unit result" where
  "validate_message_enums message =
     (case message of
        VerificationStatus kind _ \<Rightarrow>
          require (is_valid_kind kind) (VerifierConversationError ''invalid verifier conversation transition'')
      | VerificationComplete r \<Rightarrow>
          require (is_valid_result r) (VerifierConversationError ''invalid verifier conversation transition'')
      | _ \<Rightarrow> Inr ())"

definition advance_verifier_conversation ::
    "VerifierConversationState \<Rightarrow> VerifierMessageSender \<Rightarrow> VerifierMessage \<Rightarrow>
     VerifierConversationState result" where
  "advance_verifier_conversation current sender message =
     bind_result (validate_message_enums message) (\<lambda>_.
       case current of
         VerifierAwaitingStart \<Rightarrow>
           (case (sender, message) of
              (from_daemon, StartVerification _ _) \<Rightarrow> Inr VerifierVerifying
            | _ \<Rightarrow> invalid_conversation)
       | VerifierVerifying \<Rightarrow>
           (case (sender, message) of
              (from_daemon, CancelVerification) \<Rightarrow> Inr VerifierCancelled
            | (from_pam_verifier, VerificationStatus _ _) \<Rightarrow> Inr VerifierVerifying
            | (from_pam_verifier, SecretRequired _) \<Rightarrow> Inr VerifierAwaitingSecret
            | (from_pam_verifier, VerificationComplete r) \<Rightarrow> Inr (VerifierCompleted r)
            | _ \<Rightarrow> invalid_conversation)
       | VerifierAwaitingSecret \<Rightarrow>
           (case (sender, message) of
              (from_daemon, SecretResponse _) \<Rightarrow> Inr VerifierVerifying
            | (from_daemon, CancelVerification) \<Rightarrow> Inr VerifierCancelled
            | (from_pam_verifier, VerificationComplete r) \<Rightarrow>
                if r = verification_error_result then Inr (VerifierCompleted r) else invalid_conversation
            | _ \<Rightarrow> invalid_conversation)
       | _ \<Rightarrow> invalid_conversation)"

definition verifier_conversation_is_terminal :: "VerifierConversationState \<Rightarrow> bool" where
  "verifier_conversation_is_terminal state \<longleftrightarrow>
     (case state of VerifierCompleted _ \<Rightarrow> True | VerifierCancelled \<Rightarrow> True | _ \<Rightarrow> False)"

text \<open>A whole conversation: the messages of both sides in order.\<close>

fun run_conversation ::
    "VerifierConversationState \<Rightarrow> (VerifierMessageSender \<times> VerifierMessage) list \<Rightarrow>
     VerifierConversationState result" where
  "run_conversation state [] = Inr state"
| "run_conversation state ((sender, message) # rest) =
     bind_result (advance_verifier_conversation state sender message) (\<lambda>state'.
       run_conversation state' rest)"

text \<open>Conversations in which every prompt is answered before anything else is said.\<close>

fun all_answered :: "(VerifierMessageSender \<times> VerifierMessage) list \<Rightarrow> bool" where
  "all_answered [] = True"
| "all_answered ((from_pam_verifier, VerificationStatus _ _) # rest) = all_answered rest"
| "all_answered ((from_pam_verifier, SecretRequired _) # (from_daemon, SecretResponse _) # rest) = all_answered rest"
| "all_answered _ = False"

section \<open>Lemmas\<close>

lemma write_uint32_be_eq: "write_uint32_be v = be32 v"
  by (simp add: write_uint32_be_def be32_def and_255_eq_take_bit)
    (intro conjI bit_word_eqI; auto simp: bit_simps)

lemma read_write_uint32 [simp]: "read_uint32_be (write_uint32_be v) = v"
  using of_be32_be32 [of v] by (simp add: write_uint32_be_eq read_uint32_be_def of_be32_def)

lemma length_write_uint32 [simp]: "length (write_uint32_be v) = 4"
  by (simp add: write_uint32_be_def)

lemma write_read_uint32 [simp]:
  assumes "length bs = 4"
  shows "write_uint32_be (read_uint32_be bs) = bs"
proof -
  from assms obtain a b c d where "bs = [a, b, c, d]"
    by (auto simp: numeral_eq_Suc length_Suc_conv)
  then show ?thesis
    using be32_of_be32 [of a b c d] by (simp add: write_uint32_be_eq read_uint32_be_def of_be32_def)
qed

lemma validate_session_id_iff:
  "validate_session_id s = Inr u \<longleftrightarrow> s \<noteq> [] \<and> length s \<le> 255 \<and> 0 \<notin> set s"
  by (auto simp: validate_session_id_def verifier_limits)

lemma validate_secret_iff: "validate_secret s = Inr u \<longleftrightarrow> length s \<le> 1024 \<and> 0 \<notin> set s"
  by (auto simp: validate_secret_def verifier_limits)

lemma validate_display_text_length: "validate_display_text text field = Inr u \<Longrightarrow> length text \<le> 512"
  by (auto simp: validate_display_text_def verifier_limits split: if_splits)

lemma decode_display_text_map [simp]:
  "decode_display_text (map byte_of_char text) field = bind_result (validate_display_text text field) (\<lambda>_. Inr text)"
  by (simp add: decode_display_text_def validate_display_text_def o_def)

lemma decode_display_text_Inr:
  "decode_display_text payload field = Inr text \<longleftrightarrow>
     payload = map byte_of_char text \<and> validate_display_text text field = Inr ()"
  by (auto simp: decode_display_text_def validate_display_text_def bind_result_eq_Inr Let_def o_def
      split: if_splits)

lemma decode_start_encode:
  assumes "encode_start uid session = Inr p"
  shows "\<exists>payload. p = header mt_start @ payload \<and> length payload \<le> 259 \<and>
    decode_start payload = Inr (StartVerification uid session)"
proof -
  from assms have ok: "validate_session_id (map byte_of_char session) = Inr ()"
    and p: "p = header mt_start @ write_uint32_be uid @ map byte_of_char session"
    by (auto simp: encode_start_def bind_result_eq_Inr)
  let ?payload = "write_uint32_be uid @ map byte_of_char session"
  from ok have "session \<noteq> []" "length session \<le> 255" by (simp_all add: validate_session_id_iff)
  with ok have "decode_start ?payload = Inr (StartVerification uid session)" "length ?payload \<le> 259"
    by (simp_all add: decode_start_def verifier_limits Let_def o_def)
  with p show ?thesis by blast
qed

lemma encode_decode_start:
  assumes "decode_start payload = Inr m"
  shows "encode_verifier_message m = Inr (header mt_start @ payload)"
proof -
  from assms obtain u where len: "4 < length payload" "length payload \<le> 259"
    and ok: "validate_session_id (drop 4 payload) = Inr u"
    and m: "m = StartVerification (read_uint32_be (take 4 payload)) (map char_of_byte (drop 4 payload))"
    by (auto simp: decode_start_def bind_result_eq_Inr Let_def verifier_limits split: if_splits)
  from len have "length (take 4 payload) = 4" by simp
  with ok m show ?thesis by (simp add: encode_start_def o_def)
qed

lemma header_facts [simp]:
  "header t ! 0 = VERIFIER_PROTOCOL_VERSION" "header t ! Suc 0 = message_type_code t" "length (header t) = 2"
  by (simp_all add: header_def)

lemma decode_header:
  assumes "length payload \<le> 1024"
  shows "decode_verifier_message (header t @ payload) =
    (case t of
       mt_start \<Rightarrow> decode_start payload
     | mt_secret_response \<Rightarrow> bind_result (validate_secret payload) (\<lambda>_. Inr (SecretResponse payload))
     | mt_cancel \<Rightarrow> if payload \<noteq> [] then Inl (VerifierProtocolError ''cancel packet contains a payload'')
         else Inr CancelVerification
     | mt_status \<Rightarrow> decode_status payload
     | mt_secret_required \<Rightarrow>
         bind_result (decode_display_text payload ''verification prompt'') (\<lambda>prompt. Inr (SecretRequired prompt))
     | mt_complete \<Rightarrow> decode_complete payload)"
  using assms
  by (cases t) (simp_all add: decode_verifier_message_def header_def verifier_limits Let_def)

lemma decode_payload:
  assumes "decode_verifier_message packet = Inr m"
  obtains t payload where "packet = header t @ payload" "length payload \<le> 1024"
proof -
  from assms have len: "2 \<le> length packet" "length packet \<le> 1026" and v: "packet ! 0 = 1"
    and t: "packet ! 1 \<in> {1, 2, 3, 4, 5, 6}"
    by (auto simp: decode_verifier_message_def verifier_limits Let_def split: if_splits)
  then obtain a b payload where p: "packet = a # b # payload"
    by (cases packet; cases "tl packet") auto
  from t p obtain ty where "message_type_code ty = b"
    by (auto intro: that message_type_code.simps)
  with that [of ty payload] p len v show thesis by (simp add: header_def verifier_limits)
qed

lemma encode_text_length:
  "validate_display_text text field = Inr u \<Longrightarrow> length text \<le> 512"
  by (auto simp: validate_display_text_def verifier_limits split: if_splits)

lemma encode_decode_header:
  assumes "encode_verifier_message m = Inr p"
  shows "length p \<le> 1026 \<and> decode_verifier_message p = Inr m"
proof (cases m)
  case (StartVerification uid session)
  with assms decode_start_encode [of uid session p] obtain payload where "p = header mt_start @ payload"
    "length payload \<le> 259" "decode_start payload = Inr m" by auto
  then show ?thesis by (simp add: decode_header)
next
  case (SecretResponse secret)
  with assms have "p = header mt_secret_response @ secret" "validate_secret secret = Inr ()"
    by (auto simp: encode_secret_def bind_result_eq_Inr)
  moreover from this have "length secret \<le> 1024" by (simp add: validate_secret_iff)
  ultimately show ?thesis using SecretResponse by (simp add: decode_header)
next
  case CancelVerification
  with assms have "p = header mt_cancel" by (simp add: encode_empty_def)
  with CancelVerification decode_header [of "[]" mt_cancel] show ?thesis by simp
next
  case (VerificationStatus kind message)
  with assms have p: "p = header mt_status @ kind # map byte_of_char message" "is_valid_kind kind"
    and ok: "validate_display_text message ''verification status message'' = Inr ()"
    by (auto simp: encode_status_def bind_result_eq_Inr split: if_splits)
  with VerificationStatus validate_display_text_length [OF ok] show ?thesis
    by (simp add: decode_header decode_status_def verifier_limits)
next
  case (SecretRequired prompt)
  with assms have p: "p = header mt_secret_required @ map byte_of_char prompt"
    and ok: "validate_display_text prompt ''verification prompt'' = Inr ()"
    by (auto simp: encode_secret_required_def bind_result_eq_Inr)
  with SecretRequired validate_display_text_length [OF ok] show ?thesis
    by (simp add: decode_header)
next
  case (VerificationComplete r)
  with assms have "p = header mt_complete @ [r]" "is_valid_result r"
    by (simp_all add: encode_byte_def split: if_splits)
  with VerificationComplete show ?thesis by (simp add: decode_header decode_complete_def)
qed

lemma decode_encode_header:
  assumes "decode_verifier_message p = Inr m"
  shows "encode_verifier_message m = Inr p"
proof -
  from assms obtain t payload where p: "p = header t @ payload" and len: "length payload \<le> 1024"
    by (rule decode_payload)
  note step = assms [unfolded p decode_header [OF len]]
  show ?thesis
  proof (cases t)
    case mt_start
    with step encode_decode_start p show ?thesis by simp
  next
    case mt_secret_response
    with step p show ?thesis by (auto simp: bind_result_eq_Inr encode_secret_def)
  next
    case mt_cancel
    with step p show ?thesis by (auto simp: encode_empty_def split: if_splits)
  next
    case mt_status
    with step p show ?thesis
      by (auto simp: decode_status_def bind_result_eq_Inr decode_display_text_Inr encode_status_def
          split: list.splits if_splits)
  next
    case mt_secret_required
    with step p show ?thesis
      by (auto simp: bind_result_eq_Inr decode_display_text_Inr encode_secret_required_def)
  next
    case mt_complete
    with step p show ?thesis
      by (auto simp: decode_complete_def encode_byte_def split: list.splits if_splits)
  qed
qed

section \<open>Display text\<close>

text \<open>The UTF-8 encoding of a code point, and the code points that may be shown.\<close>

definition utf8_encode :: "nat \<Rightarrow> bytes" where
  "utf8_encode n = map word_of_nat
     (if n < 0x80 then [n]
      else if n < 0x800 then [0xC0 + n div 64, 0x80 + n mod 64]
      else if n < 0x10000 then [0xE0 + n div 4096, 0x80 + n div 64 mod 64, 0x80 + n mod 64]
      else [0xF0 + n div 262144, 0x80 + n div 4096 mod 64, 0x80 + n div 64 mod 64, 0x80 + n mod 64])"

definition displayable :: "nat \<Rightarrow> bool" where
  "displayable n \<longleftrightarrow> n < 0x110000 \<and> \<not> (0xD800 \<le> n \<and> n \<le> 0xDFFF) \<and> \<not> n < 0x20 \<and> \<not> (0x7F \<le> n \<and> n \<le> 0x9F)"

lemma unat_byte: "k < 256 \<Longrightarrow> unat (word_of_nat k :: u8) = k"
  by (simp add: unat_of_nat)

lemma byte_eqI: "unat (b :: u8) = k \<Longrightarrow> word_of_nat k = b"
  by auto

lemmas byte_order = word_le_nat_alt word_less_nat_alt

lemma byte_eq_iff: "(b :: u8) = c \<longleftrightarrow> unat b = unat c"
  by (auto simp: unsigned_word_eqI)

lemma scan_one:
  assumes "0x20 \<le> unat b" "unat b < 0x7F"
  shows "scan_display_text field (b # rest) = scan_display_text field rest"
  using assms by (simp add: scan_display_text.simps(2) byte_order byte_eq_iff)

lemma scan_two:
  assumes "0xC2 \<le> unat b" "unat b \<le> 0xDF" "0x80 \<le> unat c" "unat c \<le> 0xBF" "unat b = 0xC2 \<Longrightarrow> 0xA0 \<le> unat c"
  shows "scan_display_text field (b # c # rest) = scan_display_text field rest"
  using assms by (auto simp add: scan_display_text.simps(2) [of _ b] byte_order byte_eq_iff is_continuation_byte_def)

lemma scan_three:
  assumes "0xE0 \<le> unat b" "unat b \<le> 0xEF" "0x80 \<le> unat c" "unat c \<le> 0xBF" "0x80 \<le> unat d" "unat d \<le> 0xBF"
    "unat b = 0xE0 \<Longrightarrow> 0xA0 \<le> unat c" "unat b = 0xED \<Longrightarrow> unat c \<le> 0x9F"
  shows "scan_display_text field (b # c # d # rest) = scan_display_text field rest"
  using assms by (auto simp add: scan_display_text.simps(2) [of _ b] byte_order byte_eq_iff is_continuation_byte_def Let_def)

lemma scan_four:
  assumes "0xF0 \<le> unat b" "unat b \<le> 0xF4" "0x80 \<le> unat c" "unat c \<le> 0xBF" "0x80 \<le> unat d" "unat d \<le> 0xBF"
    "0x80 \<le> unat e" "unat e \<le> 0xBF" "unat b = 0xF0 \<Longrightarrow> 0x90 \<le> unat c" "unat b = 0xF4 \<Longrightarrow> unat c \<le> 0x8F"
  shows "scan_display_text field (b # c # d # e # rest) = scan_display_text field rest"
  using assms by (auto simp add: scan_display_text.simps(2) [of _ b] byte_order byte_eq_iff is_continuation_byte_def Let_def)

lemma scan_cases:
  assumes "scan_display_text field (b # bs) = Inr u"
  obtains (one) "0x20 \<le> unat b" "unat b < 0x7F" "scan_display_text field bs = Inr u"
  | (two) c rest where "bs = c # rest" "0xC2 \<le> unat b" "unat b \<le> 0xDF" "0x80 \<le> unat c" "unat c \<le> 0xBF"
      "unat b = 0xC2 \<longrightarrow> 0xA0 \<le> unat c" "scan_display_text field rest = Inr u"
  | (three) c d rest where "bs = c # d # rest" "0xE0 \<le> unat b" "unat b \<le> 0xEF" "0x80 \<le> unat c" "unat c \<le> 0xBF"
      "0x80 \<le> unat d" "unat d \<le> 0xBF" "unat b = 0xE0 \<longrightarrow> 0xA0 \<le> unat c" "unat b = 0xED \<longrightarrow> unat c \<le> 0x9F"
      "scan_display_text field rest = Inr u"
  | (four) c d e rest where "bs = c # d # e # rest" "0xF0 \<le> unat b" "unat b \<le> 0xF4" "0x80 \<le> unat c" "unat c \<le> 0xBF"
      "0x80 \<le> unat d" "unat d \<le> 0xBF" "0x80 \<le> unat e" "unat e \<le> 0xBF" "unat b = 0xF0 \<longrightarrow> 0x90 \<le> unat c"
      "unat b = 0xF4 \<longrightarrow> unat c \<le> 0x8F" "scan_display_text field rest = Inr u"
proof -
  note step = assms [unfolded scan_display_text.simps(2) control_character_def not_utf8_def]
  consider "unat b \<le> 0x7F" | "0xC2 \<le> unat b" "unat b \<le> 0xDF" | "0xE0 \<le> unat b" "unat b \<le> 0xEF"
    | "0xF0 \<le> unat b" "unat b \<le> 0xF4" | "0x7F < unat b \<and> unat b < 0xC2 \<or> 0xF4 < unat b" by linarith
  then show thesis
  proof cases
    case 1
    with step show thesis by (intro one) (auto simp: byte_order byte_eq_iff split: if_splits)
  next
    case 2
    with step obtain c rest where "bs = c # rest" by (auto simp: byte_order split: list.splits)
    with 2 step show thesis
      by (intro two [of c rest]) (auto simp: byte_order byte_eq_iff is_continuation_byte_def split: if_splits)
  next
    case 3
    with step obtain c d rest where "bs = c # d # rest" by (auto simp: byte_order split: list.splits)
    with 3 step show thesis
      by (intro three [of c d rest])
        (auto simp: byte_order byte_eq_iff is_continuation_byte_def Let_def split: if_splits)
  next
    case 4
    with step obtain c d e rest where "bs = c # d # e # rest" by (auto simp: byte_order split: list.splits)
    with 4 step show thesis
      by (intro four [of c d e rest])
        (auto simp: byte_order byte_eq_iff is_continuation_byte_def Let_def split: if_splits)
  next
    case 5
    with step show thesis by (auto simp: byte_order split: if_splits)
  qed
qed

lemma div_steps: "n div 4096 = n div 64 div (64 :: nat)" "n div 262144 = n div 4096 div (64 :: nat)"
  by (simp_all add: div_mult2_eq [symmetric])

lemma join_digit: "s < (64 :: nat) \<Longrightarrow> (a * 64 + s) div 64 = a" "s < (64 :: nat) \<Longrightarrow> (a * 64 + s) mod 64 = s"
  by simp_all

lemma join_digits:
  fixes q r s :: nat
  assumes "r < 64" "s < 64"
  shows "(q * 4096 + r * 64 + s) div 4096 = q" "(q * 4096 + r * 64 + s) div 64 mod 64 = r"
    "(q * 4096 + r * 64 + s) mod 64 = s"
proof -
  have e: "q * 4096 + r * 64 + s = (q * 64 + r) * 64 + s" by simp
  show "(q * 4096 + r * 64 + s) div 4096 = q" "(q * 4096 + r * 64 + s) div 64 mod 64 = r"
    "(q * 4096 + r * 64 + s) mod 64 = s"
    unfolding div_steps e using assms by (simp_all only: join_digit)
qed

lemma join_digits4:
  fixes q r s t :: nat
  assumes "r < 64" "s < 64" "t < 64"
  shows "(q * 262144 + r * 4096 + s * 64 + t) div 262144 = q"
    "(q * 262144 + r * 4096 + s * 64 + t) div 4096 mod 64 = r"
    "(q * 262144 + r * 4096 + s * 64 + t) div 64 mod 64 = s"
    "(q * 262144 + r * 4096 + s * 64 + t) mod 64 = t"
proof -
  have e: "q * 262144 + r * 4096 + s * 64 + t = (q * 64 + r) * 4096 + s * 64 + t" by simp
  show "(q * 262144 + r * 4096 + s * 64 + t) div 262144 = q"
    "(q * 262144 + r * 4096 + s * 64 + t) div 4096 mod 64 = r"
    "(q * 262144 + r * 4096 + s * 64 + t) div 64 mod 64 = s"
    "(q * 262144 + r * 4096 + s * 64 + t) mod 64 = t"
    unfolding div_steps(2) e using assms by (simp_all only: join_digits join_digit)
qed

lemma digits: "n = n div 4096 * 4096 + n div 64 mod 64 * 64 + n mod (64 :: nat)"
  unfolding div_steps(1) using div_mult_mod_eq [of n 64] div_mult_mod_eq [of "n div 64" 64] by linarith

lemma digits4: "n = n div 262144 * 262144 + n div 4096 mod 64 * 4096 + n div 64 mod 64 * 64 + n mod (64 :: nat)"
  unfolding div_steps(2) using digits [of n] div_mult_mod_eq [of "n div 4096" 64] by linarith

lemma scan_utf8_encode:
  assumes "displayable n"
  shows "scan_display_text field (utf8_encode n @ rest) = scan_display_text field rest"
proof -
  consider "n < 0x80" | "0x80 \<le> n" "n < 0x800" | "0x800 \<le> n" "n < 0x10000" | "0x10000 \<le> n" by linarith
  then show ?thesis
  proof cases
    case 1
    then have e: "utf8_encode n = [word_of_nat n]" by (simp add: utf8_encode_def)
    show ?thesis unfolding e append.simps
      by (rule scan_one) (use 1 assms in \<open>simp_all add: unat_byte displayable_def\<close>)
  next
    case 2
    define q r where "q = n div 64" and "r = n mod 64"
    have n: "n = q * 64 + r" "r < 64" by (simp_all add: q_def r_def)
    with 2 have q: "2 \<le> q" "q < 32" by linarith+
    have r2: "q = 2 \<Longrightarrow> 32 \<le> r" using assms n by (auto simp: displayable_def)
    have e: "utf8_encode n = [word_of_nat (0xC0 + q), word_of_nat (0x80 + r)]"
      using 2 by (simp add: utf8_encode_def q_def r_def)
    have u: "unat (word_of_nat (0xC0 + q) :: u8) = 0xC0 + q" "unat (word_of_nat (0x80 + r) :: u8) = 0x80 + r"
      using q n by (intro unat_byte; linarith)+
    show ?thesis unfolding e append.simps by (rule scan_two; unfold u; use q n r2 in linarith)
  next
    case 3
    define q r s where "q = n div 4096" and "r = n div 64 mod 64" and "s = n mod 64"
    have n: "n = q * 4096 + r * 64 + s" "r < 64" "s < 64"
      using digits [of n] by (simp_all add: q_def r_def s_def)
    with 3 have q: "q < 16" by linarith
    have rr: "q = 0 \<Longrightarrow> 32 \<le> r" "q = 13 \<Longrightarrow> r < 32" using assms 3 n by (auto simp: displayable_def)
    have e: "utf8_encode n = [word_of_nat (0xE0 + q), word_of_nat (0x80 + r), word_of_nat (0x80 + s)]"
      using 3 by (simp add: utf8_encode_def q_def r_def s_def)
    have u: "unat (word_of_nat (0xE0 + q) :: u8) = 0xE0 + q" "unat (word_of_nat (0x80 + r) :: u8) = 0x80 + r"
      "unat (word_of_nat (0x80 + s) :: u8) = 0x80 + s"
      using q n by (intro unat_byte; linarith)+
    show ?thesis unfolding e append.simps by (rule scan_three; unfold u; use q n rr in linarith)
  next
    case 4
    define q r s t where "q = n div 262144" and "r = n div 4096 mod 64" and "s = n div 64 mod 64" and "t = n mod 64"
    have n: "n = q * 262144 + r * 4096 + s * 64 + t" "r < 64" "s < 64" "t < 64"
      using digits4 [of n] by (simp_all add: q_def r_def s_def t_def)
    have lim: "n < 0x110000" using assms by (simp add: displayable_def)
    with n have q: "q < 5" by linarith
    have rr: "q = 0 \<Longrightarrow> 16 \<le> r" "q = 4 \<Longrightarrow> r < 16" using lim 4 n by auto
    have e: "utf8_encode n = [word_of_nat (0xF0 + q), word_of_nat (0x80 + r), word_of_nat (0x80 + s), word_of_nat (0x80 + t)]"
      using 4 by (simp add: utf8_encode_def q_def r_def s_def t_def)
    have u: "unat (word_of_nat (0xF0 + q) :: u8) = 0xF0 + q" "unat (word_of_nat (0x80 + r) :: u8) = 0x80 + r"
      "unat (word_of_nat (0x80 + s) :: u8) = 0x80 + s" "unat (word_of_nat (0x80 + t) :: u8) = 0x80 + t"
      using q n by (intro unat_byte; linarith)+
    show ?thesis unfolding e append.simps by (rule scan_four; unfold u; use q n rr in linarith)
  qed
qed

lemma scan_step:
  assumes "scan_display_text field (b # bs) = Inr u"
  obtains n rest where "displayable n" "b # bs = utf8_encode n @ rest" "scan_display_text field rest = Inr u"
  using assms
proof (cases rule: scan_cases)
  case one
  then have "displayable (unat b)" "b # bs = utf8_encode (unat b) @ bs" by (auto simp: displayable_def utf8_encode_def)
  with one that show ?thesis by blast
next
  case (two c rest)
  obtain q r where u: "unat b = 0xC0 + q" "unat c = 0x80 + r"
    using two le_Suc_ex [of "0xC0" "unat b"] le_Suc_ex [of "0x80" "unat c"] by auto
  have lim: "q < 32" "2 \<le> q" "r < 64" "q = 2 \<Longrightarrow> 32 \<le> r" using two u by auto
  define n where "n = q * 64 + r"
  have d: "n div 64 = q" "n mod 64 = r" unfolding n_def using lim by (simp_all only: join_digit)
  have range: "0x80 \<le> n" "n < 0x800" using lim by (simp_all add: n_def)
  have "displayable n" using lim range by (auto simp: displayable_def n_def)
  moreover have "utf8_encode n = [b, c]"
    using range by (simp only: utf8_encode_def d) (simp add: byte_eqI u [symmetric])
  ultimately show ?thesis using that [of n rest] two by simp
next
  case (three c d rest)
  obtain q r s where u: "unat b = 0xE0 + q" "unat c = 0x80 + r" "unat d = 0x80 + s"
    using three le_Suc_ex [of "0xE0" "unat b"] le_Suc_ex [of "0x80" "unat c"] le_Suc_ex [of "0x80" "unat d"] by auto
  have lim: "q < 16" "r < 64" "s < 64" "q = 0 \<Longrightarrow> 32 \<le> r" "q = 13 \<Longrightarrow> r < 32" using three u by auto
  define n where "n = q * 4096 + r * 64 + s"
  have d: "n div 4096 = q" "n div 64 mod 64 = r" "n mod 64 = s" unfolding n_def using lim by (simp_all only: join_digits)
  have range: "0x800 \<le> n" "n < 0x10000" unfolding n_def using lim by (cases "q = 0"; simp)+
  have "\<not> (0xD800 \<le> n \<and> n \<le> 0xDFFF)" unfolding n_def using lim by (cases "q = 13") auto
  then have "displayable n" using range by (simp add: displayable_def)
  moreover have "utf8_encode n = [b, c, d]"
    using range by (simp only: utf8_encode_def d) (simp add: byte_eqI u [symmetric])
  ultimately show ?thesis using that [of n rest] three by simp
next
  case (four c d e rest)
  obtain q r s t where u: "unat b = 0xF0 + q" "unat c = 0x80 + r" "unat d = 0x80 + s" "unat e = 0x80 + t"
    using four le_Suc_ex [of "0xF0" "unat b"] le_Suc_ex [of "0x80" "unat c"] le_Suc_ex [of "0x80" "unat d"]
      le_Suc_ex [of "0x80" "unat e"] by auto
  have lim: "q < 5" "r < 64" "s < 64" "t < 64" "q = 0 \<Longrightarrow> 16 \<le> r" "q = 4 \<Longrightarrow> r < 16" using four u by auto
  define n where "n = q * 262144 + r * 4096 + s * 64 + t"
  have d: "n div 262144 = q" "n div 4096 mod 64 = r" "n div 64 mod 64 = s" "n mod 64 = t"
    unfolding n_def using lim by (simp_all only: join_digits4)
  have range: "0x10000 \<le> n" "n < 0x110000" unfolding n_def using lim by (cases "q = 0"; cases "q = 4"; simp)+
  have "displayable n" using range by (auto simp: displayable_def)
  moreover have "utf8_encode n = [b, c, d, e]"
    using range by (simp only: utf8_encode_def d) (simp add: byte_eqI u [symmetric])
  ultimately show ?thesis using that [of n rest] four by simp
qed

lemma scan_display_text_iff:
  "scan_display_text field bs = Inr () \<longleftrightarrow> (\<exists>points. bs = concat (map utf8_encode points) \<and> list_all displayable points)"
proof
  assume "scan_display_text field bs = Inr ()"
  then show "\<exists>points. bs = concat (map utf8_encode points) \<and> list_all displayable points"
  proof (induction bs rule: length_induct)
    case (1 bs)
    show ?case
    proof (cases bs)
      case Nil
      then show ?thesis by (intro exI [of _ "[]"]) simp
    next
      case (Cons b bs')
      with 1 obtain n rest where n: "displayable n" "bs = utf8_encode n @ rest" "scan_display_text field rest = Inr ()"
        by (metis scan_step)
      have "utf8_encode n \<noteq> []" by (simp add: utf8_encode_def)
      then have "length rest < length bs" using n by simp
      with n(3) 1(1) obtain points where "rest = concat (map utf8_encode points)" "list_all displayable points"
        by blast
      with n show ?thesis by (intro exI [of _ "n # points"]) simp
    qed
  qed
next
  assume "\<exists>points. bs = concat (map utf8_encode points) \<and> list_all displayable points"
  then obtain points where "bs = concat (map utf8_encode points)" "list_all displayable points" by blast
  then show "scan_display_text field bs = Inr ()"
    by (induction points arbitrary: bs) (simp_all add: scan_utf8_encode)
qed

section \<open>Conversation lemmas\<close>

lemma advance_verifying:
  assumes "advance_verifier_conversation VerifierVerifying sender message = Inr state"
  obtains (status) kind msg where "sender = from_pam_verifier" "message = VerificationStatus kind msg"
      "state = VerifierVerifying"
  | (prompt) msg where "sender = from_pam_verifier" "message = SecretRequired msg" "state = VerifierAwaitingSecret"
  | (complete) r where "sender = from_pam_verifier" "message = VerificationComplete r" "state = VerifierCompleted r"
  | (cancel) "sender = from_daemon" "message = CancelVerification" "state = VerifierCancelled"
  using assms
  by (cases sender; cases message)
    (auto simp: advance_verifier_conversation_def invalid_conversation_def bind_result_eq_Inr)

lemma advance_awaiting_secret:
  assumes "advance_verifier_conversation VerifierAwaitingSecret sender message = Inr state"
  obtains (response) secret where "sender = from_daemon" "message = SecretResponse secret" "state = VerifierVerifying"
  | (error) "sender = from_pam_verifier" "message = VerificationComplete verification_error_result"
      "state = VerifierCompleted verification_error_result"
  | (cancel) "sender = from_daemon" "message = CancelVerification" "state = VerifierCancelled"
  using assms
  by (cases sender; cases message)
    (auto simp: advance_verifier_conversation_def invalid_conversation_def bind_result_eq_Inr split: if_splits)

lemma advance_awaiting_start:
  assumes "advance_verifier_conversation VerifierAwaitingStart sender message = Inr state"
  obtains uid session where "sender = from_daemon" "message = StartVerification uid session" "state = VerifierVerifying"
  using assms
  by (cases sender; cases message)
    (auto simp: advance_verifier_conversation_def invalid_conversation_def bind_result_eq_Inr)

lemma advance_terminal:
  assumes "verifier_conversation_is_terminal state"
  shows "\<not> is_ok (advance_verifier_conversation state sender message)"
proof -
  have "advance_verifier_conversation state sender message \<noteq> Inr state'" for state'
    using assms
    by (auto simp: advance_verifier_conversation_def verifier_conversation_is_terminal_def
        invalid_conversation_def bind_result_eq_Inr split: VerifierConversationState.splits)
  then show ?thesis by (cases "advance_verifier_conversation state sender message") auto
qed

lemma run_terminal:
  assumes "verifier_conversation_is_terminal state" "run_conversation state es = Inr state'"
  shows "es = [] \<and> state' = state"
proof (cases es)
  case (Cons e rest)
  with assms advance_terminal [OF assms(1), of "fst e" "snd e"] show ?thesis
    by (cases e; cases "advance_verifier_conversation state (fst e) (snd e)") simp_all
qed (use assms in simp)

lemma terminal_simps [simp]:
  "verifier_conversation_is_terminal (VerifierCompleted r)" "verifier_conversation_is_terminal VerifierCancelled"
  by (simp_all add: verifier_conversation_is_terminal_def)

lemma run_to_completion:
  assumes "run_conversation VerifierVerifying es = Inr (VerifierCompleted r)" "r \<noteq> verification_error_result"
  shows "\<exists>mid. es = mid @ [(from_pam_verifier, VerificationComplete r)] \<and> all_answered mid"
  using assms
proof (induction es rule: length_induct)
  case (1 es)
  then obtain sender message rest where es: "es = (sender, message) # rest" by (cases es) auto
  with 1 obtain state where
    step: "advance_verifier_conversation VerifierVerifying sender message = Inr state"
    and run: "run_conversation state rest = Inr (VerifierCompleted r)"
    by (auto simp: bind_result_eq_Inr)
  from step show ?case
  proof (cases rule: advance_verifying)
    case (status kind msg)
    with 1 es run obtain mid where "rest = mid @ [(from_pam_verifier, VerificationComplete r)]" "all_answered mid"
      by auto
    with es status show ?thesis by (intro exI [of _ "(sender, message) # mid"]) simp
  next
    case (prompt msg)
    with run obtain sender' message' rest' where rest: "rest = (sender', message') # rest'" by (cases rest) auto
    with prompt run obtain state' where
      step': "advance_verifier_conversation VerifierAwaitingSecret sender' message' = Inr state'"
      and run': "run_conversation state' rest' = Inr (VerifierCompleted r)"
      by (auto simp: bind_result_eq_Inr)
    from step' show ?thesis
    proof (cases rule: advance_awaiting_secret)
      case (response secret)
      have "length rest' < length es" using es rest by simp
      with 1 response run' obtain mid where "rest' = mid @ [(from_pam_verifier, VerificationComplete r)]" "all_answered mid"
        by blast
      with es rest prompt response show ?thesis
        by (intro exI [of _ "(sender, message) # (sender', message') # mid"]) simp
    next
      case error
      with run' run_terminal [of state'] 1 show ?thesis by auto
    next
      case cancel
      with run' run_terminal [of state'] show ?thesis by auto
    qed
  next
    case (complete r')
    with run run_terminal [of state] es show ?thesis by (intro exI [of _ "[]"]) auto
  next
    case cancel
    with run run_terminal [of state] show ?thesis by auto
  qed
qed

section \<open>Properties\<close>

text \<open>
  C13.  The verifier packets are a faithful encoding: a message that can be encoded fits in one packet
  and decodes to itself, and a packet that decodes is exactly the encoding of the message it yields,
  so no two packets mean the same message and no packet is accepted with ignored content.
\<close>

theorem verifier_packet_roundtrip:
  "(encode_verifier_message m = Inr p \<longleftrightarrow> decode_verifier_message p = Inr m) \<and>
   (encode_verifier_message m = Inr p \<longrightarrow> length p \<le> MAX_VERIFIER_PACKET_SIZE)"
  using encode_decode_header [of m p] decode_encode_header [of p m] by (auto simp: verifier_limits)

theorem verifier_packet_roundtrip_witness:
  "decode_verifier_message [1, 1, 0, 0, 3, 0xE8, 0x63, 0x32] = Inr (StartVerification 1000 ''c2'')"
proof -
  have "encode_verifier_message (StartVerification 1000 ''c2'') = Inr [1, 1, 0, 0, 3, 0xE8, 0x63, 0x32]"
    by (simp add: encode_start_def validate_session_id_def verifier_limits header_def write_uint32_be_def
        byte_of_char_def)
  with verifier_packet_roundtrip show ?thesis by blast
qed

text \<open>
  C14.  The display-text validator accepts exactly the strings of at most 512 bytes that are the UTF-8
  encoding of a sequence of Unicode scalar values none of which is a control character.
\<close>

theorem validate_display_text_exact:
  "validate_display_text text field = Inr () \<longleftrightarrow>
     length text \<le> MAX_VERIFICATION_TEXT_SIZE \<and>
     (\<exists>points. map byte_of_char text = concat (map utf8_encode points) \<and> list_all displayable points)"
  by (auto simp: validate_display_text_def scan_display_text_iff)

text \<open>
  C15.  A conversation that ends with a positive result was started by the daemon, was ended by the
  verifier, and in between every prompt of the verifier was answered by the daemon before anything
  else was said; the same holds for a negative one.  Nothing is accepted after the end.
\<close>

theorem conversation_decision_authentic:
  assumes "run_conversation VerifierAwaitingStart es = Inr (VerifierCompleted r)"
    and "r = verification_success \<or> r = verification_denied"
  shows "(\<exists>uid session mid. es = (from_daemon, StartVerification uid session) # mid @
        [(from_pam_verifier, VerificationComplete r)] \<and> all_answered mid) \<and>
    (\<forall>sender message. \<not> is_ok (run_conversation VerifierAwaitingStart (es @ [(sender, message)])))"
proof -
  have append: "run_conversation state (xs @ ys) = bind_result (run_conversation state xs) (\<lambda>s. run_conversation s ys)"
    for state xs ys
    by (induction xs arbitrary: state) (auto simp: bind_result_def split: sum.splits)
  from assms obtain sender message rest where es: "es = (sender, message) # rest" by (cases es) auto
  with assms obtain state where
    step: "advance_verifier_conversation VerifierAwaitingStart sender message = Inr state"
    and run: "run_conversation state rest = Inr (VerifierCompleted r)"
    by (auto simp: bind_result_eq_Inr)
  from step obtain uid session where "sender = from_daemon" "message = StartVerification uid session"
    "state = VerifierVerifying" by (rule advance_awaiting_start)
  with es run run_to_completion [of rest r] assms(2)
  have "\<exists>uid session mid. es = (from_daemon, StartVerification uid session) # mid @
      [(from_pam_verifier, VerificationComplete r)] \<and> all_answered mid" by auto
  moreover have "\<not> is_ok (run_conversation VerifierAwaitingStart (es @ [(sender, message)]))" for sender message
    using advance_terminal [of "VerifierCompleted r" sender message]
    by (cases "advance_verifier_conversation (VerifierCompleted r) sender message") (simp_all add: append assms(1))
  ultimately show ?thesis by blast
qed

theorem conversation_decision_authentic_witness:
  "all_answered [(from_pam_verifier, SecretRequired ''Password: ''), (from_daemon, SecretResponse [112])] \<and>
   \<not> is_ok (run_conversation VerifierAwaitingStart
     ([(from_daemon, StartVerification 1000 ''c2''), (from_pam_verifier, SecretRequired ''Password: ''),
       (from_daemon, SecretResponse [112]), (from_pam_verifier, VerificationComplete verification_success)] @
      [(from_daemon, CancelVerification)]))"
proof -
  let ?es = "[(from_daemon, StartVerification 1000 ''c2''), (from_pam_verifier, SecretRequired ''Password: ''),
       (from_daemon, SecretResponse [112]), (from_pam_verifier, VerificationComplete verification_success)]"
  have "run_conversation VerifierAwaitingStart ?es = Inr (VerifierCompleted verification_success)"
    by (simp add: advance_verifier_conversation_def validate_message_enums_def is_valid_result_def)
  from conversation_decision_authentic [OF this] show ?thesis by simp
qed

end
