(* ===== verification/Verifier_Client.thy ===== *)
theory Verifier_Client
  imports Verifier_Protocol Effects
begin

text \<open>
  The daemon's side of the connection to the PAM verifier: the socket (\<open>uv/src/verifier_socket.cpp\<close>)
  and the client that drives a conversation over it (\<open>uv/src/verifier_client.cpp\<close>).  What the kernel
  answers is a parameter; a call that is repeated after \<open>EINTR\<close> is represented by its last attempt.
\<close>

section \<open>The socket\<close>

text \<open>What the kernel says of a descriptor that is to become a verifier socket.\<close>

datatype PeerName = Peer_not_connected | Peer_unknown | Peer_address nat int

record SocketProbe =
  pr_getfd :: int
  pr_setfd_ok :: bool
  pr_type :: "int option"
  pr_local :: "(nat \<times> int) option"
  pr_peer :: PeerName

definition SOCK_SEQPACKET :: int where "SOCK_SEQPACKET = 5"
definition AF_UNIX :: int where "AF_UNIX = 1"
definition FAMILY_SIZE :: nat where "FAMILY_SIZE = 2"

definition validate_socket :: "SocketProbe \<Rightarrow> unit result" where
  "validate_socket probe =
     (if pr_getfd probe < 0 then Inl (SystemError ''inspect verifier descriptor flags'')
      else if \<not> bit (pr_getfd probe) 0 \<and> \<not> pr_setfd_ok probe then
        Inl (SystemError ''set verifier descriptor close-on-exec'')
      else case pr_type probe of
        None \<Rightarrow> Inl (SystemError ''inspect verifier socket type'')
      | Some type \<Rightarrow>
          if type \<noteq> SOCK_SEQPACKET then
            Inl (VerifierSocketError ''verifier descriptor is not a SOCK_SEQPACKET socket'')
          else case pr_local probe of
            None \<Rightarrow> Inl (SystemError ''inspect verifier socket address'')
          | Some (local_size, family) \<Rightarrow>
              if local_size < FAMILY_SIZE \<or> family \<noteq> AF_UNIX then
                Inl (VerifierSocketError ''verifier descriptor is not an AF_UNIX socket'')
              else case pr_peer probe of
                Peer_not_connected \<Rightarrow> Inl (VerifierSocketError ''verifier socket is not connected'')
              | Peer_unknown \<Rightarrow> Inl (SystemError ''inspect verifier socket peer'')
              | Peer_address peer_size peer_family \<Rightarrow>
                  if peer_size < FAMILY_SIZE \<or> peer_family \<noteq> AF_UNIX then
                    Inl (VerifierSocketError ''verifier peer is not an AF_UNIX socket'')
                  else Inr ())"

definition require_open :: "int \<Rightarrow> unit result" where
  "require_open fd =
     (if fd < 0 then Inl (VerifierSocketError ''verifier socket has no descriptor'') else Inr ())"

text \<open>The constructor; on success it owns the descriptor.\<close>

definition verifier_socket :: "int \<Rightarrow> SocketProbe \<Rightarrow> int result" where
  "verifier_socket fd probe =
     (if fd < 0 then Inl (InvalidArgument ''verifier socket descriptor is invalid'')
      else bind_result (validate_socket probe) (\<lambda>_. Inr fd))"

datatype SendOutcome = Send_failed | Sent nat

definition socket_send :: "int \<Rightarrow> SendOutcome \<Rightarrow> VerifierMessage \<Rightarrow> unit result" where
  "socket_send fd outcome message =
     bind_result (require_open fd) (\<lambda>_.
     bind_result (encode_verifier_message message) (\<lambda>packet.
       case outcome of
         Send_failed \<Rightarrow> Inl (SystemError ''send verifier packet'')
       | Sent count \<Rightarrow>
           if count \<noteq> length packet then Inl (VerifierSocketError ''verifier packet was only partially sent'')
           else Inr ()))"

text \<open>The packet received, or the part of it that fits the buffer, with the truncation flags.\<close>

datatype ReceiveOutcome = Receive_failed | Received bytes bool bool

definition socket_receive :: "int \<Rightarrow> ReceiveOutcome \<Rightarrow> VerifierMessage result" where
  "socket_receive fd outcome =
     bind_result (require_open fd) (\<lambda>_.
       case outcome of
         Receive_failed \<Rightarrow> Inl (SystemError ''receive verifier packet'')
       | Received packet truncated ctruncated \<Rightarrow>
           if packet = [] then Inl (VerifierSocketError ''verifier peer closed or sent an empty packet'')
           else if truncated then Inl (VerifierSocketError ''verifier packet was truncated'')
           else if ctruncated then Inl (VerifierSocketError ''verifier ancillary data was truncated'')
           else if length packet > MAX_VERIFIER_PACKET_SIZE then
             Inl (VerifierSocketError ''verifier packet exceeds the receive buffer'')
           else decode_verifier_message packet)"

record VerifierPeerCredentials =
  cred_pid :: int
  cred_uid :: u32
  cred_gid :: u32

text \<open>The result of \<open>SO_PEERCRED\<close>: the size written and the credentials.\<close>

definition UCRED_SIZE :: nat where "UCRED_SIZE = 12"

definition peer_credentials :: "int \<Rightarrow> (nat \<times> VerifierPeerCredentials) option \<Rightarrow> VerifierPeerCredentials result" where
  "peer_credentials fd answer =
     bind_result (require_open fd) (\<lambda>_.
       case answer of
         None \<Rightarrow> Inl (SystemError ''inspect verifier peer credentials'')
       | Some (written, credentials) \<Rightarrow>
           if written \<noteq> UCRED_SIZE \<or> cred_pid credentials \<le> 0 then
             Inl (VerifierSocketError ''verifier peer returned invalid credentials'')
           else Inr credentials)"

section \<open>The client\<close>

datatype PollOutcome = Poll_failed | Poll_timeout | Poll_ready bool

text \<open>
  The environment of one conversation: the stop token, the clock and the kernel at every moment, and
  the number of rounds the client makes before the clock passes its deadline.
\<close>

record VerifierEnv =
  ve_stop :: "nat \<Rightarrow> bool"
  ve_clock :: "nat \<Rightarrow> time"
  ve_rounds :: nat
  ve_socket :: "int option"
  ve_connect_ok :: bool
  ve_probe :: SocketProbe
  ve_send :: "nat \<Rightarrow> SendOutcome"
  ve_poll :: "nat \<Rightarrow> int \<Rightarrow> PollOutcome"
  ve_receive :: "nat \<Rightarrow> ReceiveOutcome"

text \<open>
  The state: the channel the callbacks act on, the conversation, what went over the socket and a
  counter of moments.
\<close>

record 'c Client =
  cl_channel :: 'c
  cl_conversation :: VerifierConversationState
  cl_traffic :: "(VerifierMessageSender \<times> VerifierMessage) list"
  cl_tick :: nat

text \<open>The callbacks, any of which may be missing; the one for secrets is given the time of its call.\<close>

record 'c Callbacks =
  cb_status :: "(u8 \<Rightarrow> string \<Rightarrow> ('c, unit) exec) option"
  cb_secret :: "(time \<Rightarrow> string \<Rightarrow> ('c, bytes) exec) option"
  cb_cancelled :: "('c, bool) exec option"

definition client_ask :: "(nat \<Rightarrow> 'a) \<Rightarrow> ('c Client, 'a) exec" where
  "client_ask answer s = (Inr (answer (cl_tick s)), s\<lparr>cl_tick := cl_tick s + 1\<rparr>)"

definition on_channel :: "('c, 'a) exec \<Rightarrow> ('c Client, 'a) exec" where
  "on_channel m s = (case m (cl_channel s) of (r, c) \<Rightarrow> (r, s\<lparr>cl_channel := c\<rparr>))"

definition UNIX_PATH_SIZE :: nat where "UNIX_PATH_SIZE = 108"

definition connect_to_verifier :: "VerifierEnv \<Rightarrow> string \<Rightarrow> int result" where
  "connect_to_verifier env path =
     (if path = [] then Inl (InvalidArgument ''verifier socket path is empty'')
      else if length path \<ge> UNIX_PATH_SIZE then
        Inl (InvalidArgument ''verifier socket path exceeds the AF_UNIX limit'')
      else case ve_socket env of
        None \<Rightarrow> Inl (SystemError ''create verifier client socket'')
      | Some fd \<Rightarrow>
          if \<not> ve_connect_ok env then Inl (SystemError ''connect to PAM verifier'')
          else verifier_socket fd (ve_probe env))"

text \<open>The two directions of the socket, with who sends the message, and a step of the conversation.\<close>

definition link_send :: "VerifierEnv \<Rightarrow> int \<Rightarrow> VerifierMessageSender \<Rightarrow> VerifierMessage \<Rightarrow> ('c Client, unit) exec" where
  "link_send env fd sender message =
     exec_bind (client_ask (ve_send env)) (\<lambda>outcome.
     exec_then (exec_lift (socket_send fd outcome message))
       (exec_modify (\<lambda>s. s\<lparr>cl_traffic := cl_traffic s @ [(sender, message)]\<rparr>)))"

definition link_receive :: "VerifierEnv \<Rightarrow> int \<Rightarrow> VerifierMessageSender \<Rightarrow> ('c Client, VerifierMessage) exec" where
  "link_receive env fd sender =
     exec_bind (client_ask (ve_receive env)) (\<lambda>outcome.
     exec_bind (exec_lift (socket_receive fd outcome)) (\<lambda>message.
     exec_then (exec_modify (\<lambda>s. s\<lparr>cl_traffic := cl_traffic s @ [(sender, message)]\<rparr>))
       (exec_return message)))"

definition client_advance :: "VerifierMessageSender \<Rightarrow> VerifierMessage \<Rightarrow> ('c Client, unit) exec" where
  "client_advance sender message =
     exec_bind (exec_get cl_conversation) (\<lambda>conversation.
     exec_bind (exec_lift (advance_verifier_conversation conversation sender message)) (\<lambda>next_state.
       exec_modify (\<lambda>s. s\<lparr>cl_conversation := next_state\<rparr>)))"

definition client_send :: "VerifierEnv \<Rightarrow> int \<Rightarrow> VerifierMessage \<Rightarrow> ('c Client, unit) exec" where
  "client_send env fd message = link_send env fd from_daemon message"

definition client_receive :: "VerifierEnv \<Rightarrow> int \<Rightarrow> ('c Client, VerifierMessage) exec" where
  "client_receive env fd = link_receive env fd from_pam_verifier"

definition send_cancel :: "VerifierEnv \<Rightarrow> int \<Rightarrow> ('c Client, unit) exec" where
  "send_cancel env fd =
     exec_bind (exec_get cl_conversation) (\<lambda>conversation.
       if verifier_conversation_is_terminal conversation then exec_return ()
       else exec_catch
         (exec_then (client_send env fd CancelVerification) (client_advance from_daemon CancelVerification))
         (\<lambda>_. exec_return ()))"

definition client_cancelled :: "'c Callbacks \<Rightarrow> ('c Client, bool) exec" where
  "client_cancelled cbs = (case cb_cancelled cbs of None \<Rightarrow> exec_return False | Some m \<Rightarrow> on_channel m)"

text \<open>The two checks made before every round and again after a secret was obtained.\<close>

definition check_interrupted :: "VerifierEnv \<Rightarrow> 'c Callbacks \<Rightarrow> int \<Rightarrow> ('c Client, unit) exec" where
  "check_interrupted env cbs fd =
     exec_bind (client_ask (ve_stop env)) (\<lambda>stop.
       if stop then exec_then (send_cancel env fd) (exec_throw OperationCancelled)
       else exec_bind (client_cancelled cbs) (\<lambda>gone.
         if gone then exec_then (send_cancel env fd) (exec_throw UserInteractionCancelled)
         else exec_return ()))"

text \<open>The time \<open>poll\<close> may take: what is left in whole milliseconds, between 1 and 20.\<close>

definition wait_ms :: "time \<Rightarrow> time \<Rightarrow> int" where
  "wait_ms deadline now = max 1 (min 20 (int ((deadline - now) div milliseconds 1)))"

text \<open>The reaction to a message: the result when it ends the conversation.\<close>

definition client_react ::
    "VerifierEnv \<Rightarrow> 'c Callbacks \<Rightarrow> int \<Rightarrow> VerifierMessage \<Rightarrow> ('c Client, VerificationResult option) exec" where
  "client_react env cbs fd message =
     (case message of
        VerificationStatus kind display \<Rightarrow>
          exec_then (case cb_status cbs of None \<Rightarrow> exec_return () | Some callback \<Rightarrow> on_channel (callback kind display))
            (exec_return None)
      | SecretRequired prompt \<Rightarrow>
          (case cb_secret cbs of
             None \<Rightarrow> exec_throw (RuntimeError ''bad_function_call'')
           | Some callback \<Rightarrow>
               exec_bind (client_ask (ve_clock env)) (\<lambda>now.
               exec_bind (on_channel (callback now prompt)) (\<lambda>secret.
               exec_then (check_interrupted env cbs fd)
               (exec_then (client_send env fd (SecretResponse secret))
               (exec_then (client_advance from_daemon (SecretResponse secret)) (exec_return None))))))
      | VerificationComplete verdict \<Rightarrow> exec_return (Some verdict)
      | _ \<Rightarrow> exec_throw (VerifierConversationError ''PAM verifier sent a daemon-only message''))"

text \<open>A round; \<open>n\<close> rounds follow it before the clock passes the deadline.\<close>

definition client_round ::
    "VerifierEnv \<Rightarrow> 'c Callbacks \<Rightarrow> int \<Rightarrow> time \<Rightarrow> nat \<Rightarrow> ('c Client, VerificationResult option) exec" where
  "client_round env cbs fd deadline n =
     exec_then (check_interrupted env cbs fd)
     (exec_bind (client_ask (ve_clock env)) (\<lambda>time.
       let now = (if n = 0 then max deadline time else time) in
       if now \<ge> deadline then exec_then (send_cancel env fd) (exec_throw UserActionTimedOut)
       else exec_bind (client_ask (\<lambda>t. ve_poll env t (wait_ms deadline now))) (\<lambda>outcome.
         case outcome of
           Poll_failed \<Rightarrow> exec_throw (SystemError ''poll PAM verifier socket'')
         | Poll_timeout \<Rightarrow> exec_return None
         | Poll_ready readable \<Rightarrow>
             if \<not> readable then
               exec_throw (VerifierSocketError ''PAM verifier connection closed without a response'')
             else
               exec_bind (client_receive env fd) (\<lambda>message.
               exec_then (client_advance from_pam_verifier message) (client_react env cbs fd message)))))"

text \<open>The last round always throws, because its clock is past the deadline.\<close>

fun client_loop ::
    "VerifierEnv \<Rightarrow> 'c Callbacks \<Rightarrow> int \<Rightarrow> time \<Rightarrow> nat \<Rightarrow> ('c Client, VerificationResult) exec" where
  "client_loop env cbs fd deadline 0 =
     exec_then (client_round env cbs fd deadline 0) (exec_throw UserActionTimedOut)"
| "client_loop env cbs fd deadline (Suc n) =
     exec_bind (client_round env cbs fd deadline (Suc n)) (\<lambda>r.
       case r of Some verdict \<Rightarrow> exec_return verdict | None \<Rightarrow> client_loop env cbs fd deadline n)"

definition run_verifier_service ::
    "VerifierEnv \<Rightarrow> string \<Rightarrow> u32 \<Rightarrow> string \<Rightarrow> int \<Rightarrow> 'c Callbacks \<Rightarrow> ('c Client, VerificationResult) exec" where
  "run_verifier_service env socket_path target_uid session_id timeout cbs =
     exec_bind (client_ask (ve_stop env)) (\<lambda>stop.
     exec_then (exec_lift (cancellation_point stop))
     (exec_bind (client_cancelled cbs) (\<lambda>gone.
     exec_then (exec_guard (\<not> gone) UserInteractionCancelled)
     (exec_then (exec_guard (timeout > 0) (InvalidArgument ''verifier service timeout must be positive''))
     (exec_then (exec_guard (cb_secret cbs \<noteq> None) (InvalidArgument ''verifier secret callback is missing''))
     (exec_bind (client_ask (ve_clock env)) (\<lambda>now.
     exec_bind (exec_lift (connect_to_verifier env socket_path)) (\<lambda>fd.
     exec_then (client_send env fd (StartVerification target_uid session_id))
     (exec_then (client_advance from_daemon (StartVerification target_uid session_id))
       (client_loop env cbs fd (now + nat timeout) (ve_rounds env)))))))))))"

definition new_client :: "'c \<Rightarrow> 'c Client" where
  "new_client channel = \<lparr>cl_channel = channel, cl_conversation = VerifierAwaitingStart, cl_traffic = [], cl_tick = 0\<rparr>"

section \<open>Lemmas\<close>

lemma run_conversation_append:
  "run_conversation state (xs @ ys) = bind_result (run_conversation state xs) (\<lambda>s. run_conversation s ys)"
  by (induction xs arbitrary: state) (auto simp: bind_result_def split: sum.splits)

text \<open>
  The state of the client while it talks: what went over the socket is a conversation in the state the
  client has recorded, and \<open>G\<close> relates the channel at the start with the channel now and the secrets
  that were sent or are still held.
\<close>

definition secrets_sent :: "'c Client \<Rightarrow> bytes set" where
  "secrets_sent s = {secret. (from_daemon, SecretResponse secret) \<in> set (cl_traffic s)}"

definition talking :: "(bytes set \<Rightarrow> 'c \<Rightarrow> 'c \<Rightarrow> bool) \<Rightarrow> 'c \<Rightarrow> bytes set \<Rightarrow> 'c Client \<Rightarrow> bool" where
  "talking G c0 held s \<longleftrightarrow> G (held \<union> secrets_sent s) c0 (cl_channel s) \<and>
     run_conversation VerifierAwaitingStart (cl_traffic s) = Inr (cl_conversation s)"

text \<open>A message went over the socket and the conversation is still to be advanced.\<close>

definition exchanged ::
    "(bytes set \<Rightarrow> 'c \<Rightarrow> 'c \<Rightarrow> bool) \<Rightarrow> 'c \<Rightarrow> VerifierMessageSender \<Rightarrow> VerifierMessage \<Rightarrow> 'c Client \<Rightarrow> bool" where
  "exchanged G c0 sender message s \<longleftrightarrow> G (secrets_sent s) c0 (cl_channel s) \<and>
     (\<exists>before. cl_traffic s = before @ [(sender, message)] \<and>
        run_conversation VerifierAwaitingStart before = Inr (cl_conversation s))"

text \<open>The daemon starts no verification but the one it was asked for.\<close>

definition starts_only :: "u32 \<Rightarrow> string \<Rightarrow> 'c Client \<Rightarrow> 'c Client \<Rightarrow> bool" where
  "starts_only uid session s s' \<longleftrightarrow>
     (\<forall>u v. (from_daemon, StartVerification u v) \<in> set (cl_traffic s') \<longrightarrow>
        u = uid \<and> v = session \<or> (from_daemon, StartVerification u v) \<in> set (cl_traffic s))"

lemma starts_only_refl: "reflp (starts_only uid session)" by (auto simp: reflp_def starts_only_def)

lemma starts_only_trans: "transp (starts_only uid session)" unfolding transp_def starts_only_def by blast

lemmas starts_keeps = keeps_prim [OF starts_only_refl] keeps_bind [OF starts_only_trans]
  keeps_then [OF starts_only_trans] keeps_catch [OF starts_only_trans] keeps_if keeps_option

lemma access_starts:
  "keeps (starts_only uid session) (client_ask answer)" "keeps (starts_only uid session) (on_channel m)"
  "keeps (starts_only uid session) (client_advance sender message)"
  unfolding client_advance_def
  by (auto simp: keeps_def client_ask_def on_channel_def starts_only_def exec_bind_def exec_prim
      split: prod.splits sum.splits)

lemma exchange_starts:
  "(\<And>u v. message = StartVerification u v \<Longrightarrow> u = uid \<and> v = session) \<Longrightarrow>
     keeps (starts_only uid session) (client_send env fd message)"
  "keeps (starts_only uid session) (client_receive env fd)"
  unfolding client_send_def client_receive_def link_send_def link_receive_def
  by (intro starts_keeps access_starts; auto simp: keeps_modify starts_only_def)+

lemma round_starts:
  "keeps (starts_only uid session) (client_cancelled cbs)"
  "keeps (starts_only uid session) (send_cancel env fd)"
  "keeps (starts_only uid session) (client_round env cbs fd deadline n)"
proof -
  show cancel: "keeps (starts_only uid session) (send_cancel env fd)" unfolding send_cancel_def
    by (intro starts_keeps access_starts exchange_starts) simp
  show cancelled: "keeps (starts_only uid session) (client_cancelled cbs)" unfolding client_cancelled_def
    by (intro starts_keeps access_starts)
  have check: "keeps (starts_only uid session) (check_interrupted env cbs fd)" unfolding check_interrupted_def
    by (intro starts_keeps access_starts cancel cancelled)
  have react: "keeps (starts_only uid session) (client_react env cbs fd message)" for message
    by (cases message) (auto simp: client_react_def intro!: starts_keeps access_starts exchange_starts check)
  show "keeps (starts_only uid session) (client_round env cbs fd deadline n)" unfolding client_round_def Let_def
    by (intro starts_keeps access_starts cancel check)
      (auto split: PollOutcome.split intro!: starts_keeps access_starts exchange_starts react)
qed

lemma run_starts: "keeps (starts_only uid session) (run_verifier_service env path uid session timeout cbs)"
proof -
  have loop: "keeps (starts_only uid session) (client_loop env cbs fd deadline n)" for fd deadline n
    by (induction n) (auto intro!: starts_keeps round_starts)
  show ?thesis unfolding run_verifier_service_def
    by (intro starts_keeps access_starts exchange_starts round_starts loop) simp
qed

text \<open>Callbacks that keep such a relation, the one for secrets by adding the secret it returns.\<close>

locale client_callbacks =
  fixes cbs :: "'c Callbacks" and G :: "bytes set \<Rightarrow> 'c \<Rightarrow> 'c \<Rightarrow> bool"
  assumes origin_start: "G {} c c"
    and origin_fewer: "G secrets a b \<Longrightarrow> fewer \<subseteq> secrets \<Longrightarrow> G fewer a b"
    and status_keeps: "cb_status cbs = Some f \<Longrightarrow> f kind display b = (Inr u, c) \<Longrightarrow> G secrets a b \<Longrightarrow> G secrets a c"
    and cancelled_keeps: "cb_cancelled cbs = Some g \<Longrightarrow> g b = (Inr False, c) \<Longrightarrow> G secrets a b \<Longrightarrow> G secrets a c"
    and secret_added: "cb_secret cbs = Some h \<Longrightarrow> h now prompt b = (Inr secret, c) \<Longrightarrow> G secrets a b \<Longrightarrow>
      G (insert secret secrets) a c"
begin

lemma on_channel_talking:
  "(\<And>secrets b x c. m b = (Inr x, c) \<Longrightarrow> G secrets c0 b \<Longrightarrow> G secrets c0 c) \<Longrightarrow>
     ensures (talking G c0 held) (on_channel m) (\<lambda>_. talking G c0 held)"
  by (rule ensuresI) (auto simp: on_channel_def talking_def secrets_sent_def split: prod.splits)

lemma ask_talking: "ensures (talking G c0 held) (client_ask answer) (\<lambda>_. talking G c0 held)"
  by (rule ensuresI) (auto simp: client_ask_def talking_def secrets_sent_def)

lemma cancelled_talking:
  "ensures (talking G c0 held) (client_cancelled cbs) (\<lambda>gone s. \<not> gone \<longrightarrow> talking G c0 held s)"
proof (cases "cb_cancelled cbs")
  case (Some m)
  show ?thesis
    by (rule ensuresI)
      (auto simp: client_cancelled_def Some on_channel_def talking_def secrets_sent_def split: prod.splits
        dest: cancelled_keeps [OF Some])
qed (simp add: client_cancelled_def ensures_return)

lemma check_interrupted_talking: "ensures (talking G c0 held) (check_interrupted env cbs fd) (\<lambda>_. talking G c0 held)"
  unfolding check_interrupted_def
  by (rule ensures_bind [OF ask_talking], rule ensures_if, rule ensures_intros,
      rule ensures_bind [OF cancelled_talking], rule ensures_if, rule ensures_intros, rule ensures_return) simp

lemma advance_talking:
  "ensures (exchanged G c0 sender message) (client_advance sender message)
     (\<lambda>_ s. talking G c0 {} s \<and> (sender = from_pam_verifier \<longrightarrow>
        (\<forall>verdict. message = VerificationComplete verdict \<longrightarrow> cl_conversation s = VerifierCompleted verdict)))"
proof (rule ensuresI)
  fix s u s'
  assume pre: "exchanged G c0 sender message s" and run: "client_advance sender message s = (Inr u, s')"
  from run obtain nxt where nxt: "advance_verifier_conversation (cl_conversation s) sender message = Inr nxt"
    "s' = s\<lparr>cl_conversation := nxt\<rparr>"
    by (auto simp: client_advance_def exec_simps)
  from pre nxt have "talking G c0 {} s'"
    by (auto simp: exchanged_def talking_def secrets_sent_def run_conversation_append bind_result_def)
  moreover have "nxt = VerifierCompleted verdict"
    if "sender = from_pam_verifier" "message = VerificationComplete verdict" for verdict
    using nxt(1) that unfolding advance_verifier_conversation_def
    by (auto simp: bind_result_eq_Inr invalid_conversation_def split: VerifierConversationState.splits if_splits)
  ultimately show "talking G c0 {} s' \<and> (sender = from_pam_verifier \<longrightarrow>
      (\<forall>verdict. message = VerificationComplete verdict \<longrightarrow> cl_conversation s' = VerifierCompleted verdict))"
    using nxt(2) by simp
qed

lemma send_exchanged:
  "(\<And>secret. message = SecretResponse secret \<Longrightarrow> secret \<in> held) \<Longrightarrow>
     ensures (talking G c0 held) (client_send env fd message) (\<lambda>_. exchanged G c0 from_daemon message)"
  by (rule ensuresI) (auto simp: client_send_def link_send_def client_ask_def exec_simps talking_def exchanged_def secrets_sent_def
      elim!: origin_fewer)

lemma receive_exchanged:
  "ensures (talking G c0 held) (client_receive env fd) (exchanged G c0 from_pam_verifier)"
  by (rule ensuresI) (auto simp: client_receive_def link_receive_def client_ask_def exec_simps talking_def exchanged_def secrets_sent_def
      elim!: origin_fewer)

lemma secret_held:
  assumes "cb_secret cbs = Some f"
  shows "ensures (talking G c0 held) (on_channel (f now prompt)) (\<lambda>secret. talking G c0 {secret})"
proof (rule ensuresI)
  fix s secret s'
  assume pre: "talking G c0 held s" and run: "on_channel (f now prompt) s = (Inr secret, s')"
  then obtain c where c: "f now prompt (cl_channel s) = (Inr secret, c)" "s' = s\<lparr>cl_channel := c\<rparr>"
    by (auto simp: on_channel_def split: prod.splits)
  from secret_added [OF assms c(1)] pre have "G (insert secret (held \<union> secrets_sent s)) c0 c"
    by (simp add: talking_def)
  then have "G ({secret} \<union> secrets_sent s') c0 (cl_channel s')"
    using c(2) by (auto simp: secrets_sent_def elim!: origin_fewer)
  with pre c(2) show "talking G c0 {secret} s'" by (simp add: talking_def)
qed

lemma react_talking:
  "ensures (\<lambda>s. talking G c0 {} s \<and> (\<forall>verdict. message = VerificationComplete verdict \<longrightarrow>
        cl_conversation s = VerifierCompleted verdict))
     (client_react env cbs fd message)
     (\<lambda>r s. talking G c0 {} s \<and> (\<forall>verdict. r = Some verdict \<longrightarrow> cl_conversation s = VerifierCompleted verdict))"
proof (cases message)
  case (VerificationStatus kind display)
  have "ensures (talking G c0 {})
      (case cb_status cbs of None \<Rightarrow> exec_return () | Some callback \<Rightarrow> on_channel (callback kind display))
      (\<lambda>_. talking G c0 {})"
    by (auto split: option.split intro: ensures_return on_channel_talking status_keeps)
  with VerificationStatus show ?thesis
    by (simp add: client_react_def) (erule ensures_then, simp add: ensures_return)
next
  case (SecretRequired prompt)
  show ?thesis
  proof (cases "cb_secret cbs")
    case None
    with SecretRequired show ?thesis by (simp add: client_react_def ensures_intros)
  next
    case (Some f)
    have send: "ensures (talking G c0 {secret})
        (exec_then (client_send env fd (SecretResponse secret))
        (exec_then (client_advance from_daemon (SecretResponse secret)) (exec_return None)))
        (\<lambda>r s. talking G c0 {} s \<and> (\<forall>verdict. r = Some verdict \<longrightarrow> cl_conversation s = VerifierCompleted verdict))"
      for secret :: bytes
      by (rule ensures_then [OF send_exchanged], simp, rule ensures_then [OF advance_talking], rule ensures_return, simp)
    have "ensures (talking G c0 {}) (client_react env cbs fd message)
        (\<lambda>r s. talking G c0 {} s \<and> (\<forall>verdict. r = Some verdict \<longrightarrow> cl_conversation s = VerifierCompleted verdict))"
      using SecretRequired Some
      by (simp add: client_react_def) (rule ensures_bind [OF ask_talking], rule ensures_bind [OF secret_held [OF Some]],
          rule ensures_then [OF check_interrupted_talking], rule send)
    then show ?thesis by (rule ensures_weaken) simp_all
  qed
qed (auto simp: client_react_def intro: ensures_return ensures_intros)

lemma round_talking:
  "ensures (talking G c0 {}) (client_round env cbs fd deadline n)
     (\<lambda>r s. talking G c0 {} s \<and> (\<forall>verdict. r = Some verdict \<longrightarrow> cl_conversation s = VerifierCompleted verdict))"
proof -
  have "ensures (talking G c0 {}) (exec_bind (client_receive env fd) (\<lambda>message.
      exec_then (client_advance from_pam_verifier message) (client_react env cbs fd message)))
      (\<lambda>r s. talking G c0 {} s \<and> (\<forall>verdict. r = Some verdict \<longrightarrow> cl_conversation s = VerifierCompleted verdict))"
    by (rule ensures_bind [OF receive_exchanged], rule ensures_then [OF advance_talking],
        rule ensures_weaken [OF react_talking]) auto
  then show ?thesis unfolding client_round_def Let_def
    by (intro ensures_then [OF check_interrupted_talking] ensures_bind [OF ask_talking] ensures_if ensures_intros)
      (auto split: PollOutcome.split intro: ensures_intros ensures_return)
qed

lemma last_round_throws: "client_round env cbs fd deadline 0 s \<noteq> (Inr r, s')"
  by (auto simp: client_round_def Let_def exec_simps)

lemma loop_talking:
  "ensures (talking G c0 {}) (client_loop env cbs fd deadline n)
     (\<lambda>verdict s. talking G c0 {} s \<and> cl_conversation s = VerifierCompleted verdict)"
proof (induction n)
  case 0
  show ?case by (simp add: ensures_intros)
next
  case (Suc n)
  show ?case
    by (simp, rule ensures_bind [OF round_talking])
      (auto split: option.split intro: ensures_return Suc)
qed

text \<open>
  A verification that returns a verdict: the traffic is a conversation that the daemon started for
  the given user and session and that the verifier completed with this verdict.
\<close>

lemma verdict_traffic:
  assumes "run_verifier_service env path uid session timeout cbs (new_client c0) = (Inr verdict, s')"
  shows "run_conversation VerifierAwaitingStart (cl_traffic s') = Inr (VerifierCompleted verdict)"
    "G (secrets_sent s') c0 (cl_channel s')"
proof -
  have start: "talking G c0 {} (new_client c0)"
    using origin_start by (simp add: talking_def secrets_sent_def new_client_def)
  have begin_talking: "ensures (talking G c0 {}) (exec_then (client_send env fd (StartVerification uid session))
      (exec_then (client_advance from_daemon (StartVerification uid session))
        (client_loop env cbs fd deadline n)))
      (\<lambda>verdict s. talking G c0 {} s \<and> cl_conversation s = VerifierCompleted verdict)" for fd deadline n
    by (rule ensures_then [OF send_exchanged], simp, rule ensures_then [OF advance_talking],
        rule ensures_weaken [OF loop_talking]) simp_all
  have guarded: "ensures (talking G c0 {}) (exec_guard ok e) (\<lambda>_. talking G c0 {})"
    "ensures (\<lambda>s. \<not> gone \<longrightarrow> talking G c0 {} s) (exec_guard (\<not> gone) e) (\<lambda>_. talking G c0 {})" for ok gone e
    by (rule ensuresI, simp add: exec_simps)+
  have lifted: "ensures (talking G c0 {}) (exec_lift r) (\<lambda>_. talking G c0 {})" for r :: "'b result"
    by (rule ensuresI) (simp add: exec_simps)
  have lifted': "ensures (talking G c0 {}) (exec_lift r) (\<lambda>_. talking G c0 {})" for r :: "unit result"
    by (rule ensuresI) (simp add: exec_simps)
  have "ensures (talking G c0 {}) (run_verifier_service env path uid session timeout cbs)
      (\<lambda>verdict s. talking G c0 {} s \<and> cl_conversation s = VerifierCompleted verdict)"
    unfolding run_verifier_service_def
    by (intro ensures_bind [OF ask_talking] ensures_then [OF lifted'] ensures_bind [OF cancelled_talking]
        ensures_then [OF guarded(2)] ensures_then [OF guarded(1)] ensures_bind [OF lifted] begin_talking)
  from ensuresD [OF this start assms] have *: "talking G c0 {} s'" "cl_conversation s' = VerifierCompleted verdict" by simp_all
  from * show "run_conversation VerifierAwaitingStart (cl_traffic s') = Inr (VerifierCompleted verdict)"
    by (simp add: talking_def)
  from *(1) show "G (secrets_sent s') c0 (cl_channel s')" by (simp add: talking_def)
qed

end

text \<open>The traffic of a verification that ended with a decision.\<close>

lemma started_traffic:
  assumes "starts_only uid session (new_client c0) s'"
    and "run_conversation VerifierAwaitingStart (cl_traffic s') = Inr (VerifierCompleted verdict)"
    and "verdict \<noteq> verification_error_result"
  shows "\<exists>mid. cl_traffic s' = (from_daemon, StartVerification uid session) # mid @
      [(from_pam_verifier, VerificationComplete verdict)] \<and> all_answered mid"
proof -
  from assms(2) obtain sender message rest where traffic: "cl_traffic s' = (sender, message) # rest"
    by (cases "cl_traffic s'") auto
  with assms(2) obtain state where
    "advance_verifier_conversation VerifierAwaitingStart sender message = Inr state"
    and run: "run_conversation state rest = Inr (VerifierCompleted verdict)"
    by (auto simp: bind_result_eq_Inr)
  then obtain u v where first: "sender = from_daemon" "message = StartVerification u v" "state = VerifierVerifying"
    using advance_awaiting_start by blast
  from assms(1) traffic first have "u = uid" "v = session"
    by (auto simp: starts_only_def new_client_def)
  with run_to_completion [OF run [unfolded first(3)] assms(3)] traffic first show ?thesis by auto
qed

lemma verdict_decided:
  assumes "run_verifier_service env path uid session timeout cbs (new_client c0) = (Inr verdict, s')"
    and "run_conversation VerifierAwaitingStart (cl_traffic s') = Inr (VerifierCompleted verdict)"
    and "verdict \<noteq> verification_error_result"
  shows "\<exists>mid. cl_traffic s' = (from_daemon, StartVerification uid session) # mid @
      [(from_pam_verifier, VerificationComplete verdict)] \<and> all_answered mid"
  by (rule started_traffic [OF keepsD [OF run_starts assms(1)] assms(2,3)])

end
