(* ===== verification/Bus_Peers.thy ===== *)
theory Bus_Peers
  imports User_Context Verifier_Protocol
begin

text \<open>
  Who is calling on the bus: validation of login sessions (\<open>session_validation.cpp\<close>), the identity
  of a D-Bus peer (\<open>dbus/peer_credentials.cpp\<close> and the helpers of \<open>dbus/agent_service.cpp\<close>) and the
  pipe a secret arrives through (\<open>dbus/secret_pipe.cpp\<close>).  systemd's login library, the bus, the
  account database and the kernel are parameters.
\<close>

section \<open>Login sessions\<close>

text \<open>The three calls of sd-login; a negative result is an error.\<close>

record Logind =
  sd_session_get_uid :: "string \<Rightarrow> int \<times> u32"
  sd_session_is_active :: "string \<Rightarrow> int"
  sd_session_is_remote :: "string \<Rightarrow> int"

record LoginSessionProperties =
  ls_uid :: u32
  ls_active :: bool
  ls_remote :: bool

definition query_login_session :: "Logind \<Rightarrow> string \<Rightarrow> LoginSessionProperties result" where
  "query_login_session logind session_id =
     (if session_id = [] then Inl (InvalidArgument ''Login session ID must not be empty'')
      else case sd_session_get_uid logind session_id of (uid_result, uid) \<Rightarrow>
        if uid_result < 0 then Inl (SystemError ''resolve login session user'')
        else
          let is_active = sd_session_is_active logind session_id in
          if is_active < 0 then Inl (SystemError ''inspect login session activity'')
          else
            let is_remote = sd_session_is_remote logind session_id in
            if is_remote < 0 then Inl (SystemError ''inspect login session locality'')
            else Inr \<lparr>ls_uid = uid, ls_active = is_active > 0, ls_remote = is_remote > 0\<rparr>)"

definition validate_active_local_session :: "LoginSessionProperties \<Rightarrow> u32 \<Rightarrow> unit result" where
  "validate_active_local_session session expected_uid =
     (if ls_uid session \<noteq> expected_uid then Inl (RuntimeError ''Login session belongs to another user'')
      else if \<not> ls_active session then Inl (RuntimeError ''Login session is not active'')
      else if ls_remote session then Inl (RuntimeError ''Remote login sessions are not allowed'')
      else Inr ())"

definition require_active_local_session :: "Logind \<Rightarrow> string \<Rightarrow> u32 \<Rightarrow> unit result" where
  "require_active_local_session logind session_id expected_uid =
     bind_result (query_login_session logind session_id)
       (\<lambda>session. validate_active_local_session session expected_uid)"

definition is_active_local_session :: "Logind \<Rightarrow> string \<Rightarrow> u32 \<Rightarrow> bool" where
  "is_active_local_session logind session_id expected_uid =
     (case require_active_local_session logind session_id expected_uid of Inl _ \<Rightarrow> False | Inr _ \<Rightarrow> True)"

definition session_is_still_active :: "Logind \<Rightarrow> UserContext \<Rightarrow> bool" where
  "session_is_still_active logind user =
     (case uc_session user of
        None \<Rightarrow> False
      | Some session \<Rightarrow> is_active_local_session logind (us_sessionId session) (uc_uid user))"

section \<open>The identity of a caller\<close>

text \<open>What the bus says of a method call: its sender and, when it knows them, the credentials.\<close>

record MethodCall =
  call_sender :: "string option"
  call_euid :: "u32 result"
  call_pid :: "int result"

record AuthenticatedBusPeer =
  abp_effectiveUid :: u32
  abp_pid :: int
  abp_uniqueName :: string

definition is_unique_name :: "string option \<Rightarrow> bool" where
  "is_unique_name sender \<longleftrightarrow> (case sender of Some (c # _) \<Rightarrow> c = CHR '':'' | _ \<Rightarrow> False)"

definition authenticate_bus_peer :: "MethodCall \<Rightarrow> AuthenticatedBusPeer result" where
  "authenticate_bus_peer call =
     (if \<not> is_unique_name (call_sender call) then
        Inl (RuntimeError ''Agent has no authenticated unique bus name'')
      else
        bind_result (call_euid call) (\<lambda>effective_uid.
        bind_result (call_pid call) (\<lambda>pid.
          if pid \<le> 0 then Inl (RuntimeError ''Agent has no authenticated process ID'')
          else Inr \<lparr>abp_effectiveUid = effective_uid, abp_pid = pid,
                    abp_uniqueName = the (call_sender call)\<rparr>)))"

text \<open>The two calls to the login manager on the bus.\<close>

record LoginBus =
  bus_GetSessionByPID :: "u32 \<Rightarrow> string result"
  bus_session_Id :: "string \<Rightarrow> string result"

definition login_session_for_bus_peer :: "LoginBus \<Rightarrow> int \<Rightarrow> string result" where
  "login_session_for_bus_peer bus pid =
     (if pid \<le> 0 \<or> pid > 0xFFFFFFFF then Inl (InvalidArgument ''Agent process ID is out of range'')
      else
        bind_result (bus_GetSessionByPID bus (word_of_int pid)) (\<lambda>session_path.
        bind_result (bus_session_Id bus session_path) (\<lambda>session_id.
          if session_id = [] then Inl (RuntimeError ''Agent login session is empty'') else Inr session_id)))"

text \<open>
  The account database: the outcomes of \<open>getpwuid_r\<close> and \<open>getpwnam_r\<close> with a buffer of a given size, and the
  size the system suggests.
\<close>

datatype 'a AccountLookup = Account_found 'a | Account_missing | Buffer_too_small | Lookup_failed

record Accounts =
  acc_requested_size :: int
  acc_getpwuid :: "u32 \<Rightarrow> nat \<Rightarrow> string AccountLookup"
  acc_getpwnam :: "string \<Rightarrow> nat \<Rightarrow> u32 AccountLookup"

definition MAX_ACCOUNT_BUFFER_SIZE :: nat where
  "MAX_ACCOUNT_BUFFER_SIZE = 1024 * 1024"

text \<open>The loop of every lookup, with a buffer of \<open>n + 1\<close> bytes: a buffer is never empty.\<close>

function account_loop :: "(nat \<Rightarrow> 'a AccountLookup) \<Rightarrow> exn \<Rightarrow> exn \<Rightarrow> nat \<Rightarrow> 'a result" where
  "account_loop lookup missing failed n =
     (let buffer_size = n + 1 in
      case lookup buffer_size of
        Account_found entry \<Rightarrow> Inr entry
      | Account_missing \<Rightarrow> Inl missing
      | Lookup_failed \<Rightarrow> Inl failed
      | Buffer_too_small \<Rightarrow>
          if buffer_size = MAX_ACCOUNT_BUFFER_SIZE then Inl failed
          else account_loop lookup missing failed (min (buffer_size * 2) MAX_ACCOUNT_BUFFER_SIZE - 1))"
  by pat_completeness auto
termination
  by (relation "measure (\<lambda>(_, _, _, n). if n + 1 > MAX_ACCOUNT_BUFFER_SIZE then 1
        else MAX_ACCOUNT_BUFFER_SIZE - (n + 1))")
    (auto simp: MAX_ACCOUNT_BUFFER_SIZE_def min_def)

declare account_loop.simps [simp del]

definition account_buffer_size :: "Accounts \<Rightarrow> nat" where
  "account_buffer_size accounts =
     min (if acc_requested_size accounts > 0 then nat (acc_requested_size accounts) else 16384) MAX_ACCOUNT_BUFFER_SIZE"

definition username_for_uid :: "Accounts \<Rightarrow> u32 \<Rightarrow> string result" where
  "username_for_uid accounts uid =
     account_loop (acc_getpwuid accounts uid) (RuntimeError ''Unable to resolve agent user name'')
       (SystemError ''getpwuid_r'') (account_buffer_size accounts - 1)"

definition resolve_peer :: "LoginBus \<Rightarrow> Logind \<Rightarrow> Accounts \<Rightarrow> MethodCall \<Rightarrow> AgentPeer result" where
  "resolve_peer bus logind accounts call =
     bind_result (authenticate_bus_peer call) (\<lambda>peer.
       let uid = abp_effectiveUid peer in
       if unat uid > 0xFFFFFFFF then Inl (RuntimeError ''Agent UID is out of range'')
       else
         bind_result (login_session_for_bus_peer bus (abp_pid peer)) (\<lambda>session.
         bind_result (require_active_local_session logind session uid) (\<lambda>_.
         bind_result (username_for_uid accounts uid) (\<lambda>name.
           Inr \<lparr>peer_uid = uid, peer_userName = name, peer_sessionId = session,
                peer_busName = abp_uniqueName peer\<rparr>))))"

section \<open>The secret pipe\<close>

text \<open>
  A descriptor as the kernel shows it: its number, what \<open>fstat\<close> says, whether it could be made
  nonblocking, and the results of the \<open>read\<close> calls on it.  Reads that return data or are interrupted
  come first; any other result ends the loop.
\<close>

datatype PipeRead = Pipe_data bytes | Pipe_interrupted

datatype PipeEnd = Pipe_closed | Pipe_would_block | Pipe_error

record SecretPipe =
  pipe_fd :: int
  pipe_stat_ok :: bool
  pipe_is_fifo :: bool
  pipe_nonblocking_ok :: bool
  pipe_reads :: "PipeRead list"
  pipe_end :: PipeEnd

text \<open>One \<open>read\<close> returns at most the space left in the buffer, which is one byte larger than a secret.\<close>

fun read_pipe_loop :: "bytes \<Rightarrow> PipeRead list \<Rightarrow> PipeEnd \<Rightarrow> bytes result" where
  "read_pipe_loop used [] Pipe_closed = Inr used"
| "read_pipe_loop used [] Pipe_would_block =
     Inl (InvalidArgument ''Secret pipe must be closed before submission'')"
| "read_pipe_loop used [] Pipe_error = Inl (SystemError ''read secret pipe'')"
| "read_pipe_loop used (Pipe_interrupted # rs) final = read_pipe_loop used rs final"
| "read_pipe_loop used (Pipe_data data # rs) final =
     (let got = take (MAX_SECRET_SIZE + 1 - length used) data in
      if got = [] then Inr used
      else if length (used @ got) > MAX_SECRET_SIZE then Inl (InvalidArgument ''Secret is too long'')
      else read_pipe_loop (used @ got) rs final)"

definition read_secret_pipe :: "SecretPipe \<Rightarrow> bytes result" where
  "read_secret_pipe pipe =
     (if pipe_fd pipe < 0 then Inl (InvalidArgument ''Secret pipe descriptor is invalid'')
      else if \<not> pipe_stat_ok pipe then Inl (SystemError ''inspect secret pipe'')
      else if \<not> pipe_is_fifo pipe then Inl (InvalidArgument ''Secret descriptor is not a pipe'')
      else if \<not> pipe_nonblocking_ok pipe then Inl (SystemError ''make secret pipe nonblocking'')
      else
        bind_result (read_pipe_loop [] (pipe_reads pipe) (pipe_end pipe)) (\<lambda>secret.
          if 0 \<in> set secret then Inl (InvalidArgument ''Secret contains a NUL byte'') else Inr secret))"

section \<open>Lemmas\<close>

lemma active_local_session_iff:
  "is_active_local_session logind session_id uid \<longleftrightarrow>
     session_id \<noteq> [] \<and> fst (sd_session_get_uid logind session_id) \<ge> 0 \<and>
     snd (sd_session_get_uid logind session_id) = uid \<and>
     sd_session_is_active logind session_id > 0 \<and> sd_session_is_remote logind session_id = 0"
  by (auto simp: is_active_local_session_def require_active_local_session_def query_login_session_def
      validate_active_local_session_def bind_result_def Let_def split: sum.splits prod.splits if_splits)

lemma session_is_still_active_session:
  "session_is_still_active logind user \<Longrightarrow> \<exists>session. uc_session user = Some session \<and> us_sessionId session \<noteq> []"
  by (auto simp: session_is_still_active_def active_local_session_iff split: option.splits)

text \<open>An account whose name fits some buffer the loop tries is found.\<close>

lemma account_loop_found:
  assumes "\<And>size. size \<ge> need \<Longrightarrow> lookup size = Account_found entry"
    and "\<And>size. size < need \<Longrightarrow> lookup size = Buffer_too_small"
    and "need \<le> MAX_ACCOUNT_BUFFER_SIZE" "n + 1 \<le> MAX_ACCOUNT_BUFFER_SIZE"
  shows "account_loop lookup missing failed n = Inr entry"
  using assms(1,2,4)
proof (induction lookup missing failed n rule: account_loop.induct)
  case (1 lookup missing failed n)
  show ?case
  proof (cases "n + 1 \<ge> need")
    case True
    with 1(2) show ?thesis by (simp add: account_loop.simps)
  next
    case False
    with assms(3) have grow: "n + 1 \<noteq> MAX_ACCOUNT_BUFFER_SIZE" and small: "lookup (n + 1) = Buffer_too_small"
      using 1(3) by auto
    have fits: "min ((n + 1) * 2) MAX_ACCOUNT_BUFFER_SIZE - 1 + 1 \<le> MAX_ACCOUNT_BUFFER_SIZE"
      by (simp add: MAX_ACCOUNT_BUFFER_SIZE_def)
    from 1(1) [OF refl small grow 1(2,3) fits] grow small show ?thesis
      by (subst account_loop.simps) (simp add: Let_def)
  qed
qed

text \<open>An answer of the loop is an answer of the database.\<close>

lemma account_loop_Inr:
  "account_loop lookup missing failed n = Inr entry \<Longrightarrow> \<exists>size. lookup size = Account_found entry"
proof (induction lookup missing failed n rule: account_loop.induct)
  case (1 lookup missing failed n)
  from 1(2) show ?case
    by (subst (asm) account_loop.simps) (auto simp: Let_def split: AccountLookup.splits if_splits
        dest: 1(1) [OF refl, simplified])
qed

lemma resolve_peer_Inr:
  assumes "resolve_peer bus logind accounts call = Inr peer"
  shows "call_sender call = Some (peer_busName peer)" "is_unique_name (call_sender call)"
    "call_euid call = Inr (peer_uid peer)"
    "is_active_local_session logind (peer_sessionId peer) (peer_uid peer)"
  using assms
  by (auto simp: resolve_peer_def authenticate_bus_peer_def bind_result_def Let_def is_active_local_session_def
      is_unique_name_def split: sum.splits if_splits option.splits list.splits)

lemma read_pipe_loop_bound:
  "read_pipe_loop used rs final = Inr secret \<Longrightarrow> length used \<le> MAX_SECRET_SIZE \<Longrightarrow> length secret \<le> MAX_SECRET_SIZE"
  by (induction used rs final rule: read_pipe_loop.induct) (auto simp: Let_def split: if_splits)

lemma read_secret_pipe_Inr:
  "read_secret_pipe pipe = Inr secret \<Longrightarrow> length secret \<le> MAX_SECRET_SIZE \<and> 0 \<notin> set secret"
  using read_pipe_loop_bound [of "[]" "pipe_reads pipe" "pipe_end pipe" secret]
  by (auto simp: read_secret_pipe_def bind_result_def split: if_splits sum.splits)

end
