(* ===== verification/Interaction_Registry.thy ===== *)
theory Interaction_Registry
  imports User_Context Verifier_Protocol
begin

text \<open>
  The registry of the one pending user interaction (\<open>dbus/interaction_registry.cpp\<close>).  Each
  operation holds the registry's mutex for its whole body, so it is one function on the registry; the
  two waiting operations release it between the passes of their loops, so a pass is one function and
  the loop is a recursion over what the waiting thread finds each time it wakes up.
  Histories of operations, most recent first, carry the properties: who answered what, and when.
\<close>

section \<open>State\<close>

record PendingInteraction =
  pi_requestId :: u64
  pi_user :: UserContextBinding
  pi_operation :: UserInteractionOperation
  pi_relyingPartyId :: string
  pi_state :: "UserInteractionState option"
  pi_message :: string
  pi_promptId :: u64
  pi_presenceResponse :: "bool option"
  pi_secretSubmitted :: bool
  pi_cancelRequested :: bool
  pi_responseClosed :: bool

datatype PresenceWaitResult =
    presence_wait_approved | presence_wait_denied | presence_client_cancelled
  | presence_platform_cancelled | presence_timed_out | presence_invalidated

text \<open>The status of a secret wait with its secret, which only \<open>provided\<close> has.\<close>

datatype SecretWaitResult =
    secret_provided bytes | secret_client_cancelled
  | secret_platform_cancelled | secret_timed_out | secret_invalidated

record InteractionTransition =
  shouldPublish :: bool
  tr_promptId :: u64

record InteractionRegistry =
  ir_current :: "PendingInteraction option"
  ir_secretResponse :: "bytes option"
  ir_nextRequestId :: u64
  ir_nextPromptId :: u64

definition initial_interactions :: InteractionRegistry where
  "initial_interactions =
     \<lparr>ir_current = None, ir_secretResponse = None, ir_nextRequestId = 1, ir_nextPromptId = 1\<rparr>"

section \<open>Helpers\<close>

definition same_user :: "UserContextBinding \<Rightarrow> UserContext \<Rightarrow> bool" where
  "same_user binding user \<longleftrightarrow>
     (if ub_uid binding \<noteq> uc_uid user then False
      else if (ub_session binding \<noteq> None) \<noteq> (uc_session user \<noteq> None) then False
      else if ub_session binding = None then True
      else the (ub_session binding) = the (uc_session user))"

primrec is_terminal :: "UserInteractionState \<Rightarrow> bool" where
  "is_terminal presence_approved = True"
| "is_terminal presence_denied = True"
| "is_terminal verification_succeeded = True"
| "is_terminal verification_failed = True"
| "is_terminal interaction_cancelled = True"
| "is_terminal timed_out = True"
| "is_terminal presence_required = False"
| "is_terminal verification_started = False"
| "is_terminal verification_information = False"
| "is_terminal verification_error = False"
| "is_terminal secret_required = False"

primrec is_verification_progress :: "UserInteractionState \<Rightarrow> bool" where
  "is_verification_progress verification_started = True"
| "is_verification_progress verification_information = True"
| "is_verification_progress verification_error = True"
| "is_verification_progress secret_required = True"
| "is_verification_progress presence_required = False"
| "is_verification_progress presence_approved = False"
| "is_verification_progress presence_denied = False"
| "is_verification_progress verification_succeeded = False"
| "is_verification_progress verification_failed = False"
| "is_verification_progress interaction_cancelled = False"
| "is_verification_progress timed_out = False"

definition valid_transition :: "UserInteractionState option \<Rightarrow> UserInteractionState \<Rightarrow> bool" where
  "valid_transition previous state =
     (case previous of
        None \<Rightarrow> state = presence_required \<or> state = verification_started
      | Some p \<Rightarrow>
          if p = presence_required then
            state = presence_approved \<or> state = presence_denied \<or>
            state = interaction_cancelled \<or> state = timed_out
          else if is_verification_progress p then
            is_verification_progress state \<or> state = verification_succeeded \<or>
            state = verification_failed \<or> state = interaction_cancelled \<or> state = timed_out
          else False)"

text \<open>The check that a request is the current one of its user.\<close>

definition is_pending :: "PendingInteraction \<Rightarrow> UserContext \<Rightarrow> u64 \<Rightarrow> bool" where
  "is_pending p user request_id \<longleftrightarrow> pi_requestId p = request_id \<and> same_user (pi_user p) user"

section \<open>Operations\<close>

definition begin_interaction ::
    "UserContext \<Rightarrow> UserInteractionOperation \<Rightarrow> string \<Rightarrow> InteractionRegistry \<Rightarrow>
     u64 result \<times> InteractionRegistry" where
  "begin_interaction user operation relying_party_id reg =
     (if ir_current reg \<noteq> None then
        (Inl (RuntimeError ''Another interaction is already pending''), reg)
      else if ir_nextRequestId reg = 0 \<or> ir_nextRequestId reg = -1 then
        (Inl (OverflowError ''Interaction request ID is exhausted''), reg)
      else
        let request_id = ir_nextRequestId reg in
        (Inr request_id,
         reg\<lparr>ir_nextRequestId := ir_nextRequestId reg + 1,
             ir_current := Some \<lparr>pi_requestId = request_id, pi_user = context_binding user,
               pi_operation = operation, pi_relyingPartyId = relying_party_id, pi_state = None,
               pi_message = [], pi_promptId = 0, pi_presenceResponse = None,
               pi_secretSubmitted = False, pi_cancelRequested = False, pi_responseClosed = False\<rparr>,
             ir_secretResponse := None\<rparr>))"

text \<open>The part of \<open>transition\<close> after its checks.\<close>

definition enter_state ::
    "UserInteractionState \<Rightarrow> string \<Rightarrow> PendingInteraction \<Rightarrow> InteractionRegistry \<Rightarrow>
     InteractionTransition \<times> InteractionRegistry" where
  "enter_state state message p reg =
     (let p1 = p\<lparr>pi_state := Some state, pi_message := message\<rparr>;
          prompt_id = (if state = secret_required then ir_nextPromptId reg else 0);
          reg1 = (if state = secret_required then
                    reg\<lparr>ir_nextPromptId := ir_nextPromptId reg + 1,
                        ir_current := Some (p1\<lparr>pi_promptId := prompt_id, pi_secretSubmitted := False\<rparr>),
                        ir_secretResponse := None\<rparr>
                  else reg\<lparr>ir_current := Some (p1\<lparr>pi_promptId := 0\<rparr>)\<rparr>);
          reg2 = (if is_terminal state then reg1\<lparr>ir_current := None, ir_secretResponse := None\<rparr> else reg1)
      in (\<lparr>shouldPublish = True, tr_promptId = prompt_id\<rparr>, reg2))"

definition transition ::
    "UserContext \<Rightarrow> u64 \<Rightarrow> UserInteractionState \<Rightarrow> string \<Rightarrow> InteractionRegistry \<Rightarrow>
     InteractionTransition result \<times> InteractionRegistry" where
  "transition user request_id state message reg =
     (case ir_current reg of
        None \<Rightarrow> (Inl (RuntimeError ''Interaction request is no longer current''), reg)
      | Some p \<Rightarrow>
          if request_id = 0 \<or> \<not> is_pending p user request_id then
            (Inl (RuntimeError ''Interaction request is no longer current''), reg)
          else if \<not> valid_transition (pi_state p) state then
            (Inl (LogicError ''Invalid interaction state transition''), reg)
          else if \<not> (state = verification_information \<or> state = verification_error \<or>
                     state = secret_required) \<and> message \<noteq> [] then
            (Inl (InvalidArgument ''Interaction state does not accept display text''), reg)
          else if length message > MAX_VERIFICATION_TEXT_SIZE then
            (Inl (InvalidArgument ''Interaction display text exceeds the protocol limit''), reg)
          else if state = secret_required \<and> (ir_nextPromptId reg = 0 \<or> ir_nextPromptId reg = -1) then
            (Inl (OverflowError ''Interaction prompt ID is exhausted''), reg)
          else if pi_cancelRequested p \<and> state \<noteq> interaction_cancelled then
            (Inr \<lparr>shouldPublish = False, tr_promptId = 0\<rparr>, reg)
          else (case enter_state state message p reg of (t, reg') \<Rightarrow> (Inr t, reg')))"

definition respond_to_presence ::
    "UserContext \<Rightarrow> u64 \<Rightarrow> bool \<Rightarrow> InteractionRegistry \<Rightarrow> unit result \<times> InteractionRegistry" where
  "respond_to_presence user request_id response reg =
     (case ir_current reg of
        None \<Rightarrow> (Inl (RuntimeError ''Presence response is not currently accepted''), reg)
      | Some p \<Rightarrow>
          if request_id = 0 \<or> \<not> is_pending p user request_id \<or>
             pi_state p \<noteq> Some presence_required \<or> pi_responseClosed p then
            (Inl (RuntimeError ''Presence response is not currently accepted''), reg)
          else
            (Inr (), reg\<lparr>ir_current := Some (p\<lparr>pi_presenceResponse := Some response,
                                             pi_responseClosed := True\<rparr>)\<rparr>))"

definition submit_secret ::
    "UserContext \<Rightarrow> u64 \<Rightarrow> u64 \<Rightarrow> bytes \<Rightarrow> InteractionRegistry \<Rightarrow> unit result \<times> InteractionRegistry" where
  "submit_secret user request_id prompt_id secret reg =
     (case ir_current reg of
        None \<Rightarrow> (Inl (RuntimeError ''Secret response is not currently accepted''), reg)
      | Some p \<Rightarrow>
          if request_id = 0 \<or> prompt_id = 0 \<or> \<not> is_pending p user request_id \<or>
             pi_promptId p \<noteq> prompt_id \<or> pi_state p \<noteq> Some secret_required \<or>
             pi_secretSubmitted p \<or> pi_cancelRequested p then
            (Inl (RuntimeError ''Secret response is not currently accepted''), reg)
          else
            (Inr (), reg\<lparr>ir_current := Some (p\<lparr>pi_secretSubmitted := True\<rparr>),
                         ir_secretResponse := Some secret\<rparr>))"

definition request_cancel ::
    "UserContext \<Rightarrow> u64 \<Rightarrow> InteractionRegistry \<Rightarrow> unit result \<times> InteractionRegistry" where
  "request_cancel user request_id reg =
     (case ir_current reg of
        None \<Rightarrow> (Inl (RuntimeError ''Interaction cancellation is not accepted''), reg)
      | Some p \<Rightarrow>
          if request_id = 0 \<or> \<not> is_pending p user request_id \<or> pi_state p = None \<or>
             pi_responseClosed p then
            (Inl (RuntimeError ''Interaction cancellation is not accepted''), reg)
          else
            (Inr (), reg\<lparr>ir_current := Some (p\<lparr>pi_cancelRequested := True, pi_responseClosed := True\<rparr>)\<rparr>))"

text \<open>One pass of the loop of \<open>wait_for_presence\<close>; \<open>None\<close> means that the thread goes to sleep.\<close>

definition presence_check ::
    "UserContext \<Rightarrow> u64 \<Rightarrow> bool \<Rightarrow> time \<Rightarrow> time \<Rightarrow> InteractionRegistry \<Rightarrow>
     PresenceWaitResult option \<times> InteractionRegistry" where
  "presence_check user request_id stop deadline now reg =
     (case ir_current reg of
        None \<Rightarrow> (Some presence_invalidated, reg)
      | Some p \<Rightarrow>
          let closed = reg\<lparr>ir_current := Some (p\<lparr>pi_responseClosed := True\<rparr>)\<rparr> in
          if \<not> is_pending p user request_id then (Some presence_invalidated, reg)
          else if stop then (Some presence_platform_cancelled, closed)
          else if pi_cancelRequested p then (Some presence_client_cancelled, reg)
          else case pi_presenceResponse p of
            Some r \<Rightarrow> (Some (if r then presence_wait_approved else presence_wait_denied), reg)
          | None \<Rightarrow>
              if now \<ge> deadline then (Some presence_timed_out, closed) else (None, reg))"

text \<open>One pass of the loop of \<open>wait_for_secret\<close>.\<close>

definition secret_check ::
    "UserContext \<Rightarrow> u64 \<Rightarrow> u64 \<Rightarrow> bool \<Rightarrow> time \<Rightarrow> time \<Rightarrow> InteractionRegistry \<Rightarrow>
     SecretWaitResult option \<times> InteractionRegistry" where
  "secret_check user request_id prompt_id stop deadline now reg =
     (case ir_current reg of
        None \<Rightarrow> (Some secret_invalidated, reg)
      | Some p \<Rightarrow>
          let closed = reg\<lparr>ir_current := Some (p\<lparr>pi_responseClosed := True\<rparr>)\<rparr> in
          if prompt_id = 0 \<or> \<not> is_pending p user request_id \<or> pi_promptId p \<noteq> prompt_id then
            (Some secret_invalidated, reg)
          else if stop then (Some secret_platform_cancelled, closed)
          else if pi_cancelRequested p then (Some secret_client_cancelled, reg)
          else case ir_secretResponse reg of
            Some secret \<Rightarrow> (Some (secret_provided secret), reg\<lparr>ir_secretResponse := None\<rparr>)
          | None \<Rightarrow>
              if now \<ge> deadline then (Some secret_timed_out, closed) else (None, reg))"

text \<open>
  What the waiting thread finds each time it holds the mutex: whether its stop token is set, the
  time, and the registry as the other threads left it.  The loops return the result together with the
  registry they leave, or \<open>None\<close> when they still wait after the last of the wake-ups given.
\<close>

record Wakeup =
  wk_stop :: bool
  wk_now :: time
  wk_registry :: InteractionRegistry

fun presence_loop ::
    "UserContext \<Rightarrow> u64 \<Rightarrow> time \<Rightarrow> Wakeup list \<Rightarrow> (PresenceWaitResult \<times> InteractionRegistry) option" where
  "presence_loop user request_id deadline [] = None"
| "presence_loop user request_id deadline (w # ws) =
     (case presence_check user request_id (wk_stop w) deadline (wk_now w) (wk_registry w) of
        (Some r, reg') \<Rightarrow> Some (r, reg')
      | (None, _) \<Rightarrow> presence_loop user request_id deadline ws)"

definition wait_for_presence ::
    "UserContext \<Rightarrow> u64 \<Rightarrow> int \<Rightarrow> time \<Rightarrow> Wakeup list \<Rightarrow>
     (PresenceWaitResult \<times> InteractionRegistry) option result" where
  "wait_for_presence user request_id timeout now wakeups =
     (if timeout \<le> 0 then Inl (InvalidArgument ''Presence timeout must be positive'')
      else Inr (presence_loop user request_id (now + nat timeout) wakeups))"

fun secret_loop ::
    "UserContext \<Rightarrow> u64 \<Rightarrow> u64 \<Rightarrow> time \<Rightarrow> Wakeup list \<Rightarrow> (SecretWaitResult \<times> InteractionRegistry) option" where
  "secret_loop user request_id prompt_id deadline [] = None"
| "secret_loop user request_id prompt_id deadline (w # ws) =
     (case secret_check user request_id prompt_id (wk_stop w) deadline (wk_now w) (wk_registry w) of
        (Some r, reg') \<Rightarrow> Some (r, reg')
      | (None, _) \<Rightarrow> secret_loop user request_id prompt_id deadline ws)"

definition wait_for_secret ::
    "UserContext \<Rightarrow> u64 \<Rightarrow> u64 \<Rightarrow> int \<Rightarrow> time \<Rightarrow> Wakeup list \<Rightarrow>
     (SecretWaitResult \<times> InteractionRegistry) option result" where
  "wait_for_secret user request_id prompt_id timeout now wakeups =
     (if timeout \<le> 0 then Inl (InvalidArgument ''Secret timeout must be positive'')
      else Inr (secret_loop user request_id prompt_id (now + nat timeout) wakeups))"

definition cancellation_requested :: "UserContext \<Rightarrow> u64 \<Rightarrow> InteractionRegistry \<Rightarrow> bool" where
  "cancellation_requested user request_id reg \<longleftrightarrow>
     (case ir_current reg of
        None \<Rightarrow> True
      | Some p \<Rightarrow> request_id = 0 \<or> \<not> is_pending p user request_id \<or> pi_cancelRequested p)"

definition end_interaction :: "UserContext \<Rightarrow> u64 \<Rightarrow> InteractionRegistry \<Rightarrow> bool \<times> InteractionRegistry" where
  "end_interaction user request_id reg =
     (case ir_current reg of
        None \<Rightarrow> (False, reg)
      | Some p \<Rightarrow>
          if request_id = 0 \<or> \<not> is_pending p user request_id then (False, reg)
          else (True, reg\<lparr>ir_current := None, ir_secretResponse := None\<rparr>))"

definition clear_for :: "UserContext \<Rightarrow> InteractionRegistry \<Rightarrow> InteractionRegistry" where
  "clear_for user reg =
     (case ir_current reg of
        None \<Rightarrow> reg
      | Some p \<Rightarrow>
          if same_user (pi_user p) user then reg\<lparr>ir_current := None, ir_secretResponse := None\<rparr>
          else reg)"

definition current_interaction :: "InteractionRegistry \<Rightarrow> PendingInteraction option" where
  "current_interaction reg = ir_current reg"

section \<open>Histories\<close>

datatype InteractionEvent =
    Began u64 UserContextBinding
  | Published u64 UserInteractionState u64
  | PresenceGiven u64 UserContextBinding bool
  | SecretGiven u64 UserContextBinding u64 bytes
  | CancelAsked u64 UserContextBinding
  | PresenceReturned u64 UserContextBinding PresenceWaitResult
  | SecretReturned u64 UserContextBinding u64 SecretWaitResult

inductive interaction_run :: "InteractionEvent list \<Rightarrow> InteractionRegistry \<Rightarrow> bool" where
  start: "interaction_run [] initial_interactions"
| begun: "interaction_run es reg \<Longrightarrow> begin_interaction user operation rp reg = (Inr i, reg') \<Longrightarrow>
     interaction_run (Began i (context_binding user) # es) reg'"
| published: "interaction_run es reg \<Longrightarrow> transition user i state message reg = (Inr t, reg') \<Longrightarrow>
     shouldPublish t \<Longrightarrow> interaction_run (Published i state (tr_promptId t) # es) reg'"
| suppressed: "interaction_run es reg \<Longrightarrow> transition user i state message reg = (Inr t, reg') \<Longrightarrow>
     \<not> shouldPublish t \<Longrightarrow> interaction_run es reg'"
| responded: "interaction_run es reg \<Longrightarrow> respond_to_presence user i response reg = (Inr u, reg') \<Longrightarrow>
     interaction_run (PresenceGiven i (context_binding user) response # es) reg'"
| submitted: "interaction_run es reg \<Longrightarrow> submit_secret user i prompt secret reg = (Inr u, reg') \<Longrightarrow>
     interaction_run (SecretGiven i (context_binding user) prompt secret # es) reg'"
| cancel: "interaction_run es reg \<Longrightarrow> request_cancel user i reg = (Inr u, reg') \<Longrightarrow>
     interaction_run (CancelAsked i (context_binding user) # es) reg'"
| presence_waited: "interaction_run es reg \<Longrightarrow> presence_check user i stop deadline now reg = (Some r, reg') \<Longrightarrow>
     interaction_run (PresenceReturned i (context_binding user) r # es) reg'"
| secret_waited: "interaction_run es reg \<Longrightarrow> secret_check user i prompt stop deadline now reg = (Some r, reg') \<Longrightarrow>
     interaction_run (SecretReturned i (context_binding user) prompt r # es) reg'"
| ended: "interaction_run es reg \<Longrightarrow> end_interaction user i reg = (b, reg') \<Longrightarrow> interaction_run es reg'"
| cleared: "interaction_run es reg \<Longrightarrow> interaction_run es (clear_for user reg)"

text \<open>The last state published for a request and the prompt published with it.\<close>

fun last_published :: "u64 \<Rightarrow> InteractionEvent list \<Rightarrow> (UserInteractionState \<times> u64) option" where
  "last_published i [] = None"
| "last_published i (Published j state prompt # es) =
     (if j = i then Some (state, prompt) else last_published i es)"
| "last_published i (_ # es) = last_published i es"

text \<open>The request and the prompt an accepted action is about; a refused wait is about none.\<close>

fun event_request :: "InteractionEvent \<Rightarrow> u64" where
  "event_request (Began i _) = i"
| "event_request (Published i _ _) = i"
| "event_request (PresenceGiven i _ _) = i"
| "event_request (SecretGiven i _ _ _) = i"
| "event_request (CancelAsked i _) = i"
| "event_request (PresenceReturned i _ r) = (if r = presence_invalidated then 0 else i)"
| "event_request (SecretReturned i _ _ r) = (if r = secret_invalidated then 0 else i)"

fun event_prompt :: "InteractionEvent \<Rightarrow> u64" where
  "event_prompt (Published _ _ prompt) = prompt"
| "event_prompt (SecretGiven _ _ prompt _) = prompt"
| "event_prompt (SecretReturned _ _ prompt r) = (if r = secret_invalidated then 0 else prompt)"
| "event_prompt _ = 0"

definition asked_to_cancel :: "u64 \<Rightarrow> InteractionEvent list \<Rightarrow> bool" where
  "asked_to_cancel i es \<longleftrightarrow> (\<exists>b. CancelAsked i b \<in> set es)"

definition presence_given :: "u64 \<Rightarrow> InteractionEvent list \<Rightarrow> bool" where
  "presence_given i es \<longleftrightarrow> (\<exists>b r. PresenceGiven i b r \<in> set es)"

definition presence_closed :: "u64 \<Rightarrow> InteractionEvent list \<Rightarrow> bool" where
  "presence_closed i es \<longleftrightarrow>
     (\<exists>b r. PresenceReturned i b r \<in> set es \<and> r \<in> {presence_timed_out, presence_platform_cancelled})"

definition secret_given :: "u64 \<Rightarrow> InteractionEvent list \<Rightarrow> bool" where
  "secret_given prompt es \<longleftrightarrow> (\<exists>i b s. SecretGiven i b prompt s \<in> set es)"

definition secret_used :: "u64 \<Rightarrow> InteractionEvent list \<Rightarrow> bool" where
  "secret_used prompt es \<longleftrightarrow> (\<exists>i b s. SecretReturned i b prompt (secret_provided s) \<in> set es)"

text \<open>What must have happened before an event for it to be legitimate.\<close>

fun justified :: "InteractionEvent \<Rightarrow> InteractionEvent list \<Rightarrow> bool" where
  "justified (Began i b) es \<longleftrightarrow> (\<forall>e \<in> set es. event_request e < i)"
| "justified (Published i state prompt) es \<longleftrightarrow>
     (\<exists>b. Began i b \<in> set es) \<and>
     valid_transition (map_option fst (last_published i es)) state \<and>
     (asked_to_cancel i es \<longrightarrow> state = interaction_cancelled) \<and>
     (prompt \<noteq> 0 \<longleftrightarrow> state = secret_required) \<and>
     (prompt \<noteq> 0 \<longrightarrow> (\<forall>e \<in> set es. event_prompt e < prompt))"
| "justified (PresenceGiven i b r) es \<longleftrightarrow>
     Began i b \<in> set es \<and> map_option fst (last_published i es) = Some presence_required \<and>
     \<not> presence_given i es \<and> \<not> asked_to_cancel i es \<and> \<not> presence_closed i es"
| "justified (SecretGiven i b prompt s) es \<longleftrightarrow>
     Began i b \<in> set es \<and> last_published i es = Some (secret_required, prompt) \<and>
     \<not> secret_given prompt es \<and> \<not> asked_to_cancel i es"
| "justified (CancelAsked i b) es \<longleftrightarrow>
     Began i b \<in> set es \<and> last_published i es \<noteq> None \<and> \<not> presence_given i es \<and> \<not> asked_to_cancel i es"
| "justified (PresenceReturned i b r) es \<longleftrightarrow>
     (r = presence_wait_approved \<longrightarrow> PresenceGiven i b True \<in> set es \<and> \<not> asked_to_cancel i es) \<and>
     (r = presence_wait_denied \<longrightarrow> PresenceGiven i b False \<in> set es \<and> \<not> asked_to_cancel i es) \<and>
     (r = presence_client_cancelled \<longrightarrow> CancelAsked i b \<in> set es) \<and>
     (r = presence_timed_out \<longrightarrow> \<not> presence_given i es \<and> \<not> asked_to_cancel i es)"
| "justified (SecretReturned i b prompt r) es \<longleftrightarrow>
     (\<forall>s. r = secret_provided s \<longrightarrow>
        SecretGiven i b prompt s \<in> set es \<and> last_published i es = Some (secret_required, prompt) \<and>
        \<not> secret_used prompt es \<and> \<not> asked_to_cancel i es) \<and>
     (r = secret_client_cancelled \<longrightarrow> CancelAsked i b \<in> set es)"

primrec legitimate :: "InteractionEvent list \<Rightarrow> bool" where
  "legitimate [] = True"
| "legitimate (e # es) \<longleftrightarrow> justified e es \<and> legitimate es"

section \<open>The history recorded in the registry\<close>

definition pending_ok :: "InteractionEvent list \<Rightarrow> InteractionRegistry \<Rightarrow> PendingInteraction \<Rightarrow> bool" where
  "pending_ok es reg p \<longleftrightarrow>
     pi_requestId p < ir_nextRequestId reg \<and> pi_requestId p \<noteq> 0 \<and>
     Began (pi_requestId p) (pi_user p) \<in> set es \<and>
     last_published (pi_requestId p) es = map_option (\<lambda>state. (state, pi_promptId p)) (pi_state p) \<and>
     (pi_state p = Some secret_required \<longleftrightarrow> pi_promptId p \<noteq> 0) \<and>
     pi_promptId p < ir_nextPromptId reg \<and>
     (\<forall>b. CancelAsked (pi_requestId p) b \<in> set es \<longleftrightarrow> b = pi_user p \<and> pi_cancelRequested p) \<and>
     (\<forall>b r. PresenceGiven (pi_requestId p) b r \<in> set es \<longleftrightarrow>
        b = pi_user p \<and> pi_presenceResponse p = Some r) \<and>
     (pi_presenceResponse p \<noteq> None \<or> pi_cancelRequested p \<or> presence_closed (pi_requestId p) es \<longrightarrow>
        pi_responseClosed p) \<and>
     (pi_promptId p \<noteq> 0 \<longrightarrow>
        (secret_given (pi_promptId p) es \<longleftrightarrow> pi_secretSubmitted p) \<and>
        (secret_used (pi_promptId p) es \<longrightarrow> pi_secretSubmitted p \<and> ir_secretResponse reg = None) \<and>
        (\<forall>s. ir_secretResponse reg = Some s \<longrightarrow>
           SecretGiven (pi_requestId p) (pi_user p) (pi_promptId p) s \<in> set es))"

definition registry_ok :: "InteractionEvent list \<Rightarrow> InteractionRegistry \<Rightarrow> bool" where
  "registry_ok es reg \<longleftrightarrow>
     ir_nextRequestId reg \<noteq> 0 \<and> ir_nextPromptId reg \<noteq> 0 \<and>
     (\<forall>e \<in> set es. event_request e < ir_nextRequestId reg \<and> event_prompt e < ir_nextPromptId reg) \<and>
     (case ir_current reg of
        None \<Rightarrow> ir_secretResponse reg = None
      | Some p \<Rightarrow> pending_ok es reg p)"

section \<open>Lemmas\<close>

lemma same_user_iff: "same_user b user \<longleftrightarrow> b = context_binding user"
  by (cases b; cases "uc_session user")
    (auto simp: same_user_def context_binding_def)

lemma is_pending_iff: "is_pending p user i \<longleftrightarrow> pi_requestId p = i \<and> pi_user p = context_binding user"
  by (simp add: is_pending_def same_user_iff)

lemma fresh_request:
  assumes "\<forall>e \<in> set es. event_request e < i"
  shows "last_published i es = None" "CancelAsked i b \<notin> set es" "PresenceGiven i b r \<notin> set es"
    "\<not> presence_closed i es"
proof -
  show "last_published i es = None"
    using assms by (induction i es rule: last_published.induct) auto
  show "CancelAsked i b \<notin> set es" "PresenceGiven i b r \<notin> set es" "\<not> presence_closed i es"
    using assms by (force simp: presence_closed_def)+
qed

lemma fresh_prompt:
  assumes "\<forall>e \<in> set es. event_prompt e < q"
  shows "\<not> secret_given q es" "\<not> secret_used q es"
  using assms by (force simp: secret_given_def secret_used_def)+

lemma u64_increase: "w \<noteq> -1 \<Longrightarrow> w < (w + 1 :: u64)" "w \<noteq> -1 \<Longrightarrow> w + 1 \<noteq> (0 :: u64)"
proof -
  assume *: "w \<noteq> -1"
  show "w < w + 1" using u64_succ [OF *] by (simp add: word_less_nat_alt)
  show "w + 1 \<noteq> 0" using * by (metis add_eq_0_iff minus_equation_iff)
qed

lemmas history_simps =
  asked_to_cancel_def presence_given_def presence_closed_def secret_given_def secret_used_def

lemma begin_interaction_ok:
  assumes ok: "registry_ok es reg" and step: "begin_interaction user operation rp reg = (Inr i, reg')"
  shows "justified (Began i (context_binding user)) es \<and> registry_ok (Began i (context_binding user) # es) reg'"
proof -
  from step have none: "ir_current reg = None" and i: "i = ir_nextRequestId reg" "i \<noteq> -1"
    and reg': "ir_nextRequestId reg' = i + 1" "ir_nextPromptId reg' = ir_nextPromptId reg"
      "ir_secretResponse reg' = None"
      "ir_current reg' = Some \<lparr>pi_requestId = i, pi_user = context_binding user,
               pi_operation = operation, pi_relyingPartyId = rp, pi_state = None,
               pi_message = [], pi_promptId = 0, pi_presenceResponse = None,
               pi_secretSubmitted = False, pi_cancelRequested = False, pi_responseClosed = False\<rparr>"
    by (auto simp: begin_interaction_def Let_def split: if_splits)
  from ok i have below: "\<forall>e \<in> set es. event_request e < i" and nz: "i \<noteq> 0" by (auto simp: registry_ok_def)
  note fresh = fresh_request [OF below]
  have "registry_ok (Began i (context_binding user) # es) reg'"
    using ok below nz fresh u64_increase [OF i(2)]
    by (auto simp: registry_ok_def pending_ok_def reg' i presence_closed_def word_gt_0 intro: less_trans)
  with below show ?thesis by simp
qed

lemma pending_frame:
  assumes "registry_ok es reg" "ir_current reg = Some p"
  shows "pending_ok es reg p" "ir_nextRequestId reg \<noteq> 0" "ir_nextPromptId reg \<noteq> 0"
    "\<forall>e \<in> set es. event_request e < ir_nextRequestId reg \<and> event_prompt e < ir_nextPromptId reg"
  using assms by (auto simp: registry_ok_def)

lemma transition_cases:
  assumes "transition user i state message reg = (Inr t, reg')"
  obtains (suppressed) p where "ir_current reg = Some p" "is_pending p user i" "\<not> shouldPublish t" "reg' = reg"
      "pi_cancelRequested p"
  | (terminal) p where "ir_current reg = Some p" "is_pending p user i" "shouldPublish t"
      "valid_transition (pi_state p) state" "pi_cancelRequested p \<longrightarrow> state = interaction_cancelled"
      "is_terminal state" "tr_promptId t = 0"
      "reg' = reg\<lparr>ir_current := None, ir_secretResponse := None\<rparr>"
  | (prompt) p where "ir_current reg = Some p" "is_pending p user i" "shouldPublish t"
      "valid_transition (pi_state p) state" "pi_cancelRequested p \<longrightarrow> state = interaction_cancelled"
      "state = secret_required" "tr_promptId t = ir_nextPromptId reg" "ir_nextPromptId reg \<noteq> -1"
      "ir_nextPromptId reg' = ir_nextPromptId reg + 1" "ir_nextRequestId reg' = ir_nextRequestId reg"
      "ir_secretResponse reg' = None"
      "ir_current reg' = Some (p\<lparr>pi_state := Some state, pi_message := message,
         pi_promptId := ir_nextPromptId reg, pi_secretSubmitted := False\<rparr>)"
  | (other) p where "ir_current reg = Some p" "is_pending p user i" "shouldPublish t"
      "valid_transition (pi_state p) state" "pi_cancelRequested p \<longrightarrow> state = interaction_cancelled"
      "\<not> is_terminal state" "state \<noteq> secret_required" "tr_promptId t = 0"
      "reg' = reg\<lparr>ir_current := Some (p\<lparr>pi_state := Some state, pi_message := message, pi_promptId := 0\<rparr>)\<rparr>"
proof (cases "ir_current reg")
  case None
  with assms show ?thesis by (simp add: transition_def)
next
  case (Some p)
  show ?thesis
  proof (cases "pi_cancelRequested p \<and> state \<noteq> interaction_cancelled")
    case True
    with Some assms suppressed [of p] show ?thesis by (auto simp: transition_def split: if_splits)
  next
    case False
    with Some assms have t: "(t, reg') = enter_state state message p reg" "is_pending p user i"
      "valid_transition (pi_state p) state" "state = secret_required \<longrightarrow> ir_nextPromptId reg \<noteq> -1"
      by (auto simp: transition_def split: if_splits prod.splits)
    consider "is_terminal state" | "state = secret_required" | "\<not> is_terminal state" "state \<noteq> secret_required"
      by auto
    then show ?thesis
    proof cases
      case 1
      then have "state \<noteq> secret_required" by auto
      with 1 t False Some terminal [of p] show ?thesis by (simp add: enter_state_def Let_def)
    next
      case 2
      with t False Some prompt [of p] show ?thesis by (simp add: enter_state_def Let_def)
    next
      case 3
      with t False Some other [of p] show ?thesis by (simp add: enter_state_def Let_def)
    qed
  qed
qed

lemma last_published_Cons [simp]:
  "(\<And>state q. e \<noteq> Published i state q) \<Longrightarrow> last_published i (e # es) = last_published i es"
  by (cases e) auto

lemma pending_cancel:
  "pending_ok es reg p \<Longrightarrow> asked_to_cancel (pi_requestId p) es \<longleftrightarrow> pi_cancelRequested p"
  by (auto simp: pending_ok_def asked_to_cancel_def)

lemma pending_presence:
  "pending_ok es reg p \<Longrightarrow> presence_given (pi_requestId p) es \<longleftrightarrow> pi_presenceResponse p \<noteq> None"
  by (auto simp: pending_ok_def presence_given_def)

lemma published_justified:
  assumes "pending_ok es reg p" "valid_transition (pi_state p) state"
    "pi_cancelRequested p \<longrightarrow> state = interaction_cancelled"
    "prompt \<noteq> 0 \<longleftrightarrow> state = secret_required" "prompt \<noteq> 0 \<longrightarrow> (\<forall>e \<in> set es. event_prompt e < prompt)"
  shows "justified (Published (pi_requestId p) state prompt) es"
proof -
  have "Began (pi_requestId p) (pi_user p) \<in> set es"
    "map_option fst (last_published (pi_requestId p) es) = pi_state p"
    using assms(1) by (simp_all add: pending_ok_def option.map_comp comp_def option.map_ident)
  with assms(2-5) pending_cancel [OF assms(1)] show ?thesis by auto
qed

lemma published_ok:
  assumes ok: "registry_ok es reg" and step: "transition user i state message reg = (Inr t, reg')"
    and pub: "shouldPublish t"
  shows "justified (Published i state (tr_promptId t)) es \<and>
    registry_ok (Published i state (tr_promptId t) # es) reg'"
  using step
proof (cases rule: transition_cases)
  case (suppressed p)
  with pub show ?thesis by simp
next
  case (terminal p)
  note frame = pending_frame [OF ok terminal(1)]
  from terminal have i: "pi_requestId p = i" by (simp add: is_pending_iff)
  have "justified (Published (pi_requestId p) state 0) es"
    by (rule published_justified [OF frame(1) terminal(4,5)]) (use terminal(6) in auto)
  moreover have "registry_ok (Published i state 0 # es) reg'"
    using frame i terminal(8) by (auto simp: registry_ok_def pending_ok_def word_gt_0)
  ultimately show ?thesis using i terminal(7) by simp
next
  case (prompt p)
  note frame = pending_frame [OF ok prompt(1)]
  let ?q = "ir_nextPromptId reg"
  from prompt have i: "pi_requestId p = i" by (simp add: is_pending_iff)
  from frame(4) have below: "\<forall>e \<in> set es. event_prompt e < ?q" by simp
  note fresh = fresh_prompt [OF below]
  have "justified (Published (pi_requestId p) state ?q) es"
    by (rule published_justified [OF frame(1) prompt(4,5)]) (use prompt(6) frame below in auto)
  moreover have "registry_ok (Published i state ?q # es) reg'"
    using frame i prompt(6,9-12) fresh u64_increase [OF prompt(8)]
    by (auto simp: registry_ok_def pending_ok_def word_gt_0 history_simps intro: less_trans)
  ultimately show ?thesis using i prompt(7) by simp
next
  case (other p)
  note frame = pending_frame [OF ok other(1)]
  from other have i: "pi_requestId p = i" by (simp add: is_pending_iff)
  have "justified (Published (pi_requestId p) state 0) es"
    by (rule published_justified [OF frame(1) other(4,5)]) (use other(7) in auto)
  moreover have "registry_ok (Published i state 0 # es) reg'"
    using frame i other(7,9)
    by (simp add: registry_ok_def pending_ok_def word_gt_0 history_simps)
  ultimately show ?thesis using i other(8) by simp
qed

lemma pending_responses:
  assumes "pending_ok es reg p"
  shows "presence_closed (pi_requestId p) es \<Longrightarrow> pi_responseClosed p"
    "presence_given (pi_requestId p) es \<Longrightarrow> pi_responseClosed p"
    "asked_to_cancel (pi_requestId p) es \<Longrightarrow> pi_responseClosed p"
  using assms by (auto simp: pending_ok_def history_simps)

lemma respond_to_presence_ok:
  assumes ok: "registry_ok es reg" and step: "respond_to_presence user i response reg = (Inr u, reg')"
  shows "justified (PresenceGiven i (context_binding user) response) es \<and>
    registry_ok (PresenceGiven i (context_binding user) response # es) reg'"
proof -
  from step obtain p where p: "ir_current reg = Some p" and i: "pi_requestId p = i"
    and b: "pi_user p = context_binding user" and st: "pi_state p = Some presence_required"
    and open_p: "\<not> pi_responseClosed p"
    and reg': "reg' = reg\<lparr>ir_current := Some (p\<lparr>pi_presenceResponse := Some response, pi_responseClosed := True\<rparr>)\<rparr>"
    by (auto simp: respond_to_presence_def is_pending_iff split: option.splits if_splits)
  note frame = pending_frame [OF ok p]
  have clear: "\<not> presence_closed i es" "\<not> presence_given i es" "\<not> asked_to_cancel i es"
    using pending_responses [OF frame(1)] open_p i by auto
  have "justified (PresenceGiven i (context_binding user) response) es"
    using frame(1) clear i b st by (simp add: pending_ok_def)
  moreover have "registry_ok (PresenceGiven i (context_binding user) response # es) reg'"
    using frame clear i b st
    by (auto simp: registry_ok_def pending_ok_def reg' word_gt_0 history_simps)
  ultimately show ?thesis ..
qed

lemma submit_secret_ok:
  assumes ok: "registry_ok es reg" and step: "submit_secret user i q secret reg = (Inr u, reg')"
  shows "justified (SecretGiven i (context_binding user) q secret) es \<and>
    registry_ok (SecretGiven i (context_binding user) q secret # es) reg'"
proof -
  from step obtain p where p: "ir_current reg = Some p" and i: "pi_requestId p = i"
    and b: "pi_user p = context_binding user" and st: "pi_state p = Some secret_required"
    and q: "pi_promptId p = q" "q \<noteq> 0" and unsent: "\<not> pi_secretSubmitted p" "\<not> pi_cancelRequested p"
    and reg': "reg' = reg\<lparr>ir_current := Some (p\<lparr>pi_secretSubmitted := True\<rparr>), ir_secretResponse := Some secret\<rparr>"
    by (auto simp: submit_secret_def is_pending_iff split: option.splits if_splits)
  note frame = pending_frame [OF ok p]
  have clear: "\<not> secret_given q es" "\<not> secret_used q es" "\<not> asked_to_cancel i es"
    using frame(1) unsent pending_cancel [OF frame(1)] q i by (simp_all add: pending_ok_def)
  have "justified (SecretGiven i (context_binding user) q secret) es"
    using frame(1) clear i b st q by (simp add: pending_ok_def)
  moreover have "registry_ok (SecretGiven i (context_binding user) q secret # es) reg'"
    using frame clear i b st q
    by (simp add: registry_ok_def pending_ok_def reg' history_simps)
  ultimately show ?thesis ..
qed

lemma request_cancel_ok:
  assumes ok: "registry_ok es reg" and step: "request_cancel user i reg = (Inr u, reg')"
  shows "justified (CancelAsked i (context_binding user)) es \<and>
    registry_ok (CancelAsked i (context_binding user) # es) reg'"
proof -
  from step obtain p where p: "ir_current reg = Some p" and i: "pi_requestId p = i"
    and b: "pi_user p = context_binding user" and st: "pi_state p \<noteq> None"
    and open_p: "\<not> pi_responseClosed p"
    and reg': "reg' = reg\<lparr>ir_current := Some (p\<lparr>pi_cancelRequested := True, pi_responseClosed := True\<rparr>)\<rparr>"
    by (auto simp: request_cancel_def is_pending_iff split: option.splits if_splits)
  note frame = pending_frame [OF ok p]
  have clear: "\<not> presence_given i es" "\<not> asked_to_cancel i es"
    using pending_responses [OF frame(1)] open_p i by auto
  have "justified (CancelAsked i (context_binding user)) es"
    using frame(1) clear i b st by (simp add: pending_ok_def)
  moreover have "registry_ok (CancelAsked i (context_binding user) # es) reg'"
    using frame clear i b
    by (simp add: registry_ok_def pending_ok_def reg' word_gt_0 history_simps)
  ultimately show ?thesis ..
qed

lemma presence_check_cases:
  assumes "presence_check user i stop deadline now reg = (Some r, reg')"
  obtains (invalid) "r = presence_invalidated" "reg' = reg"
  | (closed) p where "ir_current reg = Some p" "is_pending p user i"
      "r = presence_platform_cancelled \<or>
       r = presence_timed_out \<and> \<not> pi_cancelRequested p \<and> pi_presenceResponse p = None \<and> deadline \<le> now"
      "reg' = reg\<lparr>ir_current := Some (p\<lparr>pi_responseClosed := True\<rparr>)\<rparr>"
  | (client) p where "ir_current reg = Some p" "is_pending p user i" "pi_cancelRequested p"
      "r = presence_client_cancelled" "reg' = reg"
  | (answered) p b where "ir_current reg = Some p" "is_pending p user i" "\<not> pi_cancelRequested p"
      "pi_presenceResponse p = Some b" "r = (if b then presence_wait_approved else presence_wait_denied)" "reg' = reg"
proof (cases "ir_current reg")
  case None
  with assms invalid show ?thesis by (simp add: presence_check_def)
next
  case (Some p)
  note step = assms [unfolded presence_check_def]
  consider "\<not> is_pending p user i" | "is_pending p user i" stop
    | "is_pending p user i" "\<not> stop" "pi_cancelRequested p"
    | b where "is_pending p user i" "\<not> stop" "\<not> pi_cancelRequested p" "pi_presenceResponse p = Some b"
    | "is_pending p user i" "\<not> stop" "\<not> pi_cancelRequested p" "pi_presenceResponse p = None"
    by (cases "pi_presenceResponse p") auto
  then show ?thesis
  proof cases
    case 1
    with Some step show ?thesis by (intro invalid) (simp_all add: Let_def)
  next
    case 2
    with Some step show ?thesis by (intro closed [of p]) (simp_all add: Let_def)
  next
    case 3
    with Some step show ?thesis by (intro client [of p]) (simp_all add: Let_def)
  next
    case (4 b)
    with Some step show ?thesis by (intro answered [of p b]) (simp_all add: Let_def)
  next
    case 5
    with Some step show ?thesis by (intro closed [of p]) (simp_all add: Let_def split: if_splits)
  qed
qed

lemma presence_closed_Cons:
  "presence_closed i (e # es) \<longleftrightarrow> presence_closed i es \<or>
     (\<exists>b. e = PresenceReturned i b presence_timed_out \<or> e = PresenceReturned i b presence_platform_cancelled)"
  by (auto simp: presence_closed_def)

lemma secret_used_Cons:
  "secret_used q (e # es) \<longleftrightarrow> secret_used q es \<or> (\<exists>i b s. e = SecretReturned i b q (secret_provided s))"
  by (auto simp: secret_used_def)

lemma secret_given_Cons:
  "secret_given q (e # es) \<longleftrightarrow> secret_given q es \<or> (\<exists>i b s. e = SecretGiven i b q s)"
  by (auto simp: secret_given_def)

lemmas history_Cons = presence_closed_Cons secret_used_Cons secret_given_Cons

lemma presence_returned_ok:
  assumes "pending_ok es reg p" "pi_requestId p = i" "ir_secretResponse reg' = ir_secretResponse reg"
    "ir_nextRequestId reg' = ir_nextRequestId reg" "ir_nextPromptId reg' = ir_nextPromptId reg"
  shows "pending_ok (PresenceReturned i b r # es) reg' (p\<lparr>pi_responseClosed := True\<rparr>)"
    "r \<notin> {presence_timed_out, presence_platform_cancelled} \<Longrightarrow> pending_ok (PresenceReturned i b r # es) reg' p"
  using assms by (simp_all add: pending_ok_def history_Cons)

lemma refused_returned_ok:
  assumes "pending_ok es reg p"
  shows "pending_ok (PresenceReturned i b presence_invalidated # es) reg p"
    "pending_ok (SecretReturned i b q secret_invalidated # es) reg p"
  using assms by (simp_all add: pending_ok_def history_Cons)

lemma registry_ok_Cons:
  assumes ok: "registry_ok es reg"
    and e: "event_request e < ir_nextRequestId reg" "event_prompt e < ir_nextPromptId reg"
    and reg': "ir_nextRequestId reg' = ir_nextRequestId reg" "ir_nextPromptId reg' = ir_nextPromptId reg"
    and current: "case ir_current reg' of None \<Rightarrow> ir_secretResponse reg' = None | Some p \<Rightarrow> pending_ok (e # es) reg' p"
  shows "registry_ok (e # es) reg'"
  using assms by (simp add: registry_ok_def)

lemma presence_check_ok:
  assumes ok: "registry_ok es reg" and step: "presence_check user i stop deadline now reg = (Some r, reg')"
  shows "justified (PresenceReturned i (context_binding user) r) es \<and>
    registry_ok (PresenceReturned i (context_binding user) r # es) reg'"
proof -
  let ?e = "PresenceReturned i (context_binding user) r"
  have nz: "0 < ir_nextRequestId reg" "0 < ir_nextPromptId reg"
    using ok by (simp_all add: registry_ok_def word_gt_0)
  have id: "pi_requestId p < ir_nextRequestId reg" if "ir_current reg = Some p" for p
    using pending_frame(1) [OF ok that] by (simp add: pending_ok_def)
  note cons = registry_ok_Cons [OF ok, where e = ?e and reg' = reg']
  from step show ?thesis
  proof (cases rule: presence_check_cases)
    case invalid
    have "registry_ok (?e # es) reg'"
      using ok invalid nz refused_returned_ok by (intro cons) (auto simp: registry_ok_def split: option.splits)
    with invalid show ?thesis by simp
  next
    case (closed p)
    note frame = pending_frame [OF ok closed(1)]
    have i: "pi_requestId p = i" using closed by (simp add: is_pending_iff)
    have "registry_ok (?e # es) reg'"
      using closed nz id [OF closed(1)] i presence_returned_ok(1) [OF frame(1) i, of reg'] by (intro cons) simp_all
    moreover have "justified ?e es"
      using closed(3) i pending_cancel [OF frame(1)] pending_presence [OF frame(1)] by auto
    ultimately show ?thesis by blast
  next
    case (client p)
    note frame = pending_frame [OF ok client(1)]
    have i: "pi_requestId p = i" "pi_user p = context_binding user" using client by (simp_all add: is_pending_iff)
    have "registry_ok (?e # es) reg'"
      using client nz id [OF client(1)] i presence_returned_ok(2) [OF frame(1) i(1), of reg'] by (intro cons) simp_all
    moreover have "justified ?e es"
      using client i frame(1) by (simp add: pending_ok_def)
    ultimately show ?thesis by blast
  next
    case (answered p b)
    note frame = pending_frame [OF ok answered(1)]
    have i: "pi_requestId p = i" "pi_user p = context_binding user" using answered by (simp_all add: is_pending_iff)
    have "registry_ok (?e # es) reg'"
      using answered nz id [OF answered(1)] i presence_returned_ok(2) [OF frame(1) i(1), of reg']
      by (intro cons) simp_all
    moreover have "\<not> asked_to_cancel i es" "PresenceGiven i (context_binding user) b \<in> set es"
      using pending_cancel [OF frame(1)] answered i frame(1) by (simp_all add: pending_ok_def)
    then have "justified ?e es" using answered(5) by (cases b) simp_all
    ultimately show ?thesis by blast
  qed
qed

lemma secret_check_cases:
  assumes "secret_check user i q stop deadline now reg = (Some r, reg')"
  obtains (invalid) "r = secret_invalidated" "reg' = reg"
  | (closed) p where "ir_current reg = Some p" "is_pending p user i" "pi_promptId p = q" "q \<noteq> 0"
      "r = secret_platform_cancelled \<or> r = secret_timed_out"
      "reg' = reg\<lparr>ir_current := Some (p\<lparr>pi_responseClosed := True\<rparr>)\<rparr>"
  | (client) p where "ir_current reg = Some p" "is_pending p user i" "pi_promptId p = q" "q \<noteq> 0"
      "pi_cancelRequested p" "r = secret_client_cancelled" "reg' = reg"
  | (provided) p secret where "ir_current reg = Some p" "is_pending p user i" "pi_promptId p = q" "q \<noteq> 0"
      "\<not> pi_cancelRequested p" "ir_secretResponse reg = Some secret" "r = secret_provided secret"
      "reg' = reg\<lparr>ir_secretResponse := None\<rparr>"
proof (cases "ir_current reg")
  case None
  with assms invalid show ?thesis by (simp add: secret_check_def)
next
  case (Some p)
  note step = assms [unfolded secret_check_def]
  let ?here = "is_pending p user i \<and> pi_promptId p = q \<and> q \<noteq> 0"
  consider "\<not> ?here" | "?here" stop | "?here" "\<not> stop" "pi_cancelRequested p"
    | secret where "?here" "\<not> stop" "\<not> pi_cancelRequested p" "ir_secretResponse reg = Some secret"
    | "?here" "\<not> stop" "\<not> pi_cancelRequested p" "ir_secretResponse reg = None"
    by (cases "ir_secretResponse reg") auto
  then show ?thesis
  proof cases
    case 1
    with Some step show ?thesis by (intro invalid) (auto simp: Let_def)
  next
    case 2
    with Some step show ?thesis by (intro closed [of p]) (simp_all add: Let_def)
  next
    case 3
    with Some step show ?thesis by (intro client [of p]) (simp_all add: Let_def)
  next
    case (4 secret)
    with Some step show ?thesis by (intro provided [of p secret]) (simp_all add: Let_def)
  next
    case 5
    with Some step show ?thesis by (intro closed [of p]) (simp_all add: Let_def split: if_splits)
  qed
qed

lemma secret_returned_ok:
  assumes "pending_ok es reg p" "pi_requestId p = i"
    "ir_nextRequestId reg' = ir_nextRequestId reg" "ir_nextPromptId reg' = ir_nextPromptId reg"
  shows "ir_secretResponse reg' = ir_secretResponse reg \<Longrightarrow> (\<And>s. r \<noteq> secret_provided s) \<Longrightarrow>
      pending_ok (SecretReturned i b q r # es) reg' (p\<lparr>pi_responseClosed := True\<rparr>)"
    "ir_secretResponse reg' = ir_secretResponse reg \<Longrightarrow> (\<And>s. r \<noteq> secret_provided s) \<Longrightarrow>
      pending_ok (SecretReturned i b q r # es) reg' p"
    "ir_secretResponse reg' = None \<Longrightarrow> ir_secretResponse reg = Some s \<Longrightarrow>
      pending_ok (SecretReturned i b q (secret_provided s) # es) reg' p"
proof -
  show "ir_secretResponse reg' = ir_secretResponse reg \<Longrightarrow> (\<And>s. r \<noteq> secret_provided s) \<Longrightarrow>
      pending_ok (SecretReturned i b q r # es) reg' (p\<lparr>pi_responseClosed := True\<rparr>)"
    "ir_secretResponse reg' = ir_secretResponse reg \<Longrightarrow> (\<And>s. r \<noteq> secret_provided s) \<Longrightarrow>
      pending_ok (SecretReturned i b q r # es) reg' p"
    using assms by (simp_all add: pending_ok_def history_Cons)
  assume *: "ir_secretResponse reg' = None" "ir_secretResponse reg = Some s"
  have "pi_promptId p \<noteq> 0 \<Longrightarrow> pi_secretSubmitted p"
    using assms(1) * secret_given_def by (auto simp: pending_ok_def)
  with assms * show "pending_ok (SecretReturned i b q (secret_provided s) # es) reg' p"
    by (simp add: pending_ok_def history_Cons)
qed

lemma secret_check_ok:
  assumes ok: "registry_ok es reg" and step: "secret_check user i q stop deadline now reg = (Some r, reg')"
  shows "justified (SecretReturned i (context_binding user) q r) es \<and>
    registry_ok (SecretReturned i (context_binding user) q r # es) reg'"
proof -
  let ?e = "SecretReturned i (context_binding user) q r"
  have nz: "0 < ir_nextRequestId reg" "0 < ir_nextPromptId reg"
    using ok by (simp_all add: registry_ok_def word_gt_0)
  have id: "pi_requestId p < ir_nextRequestId reg" "pi_promptId p < ir_nextPromptId reg"
    if "ir_current reg = Some p" for p
    using pending_frame(1) [OF ok that] by (simp_all add: pending_ok_def)
  note cons = registry_ok_Cons [OF ok, where e = ?e and reg' = reg']
  from step show ?thesis
  proof (cases rule: secret_check_cases)
    case invalid
    have "registry_ok (?e # es) reg'"
      using ok invalid nz refused_returned_ok by (intro cons) (auto simp: registry_ok_def split: option.splits)
    with invalid show ?thesis by simp
  next
    case (closed p)
    note frame = pending_frame [OF ok closed(1)]
    have i: "pi_requestId p = i" using closed by (simp add: is_pending_iff)
    have r: "\<And>s. r \<noteq> secret_provided s" using closed(5) by auto
    have "registry_ok (?e # es) reg'"
      using closed nz id [OF closed(1)] i secret_returned_ok(1) [OF frame(1) i, of reg' r] r by (intro cons) auto
    moreover have "justified ?e es" using closed(5) by auto
    ultimately show ?thesis by blast
  next
    case (client p)
    note frame = pending_frame [OF ok client(1)]
    have i: "pi_requestId p = i" "pi_user p = context_binding user" using client by (simp_all add: is_pending_iff)
    have r: "\<And>s. r \<noteq> secret_provided s" using client(6) by auto
    have "registry_ok (?e # es) reg'"
      using client nz id [OF client(1)] i secret_returned_ok(2) [OF frame(1) i(1), of reg' r] r by (intro cons) auto
    moreover have "justified ?e es"
      using client i frame(1) by (simp add: pending_ok_def)
    ultimately show ?thesis by blast
  next
    case (provided p secret)
    note frame = pending_frame [OF ok provided(1)]
    have i: "pi_requestId p = i" "pi_user p = context_binding user" using provided by (simp_all add: is_pending_iff)
    have "registry_ok (?e # es) reg'"
      using provided nz id [OF provided(1)] i secret_returned_ok(3) [OF frame(1) i(1), of reg' secret]
      by (intro cons) simp_all
    moreover have "\<not> asked_to_cancel i es" "SecretGiven i (context_binding user) q secret \<in> set es"
      "last_published i es = Some (secret_required, q)" "\<not> secret_used q es"
      using pending_cancel [OF frame(1)] provided i frame(1) by (auto simp: pending_ok_def)
    then have "justified ?e es" using provided(7) by simp
    ultimately show ?thesis by blast
  qed
qed

lemma dropped_ok: "registry_ok es reg \<Longrightarrow> registry_ok es (reg\<lparr>ir_current := None, ir_secretResponse := None\<rparr>)"
  by (simp add: registry_ok_def)

theorem interaction_run_ok: "interaction_run es reg \<Longrightarrow> legitimate es \<and> registry_ok es reg"
proof (induction rule: interaction_run.induct)
  case start
  show ?case by (simp add: registry_ok_def initial_interactions_def)
next
  case (begun es reg user operation rp i reg')
  then show ?case using begin_interaction_ok [of es reg] by auto
next
  case (published es reg user i state message t reg')
  then show ?case using published_ok [of es reg] by auto
next
  case (suppressed es reg user i state message t reg')
  from suppressed(2) show ?case
    by (cases rule: transition_cases) (use suppressed in simp_all)
next
  case (responded es reg user i response u reg')
  then show ?case using respond_to_presence_ok [of es reg] by auto
next
  case (submitted es reg user i prompt secret u reg')
  then show ?case using submit_secret_ok [of es reg] by auto
next
  case (cancel es reg user i u reg')
  then show ?case using request_cancel_ok [of es reg] by auto
next
  case (presence_waited es reg user i stop deadline now r reg')
  then show ?case using presence_check_ok [of es reg] by auto
next
  case (secret_waited es reg user i prompt stop deadline now r reg')
  then show ?case using secret_check_ok [of es reg] by auto
next
  case (ended es reg user i b reg')
  then have "reg' = reg \<or> reg' = reg\<lparr>ir_current := None, ir_secretResponse := None\<rparr>"
    by (auto simp: end_interaction_def split: option.splits if_splits)
  with ended dropped_ok show ?case by auto
next
  case (cleared es reg user)
  have "clear_for user reg = reg \<or> clear_for user reg = reg\<lparr>ir_current := None, ir_secretResponse := None\<rparr>"
    by (auto simp: clear_for_def split: option.splits if_splits)
  with cleared dropped_ok show ?case by metis
qed

lemma legitimate_append: "legitimate (es' @ es) \<Longrightarrow> legitimate es"
  by (induction es') auto

lemma event_justified:
  assumes "interaction_run (post @ e # pre) reg"
  shows "justified e pre" "legitimate pre"
proof -
  from interaction_run_ok [OF assms] have "legitimate (e # pre)" using legitimate_append by blast
  then show "justified e pre" "legitimate pre" by simp_all
qed

lemma earlier_event:
  assumes "legitimate es" "e \<in> set es"
  obtains later earlier where "es = later @ e # earlier" "justified e earlier" "e \<notin> set later"
proof -
  from split_list_first [OF assms(2)] obtain later earlier where es: "es = later @ e # earlier" "e \<notin> set later"
    by blast
  with assms(1) have "legitimate (e # earlier)" using legitimate_append by blast
  with es that show thesis by simp
qed

lemma single_presence:
  assumes "legitimate es" "PresenceGiven i b r \<in> set es" "PresenceGiven i b' r' \<in> set es"
  shows "b' = b \<and> r' = r"
  using assms
proof (induction es)
  case (Cons e es)
  then show ?case by (cases e) (auto simp: presence_given_def)
qed simp

lemma presence_loop_returns:
  assumes "w \<in> set ws" "deadline \<le> wk_now w"
  shows "\<exists>r. presence_loop user i deadline ws = Some r"
  using assms
proof (induction ws)
  case (Cons v ws)
  have "fst (presence_check user i (wk_stop v) deadline (wk_now v) (wk_registry v)) \<noteq> None"
    if "deadline \<le> wk_now v"
    using that by (auto simp: presence_check_def Let_def split: option.splits)
  with Cons show ?case
    by (cases "presence_check user i (wk_stop v) deadline (wk_now v) (wk_registry v)")
      (auto split: option.splits)
qed simp

lemma secret_loop_returns:
  assumes "w \<in> set ws" "deadline \<le> wk_now w"
  shows "\<exists>r. secret_loop user i q deadline ws = Some r"
  using assms
proof (induction ws)
  case (Cons v ws)
  have "fst (secret_check user i q (wk_stop v) deadline (wk_now v) (wk_registry v)) \<noteq> None"
    if "deadline \<le> wk_now v"
    using that by (auto simp: secret_check_def Let_def split: option.splits)
  with Cons show ?case
    by (cases "secret_check user i q (wk_stop v) deadline (wk_now v) (wk_registry v)")
      (auto split: option.splits)
qed simp

lemma presence_loop_result:
  "presence_loop user i deadline ws = Some (r, reg') \<Longrightarrow>
   \<exists>before w after. ws = before @ w # after \<and>
     presence_check user i (wk_stop w) deadline (wk_now w) (wk_registry w) = (Some r, reg') \<and>
     (\<forall>v \<in> set before. wk_now v < deadline)"
proof (induction ws)
  case (Cons v ws)
  show ?case
  proof (cases "fst (presence_check user i (wk_stop v) deadline (wk_now v) (wk_registry v))")
    case None
    then have early: "wk_now v < deadline"
      by (auto simp: presence_check_def Let_def split: option.splits if_splits)
    from None Cons.prems have "presence_loop user i deadline ws = Some (r, reg')"
      by (auto split: prod.splits option.splits)
    from Cons.IH [OF this] obtain before w after where "ws = before @ w # after"
      "presence_check user i (wk_stop w) deadline (wk_now w) (wk_registry w) = (Some r, reg')"
      "\<forall>u \<in> set before. wk_now u < deadline" by blast
    with early show ?thesis by (intro exI [of _ "v # before"] exI [of _ w] exI [of _ after]) simp
  next
    case (Some r')
    with Cons.prems have "presence_check user i (wk_stop v) deadline (wk_now v) (wk_registry v) = (Some r, reg')"
      by (auto split: prod.splits option.splits)
    then show ?thesis by (intro exI [of _ "[]"] exI [of _ v] exI [of _ ws]) simp
  qed
qed simp

lemma presence_timed_out_late:
  assumes "presence_check user i stop deadline now reg = (Some presence_timed_out, reg')"
  shows "deadline \<le> now"
  using assms by (cases rule: presence_check_cases) (auto split: if_splits)

section \<open>Properties\<close>

text \<open>
  A wait for presence reports approval only after the very user context of the request approved
  that request: the approval was accepted while the last published state was \<open>presence_required\<close>,
  it is the only presence answer of the request, and no cancellation of the request was accepted.
\<close>

theorem presence_approval_authentic:
  assumes "interaction_run (post @ PresenceReturned i b presence_wait_approved # pre) reg"
  shows "\<exists>later earlier. pre = later @ PresenceGiven i b True # earlier \<and>
    Began i b \<in> set earlier \<and>
    map_option fst (last_published i earlier) = Some presence_required \<and>
    (\<forall>b' r'. PresenceGiven i b' r' \<in> set pre \<longrightarrow> b' = b \<and> r') \<and> \<not> asked_to_cancel i pre"
proof -
  note e = event_justified [OF assms]
  then have given: "PresenceGiven i b True \<in> set pre" and uncancelled: "\<not> asked_to_cancel i pre" by simp_all
  from earlier_event [OF e(2) given] obtain later earlier
    where pre: "pre = later @ PresenceGiven i b True # earlier" and "justified (PresenceGiven i b True) earlier" .
  then have "Began i b \<in> set earlier" "map_option fst (last_published i earlier) = Some presence_required" by simp_all
  moreover have "\<forall>b' r'. PresenceGiven i b' r' \<in> set pre \<longrightarrow> b' = b \<and> r'"
    using single_presence [OF e(2) given] by blast
  ultimately show ?thesis using pre uncancelled by blast
qed

theorem presence_approval_authentic_witness:
  "\<exists>reg b. interaction_run [PresenceReturned 1 b presence_wait_approved, PresenceGiven 1 b True,
      Published 1 presence_required 0, Began 1 b] reg \<and>
    (\<forall>b' r'. PresenceGiven 1 b' r' \<in> set [PresenceGiven 1 b True, Published 1 presence_required 0, Began 1 b] \<longrightarrow>
       b' = b \<and> r')"
proof -
  let ?u = "\<lparr>uc_uid = 1000, uc_name = ''u'', uc_session = None\<rparr>"
  let ?b = "context_binding ?u"
  let ?r1 = "snd (begin_interaction ?u get_assertion ''rp'' initial_interactions)"
  let ?r2 = "snd (transition ?u 1 presence_required [] ?r1)"
  let ?r3 = "snd (respond_to_presence ?u 1 True ?r2)"
  note defs = begin_interaction_def initial_interactions_def transition_def enter_state_def Let_def
    respond_to_presence_def presence_check_def is_pending_iff valid_transition_def MAX_VERIFICATION_TEXT_SIZE_def
  have 1: "interaction_run [Began 1 ?b] ?r1"
    by (rule interaction_run.begun [OF interaction_run.start, of ?u get_assertion "''rp''"]) (simp add: defs)
  have 2: "interaction_run [Published 1 presence_required 0, Began 1 ?b] ?r2"
    using interaction_run.published [OF 1, of ?u 1 presence_required "[]" "\<lparr>shouldPublish = True, tr_promptId = 0\<rparr>" ?r2]
    by (simp add: defs)
  have 3: "interaction_run [PresenceGiven 1 ?b True, Published 1 presence_required 0, Began 1 ?b] ?r3"
    by (rule interaction_run.responded [OF 2]) (simp add: defs)
  have 4: "interaction_run [PresenceReturned 1 ?b presence_wait_approved, PresenceGiven 1 ?b True,
      Published 1 presence_required 0, Began 1 ?b] ?r3"
    by (rule interaction_run.presence_waited [OF 3, of ?u 1 False 60 0]) (simp add: defs)
  from presence_approval_authentic [of "[]", simplified, OF 4] 4 show ?thesis by blast
qed

text \<open>
  A wait for a secret hands out a secret only if the user context of the request submitted it
  for that very prompt while the prompt was the last published state; a prompt's secret is handed out
  once, and never after a cancellation of the request was accepted.
\<close>

theorem secret_provided_authentic:
  assumes "interaction_run (post @ SecretReturned i b q (secret_provided s) # pre) reg"
  shows "\<exists>later earlier. pre = later @ SecretGiven i b q s # earlier \<and> Began i b \<in> set earlier \<and>
    last_published i earlier = Some (secret_required, q) \<and> \<not> secret_given q earlier \<and>
    last_published i pre = Some (secret_required, q) \<and> \<not> secret_used q pre \<and> \<not> asked_to_cancel i pre"
proof -
  note e = event_justified [OF assms]
  then have given: "SecretGiven i b q s \<in> set pre" and rest: "last_published i pre = Some (secret_required, q)"
    "\<not> secret_used q pre" "\<not> asked_to_cancel i pre" by simp_all
  from earlier_event [OF e(2) given] obtain later earlier
    where pre: "pre = later @ SecretGiven i b q s # earlier" and "justified (SecretGiven i b q s) earlier" .
  then have "Began i b \<in> set earlier" "last_published i earlier = Some (secret_required, q)"
    "\<not> secret_given q earlier" by simp_all
  with pre rest show ?thesis by blast
qed

theorem secret_provided_authentic_witness:
  "\<exists>reg b. interaction_run [SecretReturned 1 b 1 (secret_provided [42]), SecretGiven 1 b 1 [42],
      Published 1 secret_required 1, Published 1 verification_started 0, Began 1 b] reg \<and>
    \<not> secret_used 1 [SecretGiven 1 b 1 [42], Published 1 secret_required 1, Published 1 verification_started 0, Began 1 b]"
proof -
  let ?u = "\<lparr>uc_uid = 1000, uc_name = ''u'', uc_session = None\<rparr>"
  let ?b = "context_binding ?u"
  let ?r1 = "snd (begin_interaction ?u get_assertion ''rp'' initial_interactions)"
  let ?r2 = "snd (transition ?u 1 verification_started [] ?r1)"
  let ?r3 = "snd (transition ?u 1 secret_required [] ?r2)"
  let ?r4 = "snd (submit_secret ?u 1 1 [42] ?r3)"
  note defs = begin_interaction_def initial_interactions_def transition_def enter_state_def Let_def
    submit_secret_def secret_check_def is_pending_iff valid_transition_def MAX_VERIFICATION_TEXT_SIZE_def
  have 1: "interaction_run [Began 1 ?b] ?r1"
    by (rule interaction_run.begun [OF interaction_run.start, of ?u get_assertion "''rp''"]) (simp add: defs)
  have 2: "interaction_run [Published 1 verification_started 0, Began 1 ?b] ?r2"
    using interaction_run.published [OF 1, of ?u 1 verification_started "[]" "\<lparr>shouldPublish = True, tr_promptId = 0\<rparr>" ?r2]
    by (simp add: defs)
  have 3: "interaction_run [Published 1 secret_required 1, Published 1 verification_started 0, Began 1 ?b] ?r3"
    using interaction_run.published [OF 2, of ?u 1 secret_required "[]" "\<lparr>shouldPublish = True, tr_promptId = 1\<rparr>" ?r3]
    by (simp add: defs)
  have 4: "interaction_run [SecretGiven 1 ?b 1 [42], Published 1 secret_required 1,
      Published 1 verification_started 0, Began 1 ?b] ?r4"
    by (rule interaction_run.submitted [OF 3]) (simp add: defs)
  have 5: "interaction_run [SecretReturned 1 ?b 1 (secret_provided [42]), SecretGiven 1 ?b 1 [42],
      Published 1 secret_required 1, Published 1 verification_started 0, Began 1 ?b]
      (snd (secret_check ?u 1 1 False 60 0 ?r4))"
    by (rule interaction_run.secret_waited [OF 4, of ?u 1 1 False 60 0]) (simp add: defs)
  from secret_provided_authentic [of "[]", simplified, OF 5] 5 show ?thesis by blast
qed

text \<open>
  C11.  Everything published to the agent follows the interaction state machine: a state is published
  only for a request that was begun, it is a valid successor of the state published before it, a
  prompt number accompanies exactly \<open>secret_required\<close> and is larger than every earlier one, and
  after an accepted cancellation only \<open>cancelled\<close> is published.
\<close>

theorem publication_discipline:
  assumes "interaction_run (post @ Published i state q # pre) reg"
  shows "(\<exists>b. Began i b \<in> set pre) \<and> valid_transition (map_option fst (last_published i pre)) state \<and>
    (asked_to_cancel i pre \<longrightarrow> state = interaction_cancelled) \<and>
    (q \<noteq> 0 \<longleftrightarrow> state = secret_required) \<and>
    (q \<noteq> 0 \<longrightarrow> (\<forall>j state' q'. Published j state' q' \<in> set pre \<longrightarrow> q' < q))"
  using event_justified(1) [OF assms] by auto

theorem publication_discipline_witness:
  "\<exists>reg b. interaction_run [Published 1 verification_started 0, Began 1 b] reg \<and>
     valid_transition (map_option fst (last_published 1 [Began 1 b])) verification_started"
proof -
  let ?u = "\<lparr>uc_uid = 1000, uc_name = ''u'', uc_session = None\<rparr>"
  let ?b = "context_binding ?u"
  let ?r1 = "snd (begin_interaction ?u get_assertion ''rp'' initial_interactions)"
  let ?r2 = "snd (transition ?u 1 verification_started [] ?r1)"
  note defs = begin_interaction_def initial_interactions_def transition_def enter_state_def Let_def
    is_pending_iff valid_transition_def MAX_VERIFICATION_TEXT_SIZE_def
  have 1: "interaction_run [Began 1 ?b] ?r1"
    by (rule interaction_run.begun [OF interaction_run.start, of ?u get_assertion "''rp''"]) (simp add: defs)
  have 2: "interaction_run [Published 1 verification_started 0, Began 1 ?b] ?r2"
    using interaction_run.published [OF 1, of ?u 1 verification_started "[]" "\<lparr>shouldPublish = True, tr_promptId = 0\<rparr>" ?r2]
    by (simp add: defs)
  from publication_discipline [of "[]", simplified, OF 2] 2 show ?thesis by blast
qed

text \<open>
  C12.  Both waits end: with a positive timeout, a wake-up at or after the deadline makes
  \<open>wait_for_presence\<close> and \<open>wait_for_secret\<close> return a result.  The presence wait returns at the first
  wake-up that decides it, never later than the first one at or after the deadline, and it reports a
  timeout only at one that is not before the deadline.
\<close>

theorem interaction_waits_return:
  assumes "0 < timeout" "w \<in> set ws" "now + nat timeout \<le> wk_now w"
  shows "(\<exists>r reg' before v after. wait_for_presence user i timeout now ws = Inr (Some (r, reg')) \<and>
      ws = before @ v # after \<and> (\<forall>x \<in> set before. wk_now x < now + nat timeout) \<and>
      presence_check user i (wk_stop v) (now + nat timeout) (wk_now v) (wk_registry v) = (Some r, reg') \<and>
      (r = presence_timed_out \<longrightarrow> now + nat timeout \<le> wk_now v)) \<and>
    (\<exists>r reg'. wait_for_secret user i q timeout now ws = Inr (Some (r, reg')))"
proof
  from presence_loop_returns [OF assms(2,3)] obtain r reg' where
    loop: "presence_loop user i (now + nat timeout) ws = Some (r, reg')" by (metis surj_pair)
  then have returns: "wait_for_presence user i timeout now ws = Inr (Some (r, reg'))"
    using assms(1) by (simp add: wait_for_presence_def)
  from presence_loop_result [OF loop] obtain before v after where v: "ws = before @ v # after"
    "presence_check user i (wk_stop v) (now + nat timeout) (wk_now v) (wk_registry v) = (Some r, reg')"
    "\<forall>x \<in> set before. wk_now x < now + nat timeout" by blast
  have late: "r = presence_timed_out \<longrightarrow> now + nat timeout \<le> wk_now v"
    using v(2) presence_timed_out_late by blast
  from returns v late show "\<exists>r reg' before v after. wait_for_presence user i timeout now ws = Inr (Some (r, reg')) \<and>
      ws = before @ v # after \<and> (\<forall>x \<in> set before. wk_now x < now + nat timeout) \<and>
      presence_check user i (wk_stop v) (now + nat timeout) (wk_now v) (wk_registry v) = (Some r, reg') \<and>
      (r = presence_timed_out \<longrightarrow> now + nat timeout \<le> wk_now v)" by blast
  from secret_loop_returns [OF assms(2,3)] assms(1)
  show "\<exists>r reg'. wait_for_secret user i q timeout now ws = Inr (Some (r, reg'))"
    by (auto simp: wait_for_secret_def)
qed

theorem interaction_waits_return_witness:
  "\<exists>r reg'. wait_for_presence \<lparr>uc_uid = 1, uc_name = [], uc_session = None\<rparr> 1 5 0
     [\<lparr>wk_stop = False, wk_now = 9, wk_registry = initial_interactions\<rparr>] = Inr (Some (r, reg'))"
proof -
  let ?w = "\<lparr>wk_stop = False, wk_now = 9, wk_registry = initial_interactions\<rparr>"
  have "0 < (5 :: int)" "?w \<in> set [?w]" "0 + nat 5 \<le> wk_now ?w" by simp_all
  from interaction_waits_return [OF this] show ?thesis by blast
qed

end
