(* ===== verification/Agent_Service.thy ===== *)
theory Agent_Service
  imports Bus_Peers Interaction_Registry Effects
begin

text \<open>
  The D-Bus service between the authenticator and the user's agent (\<open>dbus/agent_service.cpp\<close>).  Two
  threads use it: the command worker calls the interaction channel, the event loop of the bus runs the
  method handlers.  What they share, namely the two registries, the queue of state events and the
  failure text, is each behind a mutex of its own; an operation is therefore a sequence of accesses,
  and between two of them the other threads may have changed anything by accesses of theirs.  The
  environment lists these changes for every moment, numbered by \<open>sv_tick\<close>, together with what
  the clock, the stop token, the login manager and the bus then say.
\<close>

section \<open>State\<close>

record StateEvent =
  ev_user :: UserContext
  ev_requestId :: u64
  ev_promptId :: u64
  ev_operation :: UserInteractionOperation
  ev_state :: UserInteractionState
  ev_relyingPartyId :: string
  ev_message :: string

text \<open>A \<open>StateChanged\<close> signal as it leaves on the bus.\<close>

record StateSignal =
  sig_destination :: string
  sig_generation :: u64
  sig_requestId :: u64
  sig_promptId :: u64
  sig_state :: string
  sig_operation :: string
  sig_relyingPartyId :: string
  sig_message :: string

record Service =
  sv_registry :: AgentRegistry
  sv_interactions :: InteractionRegistry
  sv_events :: "StateEvent list"
  sv_failure :: "string option"
  sv_signals :: "StateSignal list"
  sv_tick :: nat

definition initial_service :: Service where
  "initial_service = \<lparr>sv_registry = initial_agents, sv_interactions = initial_interactions, sv_events = [],
     sv_failure = None, sv_signals = [], sv_tick = 0\<rparr>"

section \<open>The other threads\<close>

text \<open>The accesses of another thread: one call on a registry, on the queue or on the failure.\<close>

datatype Change =
    Registers AgentPeer
  | Unregisters string
  | Begins UserContext UserInteractionOperation string
  | Transitions UserContext u64 UserInteractionState string
  | Responds UserContext u64 bool
  | Submits UserContext u64 u64 bytes
  | Cancels UserContext u64
  | Checks_presence UserContext u64 bool time time
  | Checks_secret UserContext u64 u64 bool time time
  | Ends UserContext u64
  | Clears UserContext
  | Queues StateEvent
  | Takes_queue
  | Fails string

fun change :: "Change \<Rightarrow> Service \<Rightarrow> Service" where
  "change (Registers peer) s = s\<lparr>sv_registry := snd (register_agent peer (sv_registry s))\<rparr>"
| "change (Unregisters bus_name) s = s\<lparr>sv_registry := snd (unregister_agent bus_name (sv_registry s))\<rparr>"
| "change (Begins user operation rp) s =
     s\<lparr>sv_interactions := snd (Interaction_Registry.begin_interaction user operation rp (sv_interactions s))\<rparr>"
| "change (Transitions user i state message) s =
     s\<lparr>sv_interactions := snd (transition user i state message (sv_interactions s))\<rparr>"
| "change (Responds user i response) s =
     s\<lparr>sv_interactions := snd (Interaction_Registry.respond_to_presence user i response (sv_interactions s))\<rparr>"
| "change (Submits user i prompt secret) s =
     s\<lparr>sv_interactions := snd (Interaction_Registry.submit_secret user i prompt secret (sv_interactions s))\<rparr>"
| "change (Cancels user i) s = s\<lparr>sv_interactions := snd (request_cancel user i (sv_interactions s))\<rparr>"
| "change (Checks_presence user i stop deadline now) s =
     s\<lparr>sv_interactions := snd (presence_check user i stop deadline now (sv_interactions s))\<rparr>"
| "change (Checks_secret user i prompt stop deadline now) s =
     s\<lparr>sv_interactions := snd (secret_check user i prompt stop deadline now (sv_interactions s))\<rparr>"
| "change (Ends user i) s =
     s\<lparr>sv_interactions := snd (Interaction_Registry.end_interaction user i (sv_interactions s))\<rparr>"
| "change (Clears user) s = s\<lparr>sv_interactions := clear_for user (sv_interactions s)\<rparr>"
| "change (Queues event) s = s\<lparr>sv_events := sv_events s @ [event]\<rparr>"
| "change Takes_queue s = s\<lparr>sv_events := []\<rparr>"
| "change (Fails message) s = s\<lparr>sv_failure := Some message\<rparr>"

record ServiceEnv =
  se_others :: "nat \<Rightarrow> Change list"
  se_logind :: "nat \<Rightarrow> Logind"
  se_clock :: "nat \<Rightarrow> time"
  se_stop :: "nat \<Rightarrow> bool"
  se_wakeups :: "nat \<Rightarrow> nat"
  se_send :: "nat \<Rightarrow> bool"
  se_bus :: LoginBus
  se_accounts :: Accounts

text \<open>One access: the changes of the others up to now, then the body under its mutex.\<close>

definition settle :: "ServiceEnv \<Rightarrow> Service \<Rightarrow> Service" where
  "settle env s = (fold change (se_others env (sv_tick s)) s)\<lparr>sv_tick := sv_tick s + 1\<rparr>"

definition atomic :: "ServiceEnv \<Rightarrow> (Service, 'a) exec \<Rightarrow> (Service, 'a) exec" where
  "atomic env body s = body (settle env s)"

definition on_registry :: "ServiceEnv \<Rightarrow> (AgentRegistry, 'a) exec \<Rightarrow> (Service, 'a) exec" where
  "on_registry env f = atomic env (\<lambda>s. case f (sv_registry s) of (r, reg) \<Rightarrow> (r, s\<lparr>sv_registry := reg\<rparr>))"

definition on_interactions :: "ServiceEnv \<Rightarrow> (InteractionRegistry, 'a) exec \<Rightarrow> (Service, 'a) exec" where
  "on_interactions env f =
     atomic env (\<lambda>s. case f (sv_interactions s) of (r, reg) \<Rightarrow> (r, s\<lparr>sv_interactions := reg\<rparr>))"

text \<open>A question to the environment that touches no shared state.\<close>

definition ask :: "(nat \<Rightarrow> 'a) \<Rightarrow> (Service, 'a) exec" where
  "ask answer s = (Inr (answer (sv_tick s)), s\<lparr>sv_tick := sv_tick s + 1\<rparr>)"

definition returning :: "('s \<Rightarrow> 'a \<times> 's) \<Rightarrow> ('s, 'a) exec" where
  "returning f s = (case f s of (x, s') \<Rightarrow> (Inr x, s'))"

section \<open>The interaction channel\<close>

definition throw_if_failed :: "ServiceEnv \<Rightarrow> (Service, unit) exec" where
  "throw_if_failed env =
     atomic env (\<lambda>s. case sv_failure s of
         Some message \<Rightarrow> (Inl (RuntimeError (''D-Bus service failed: '' @ message)), s)
       | None \<Rightarrow> (Inr (), s))"

definition check_session :: "ServiceEnv \<Rightarrow> UserContext \<Rightarrow> (Service, bool) exec" where
  "check_session env user = ask (\<lambda>t. session_is_still_active (se_logind env t) user)"

text \<open>\<open>context->session->interactionAgentId\<close>, which the registry's contexts all have.\<close>

definition agent_bus_name :: "UserContext \<Rightarrow> string" where
  "agent_bus_name user = (case uc_session user of None \<Rightarrow> [] | Some session \<Rightarrow> us_interactionAgentId session)"

definition read_current :: "ServiceEnv \<Rightarrow> (Service, UserContext option) exec" where
  "read_current env = on_registry env (\<lambda>reg. (Inr (agent_current_context reg), reg))"

definition service_is_current :: "ServiceEnv \<Rightarrow> UserContext \<Rightarrow> (Service, bool) exec" where
  "service_is_current env user = on_registry env (\<lambda>reg. (Inr (is_current user reg), reg))"

text \<open>
  The wait for an agent: the thread wakes up \<open>n\<close> times before the grace period of two seconds ends, and once when it
  does, and returns what the registry holds as soon as it holds an agent.
\<close>

fun await_agent :: "ServiceEnv \<Rightarrow> nat \<Rightarrow> (Service, UserContext option) exec" where
  "await_agent env 0 = read_current env"
| "await_agent env (Suc n) =
     exec_bind (read_current env) (\<lambda>current.
       if current \<noteq> None then exec_return current else await_agent env n)"

definition discard_agent :: "ServiceEnv \<Rightarrow> UserContext \<Rightarrow> string \<Rightarrow> (Service, unit) exec" where
  "discard_agent env user bus_name =
     exec_then (on_interactions env (exec_modify (clear_for user)))
     (exec_then (on_registry env (returning (unregister_agent bus_name))) (exec_return ()))"

definition service_current_context :: "ServiceEnv \<Rightarrow> (Service, UserContext option) exec" where
  "service_current_context env =
     exec_then (throw_if_failed env)
     (exec_bind (ask (se_wakeups env)) (\<lambda>n.
     exec_bind (await_agent env n) (\<lambda>found.
     exec_then (throw_if_failed env)
       (case found of
          None \<Rightarrow> exec_return None
        | Some user \<Rightarrow>
            exec_bind (check_session env user) (\<lambda>still_active.
              if still_active then exec_return (Some user)
              else exec_then (discard_agent env user (agent_bus_name user)) (exec_return None))))))"

definition service_begin_interaction ::
    "ServiceEnv \<Rightarrow> UserContext \<Rightarrow> UserInteractionRequest \<Rightarrow> (Service, u64) exec" where
  "service_begin_interaction env user request =
     exec_then (throw_if_failed env)
     (if uir_requestId request \<noteq> 0 then
        exec_throw (InvalidArgument ''Interaction already has a request ID'')
      else if uc_session user = None then exec_return 0
      else exec_bind (service_is_current env user) (\<lambda>current.
        if \<not> current then exec_return 0
        else on_interactions env
          (Interaction_Registry.begin_interaction user (uir_operation request) (uir_relyingPartyId request))))"

definition service_publish_state ::
    "ServiceEnv \<Rightarrow> UserContext \<Rightarrow> UserInteractionRequest \<Rightarrow> UserInteractionState \<Rightarrow> string \<Rightarrow> (Service, u64) exec" where
  "service_publish_state env user request state message =
     exec_then (throw_if_failed env)
     (if uir_requestId request = 0 \<or> uc_session user = None then exec_return 0
      else exec_bind (service_is_current env user) (\<lambda>current.
        if \<not> current then exec_return 0
        else exec_bind (on_interactions env (transition user (uir_requestId request) state message)) (\<lambda>t.
          if \<not> shouldPublish t then exec_return 0
          else exec_then
            (atomic env (exec_modify (\<lambda>s. s\<lparr>sv_events := sv_events s @
               [\<lparr>ev_user = user, ev_requestId = uir_requestId request, ev_promptId = tr_promptId t,
                 ev_operation = uir_operation request, ev_state = state,
                 ev_relyingPartyId = uir_relyingPartyId request, ev_message = message\<rparr>]\<rparr>)))
            (exec_return (tr_promptId t)))))"

definition service_end_interaction ::
    "ServiceEnv \<Rightarrow> UserContext \<Rightarrow> UserInteractionRequest \<Rightarrow> (Service, unit) exec" where
  "service_end_interaction env user request =
     exec_then (on_interactions env (returning (Interaction_Registry.end_interaction user (uir_requestId request))))
       (exec_return ())"

text \<open>
  A pass of a waiting loop of the interaction registry; in the last pass the timeout has expired.
  The thread wakes up \<open>n\<close> times before that.
\<close>

definition pass_time :: "ServiceEnv \<Rightarrow> time \<Rightarrow> nat \<Rightarrow> nat \<Rightarrow> time" where
  "pass_time env deadline n t = (if n = 0 then max deadline (se_clock env t) else se_clock env t)"

definition presence_pass ::
    "ServiceEnv \<Rightarrow> UserContext \<Rightarrow> u64 \<Rightarrow> time \<Rightarrow> nat \<Rightarrow> (Service, PresenceWaitResult option) exec" where
  "presence_pass env user i deadline n =
     exec_bind (exec_get sv_tick) (\<lambda>t.
       on_interactions env (returning (presence_check user i (se_stop env t) deadline (pass_time env deadline n t))))"

definition secret_pass ::
    "ServiceEnv \<Rightarrow> UserContext \<Rightarrow> u64 \<Rightarrow> u64 \<Rightarrow> time \<Rightarrow> nat \<Rightarrow> (Service, SecretWaitResult option) exec" where
  "secret_pass env user i prompt deadline n =
     exec_bind (exec_get sv_tick) (\<lambda>t.
       on_interactions env (returning (secret_check user i prompt (se_stop env t) deadline (pass_time env deadline n t))))"

fun await_result :: "(nat \<Rightarrow> (Service, 'r option) exec) \<Rightarrow> nat \<Rightarrow> (Service, 'r option) exec" where
  "await_result pass 0 = pass 0"
| "await_result pass (Suc n) =
     exec_bind (pass (Suc n)) (\<lambda>r. if r \<noteq> None then exec_return r else await_result pass n)"

definition await :: "ServiceEnv \<Rightarrow> int \<Rightarrow> string \<Rightarrow> (time \<Rightarrow> nat \<Rightarrow> (Service, 'r option) exec) \<Rightarrow> (Service, 'r option) exec" where
  "await env timeout refusal pass =
     (if timeout \<le> 0 then exec_throw (InvalidArgument refusal)
      else exec_bind (ask (se_clock env)) (\<lambda>now.
        exec_bind (ask (se_wakeups env)) (\<lambda>n. await_result (pass (now + nat timeout)) n)))"

fun presence_answer :: "PresenceWaitResult option \<Rightarrow> UserInteractionResult result" where
  "presence_answer (Some presence_wait_approved) = Inr approved"
| "presence_answer (Some presence_wait_denied) = Inr denied"
| "presence_answer (Some presence_timed_out) = Inl UserActionTimedOut"
| "presence_answer (Some presence_client_cancelled) = Inr cancelled"
| "presence_answer (Some presence_platform_cancelled) = Inl OperationCancelled"
| "presence_answer (Some presence_invalidated) = Inl UserInteractionUnavailable"
| "presence_answer None = Inl (LogicError ''Unknown presence response state'')"

fun secret_answer :: "SecretWaitResult option \<Rightarrow> bytes result" where
  "secret_answer (Some (secret_provided secret)) = Inr secret"
| "secret_answer (Some secret_timed_out) = Inl UserActionTimedOut"
| "secret_answer (Some secret_client_cancelled) = Inl UserInteractionCancelled"
| "secret_answer (Some secret_platform_cancelled) = Inl OperationCancelled"
| "secret_answer (Some secret_invalidated) = Inl UserInteractionUnavailable"
| "secret_answer None = Inl (LogicError ''Unknown secret response state'')"

definition service_wait_for_presence ::
    "ServiceEnv \<Rightarrow> UserContext \<Rightarrow> UserInteractionRequest \<Rightarrow> int \<Rightarrow> (Service, UserInteractionResult) exec" where
  "service_wait_for_presence env user request timeout =
     exec_then (throw_if_failed env)
     (exec_bind (await env timeout ''Presence timeout must be positive''
         (presence_pass env user (uir_requestId request))) (\<lambda>r. exec_lift (presence_answer r)))"

definition service_wait_for_secret ::
    "ServiceEnv \<Rightarrow> UserContext \<Rightarrow> UserInteractionRequest \<Rightarrow> u64 \<Rightarrow> int \<Rightarrow> (Service, bytes) exec" where
  "service_wait_for_secret env user request prompt timeout =
     exec_then (throw_if_failed env)
     (exec_bind (await env timeout ''Secret timeout must be positive''
         (secret_pass env user (uir_requestId request) prompt)) (\<lambda>r. exec_lift (secret_answer r)))"

definition service_cancellation_requested ::
    "ServiceEnv \<Rightarrow> UserContext \<Rightarrow> UserInteractionRequest \<Rightarrow> (Service, bool) exec" where
  "service_cancellation_requested env user request =
     exec_catch
       (exec_then (throw_if_failed env)
       (exec_bind (service_is_current env user) (\<lambda>current.
         if \<not> current then exec_return True
         else on_interactions env (exec_get (cancellation_requested user (uir_requestId request))))))
       (\<lambda>_. exec_return True)"

section \<open>Method handlers\<close>

text \<open>What a handler sends back to the caller; nothing when not even the error could be sent.\<close>

datatype Reply =
    Reply_done
  | Reply_generation u64
  | Reply_available bool
  | Reply_error string string
  | No_reply

definition send_reply :: "ServiceEnv \<Rightarrow> Reply \<Rightarrow> (Service, Reply) exec" where
  "send_reply env reply =
     exec_bind (ask (se_send env)) (\<lambda>ok.
       if ok then exec_return reply else exec_throw (RuntimeError ''Failed to send reply''))"

definition handler :: "ServiceEnv \<Rightarrow> string \<Rightarrow> (Service, Reply) exec \<Rightarrow> (Service, Reply) exec" where
  "handler env error_name body =
     exec_catch body (\<lambda>e.
       exec_bind (ask (se_send env)) (\<lambda>ok.
         exec_return (if ok then Reply_error error_name (exn_what e) else No_reply)))"

definition has_available_agent :: "ServiceEnv \<Rightarrow> (Service, Reply) exec" where
  "has_available_agent env =
     handler env ''org.lamellix.vAuth.Error.StatusUnavailable''
       (exec_bind (read_current env) (\<lambda>current.
        exec_bind (case current of None \<Rightarrow> exec_return False | Some user \<Rightarrow> check_session env user) (\<lambda>available.
          send_reply env (Reply_available available))))"

definition registered_caller :: "ServiceEnv \<Rightarrow> MethodCall \<Rightarrow> u64 \<Rightarrow> (Service, UserContext) exec" where
  "registered_caller env call generation =
     exec_bind (read_current env) (\<lambda>current.
       if \<not> is_unique_name (call_sender call) \<or>
          (case current of
             None \<Rightarrow> True
           | Some user \<Rightarrow>
               (case uc_session user of
                  None \<Rightarrow> True
                | Some session \<Rightarrow> Some (us_interactionAgentId session) \<noteq> call_sender call \<or>
                    us_generation session \<noteq> generation))
       then exec_throw (RuntimeError ''Calling agent registration is stale'')
       else
         let user = the current in
         exec_bind (check_session env user) (\<lambda>still_active.
           if still_active then exec_return user
           else exec_then (discard_agent env user (the (call_sender call)))
             (exec_throw (RuntimeError ''Calling agent session is not active''))))"

text \<open>The arguments of a call, or the error of reading them from the message.\<close>

definition service_respond_to_presence ::
    "ServiceEnv \<Rightarrow> MethodCall \<Rightarrow> (u64 \<times> u64 \<times> bool) result \<Rightarrow> (Service, Reply) exec" where
  "service_respond_to_presence env call args =
     handler env ''org.lamellix.vAuth.Error.InvalidInteraction''
       (exec_bind (exec_lift args) (\<lambda>(generation, request_id, response).
        exec_bind (registered_caller env call generation) (\<lambda>user.
        exec_then (on_interactions env (Interaction_Registry.respond_to_presence user request_id response))
          (send_reply env Reply_done))))"

definition service_submit_secret ::
    "ServiceEnv \<Rightarrow> MethodCall \<Rightarrow> (u64 \<times> u64 \<times> u64 \<times> SecretPipe) result \<Rightarrow> (Service, Reply) exec" where
  "service_submit_secret env call args =
     handler env ''org.lamellix.vAuth.Error.InvalidInteraction''
       (exec_bind (exec_lift args) (\<lambda>(generation, request_id, prompt_id, secret_pipe).
        exec_bind (registered_caller env call generation) (\<lambda>user.
        exec_bind (exec_lift (read_secret_pipe secret_pipe)) (\<lambda>secret.
        exec_then (on_interactions env (Interaction_Registry.submit_secret user request_id prompt_id secret))
          (send_reply env Reply_done)))))"

definition service_cancel_interaction ::
    "ServiceEnv \<Rightarrow> MethodCall \<Rightarrow> (u64 \<times> u64) result \<Rightarrow> (Service, Reply) exec" where
  "service_cancel_interaction env call args =
     handler env ''org.lamellix.vAuth.Error.InvalidInteraction''
       (exec_bind (exec_lift args) (\<lambda>(generation, request_id).
        exec_bind (registered_caller env call generation) (\<lambda>user.
        exec_then (on_interactions env (request_cancel user request_id))
          (send_reply env Reply_done))))"

definition service_register_agent :: "ServiceEnv \<Rightarrow> MethodCall \<Rightarrow> (Service, Reply) exec" where
  "service_register_agent env call =
     handler env ''org.lamellix.vAuth.Error.RegistrationFailed''
       (exec_bind (ask (se_logind env)) (\<lambda>logind.
        exec_bind (exec_lift (resolve_peer (se_bus env) logind (se_accounts env) call)) (\<lambda>peer.
        exec_bind (read_current env) (\<lambda>current.
        exec_then
          (case current of
             None \<Rightarrow> exec_return ()
           | Some user \<Rightarrow>
               exec_bind (check_session env user) (\<lambda>still_active.
                 if still_active then exec_return () else discard_agent env user (agent_bus_name user)))
        (exec_bind (on_registry env (register_agent peer)) (\<lambda>user.
          send_reply env (Reply_generation
            (case uc_session user of None \<Rightarrow> 0 | Some session \<Rightarrow> us_generation session))))))))"

definition service_unregister_agent :: "ServiceEnv \<Rightarrow> MethodCall \<Rightarrow> (Service, Reply) exec" where
  "service_unregister_agent env call =
     handler env ''org.lamellix.vAuth.Error.NotRegistered''
       (exec_then (exec_guard (is_unique_name (call_sender call)) (RuntimeError ''Agent has no unique bus name''))
       (exec_bind (read_current env) (\<lambda>current.
         if (case current of
               None \<Rightarrow> True
             | Some user \<Rightarrow>
                 (case uc_session user of
                    None \<Rightarrow> True
                  | Some session \<Rightarrow> Some (us_interactionAgentId session) \<noteq> call_sender call))
         then exec_throw (RuntimeError ''Calling agent is not registered'')
         else
           exec_then (on_interactions env (exec_modify (clear_for (the current))))
           (exec_bind (on_registry env (returning (unregister_agent (the (call_sender call))))) (\<lambda>removed.
           exec_then (exec_guard removed (RuntimeError ''Calling agent is not registered''))
             (send_reply env Reply_done))))))"

definition unregister_disconnected_agent :: "ServiceEnv \<Rightarrow> string \<Rightarrow> (Service, unit) exec" where
  "unregister_disconnected_agent env bus_name =
     exec_bind (read_current env) (\<lambda>current.
     exec_then
       (case current of
          None \<Rightarrow> exec_return ()
        | Some user \<Rightarrow>
            (case uc_session user of
               None \<Rightarrow> exec_return ()
             | Some session \<Rightarrow>
                 if us_interactionAgentId session = bus_name
                 then on_interactions env (exec_modify (clear_for user)) else exec_return ()))
     (exec_then (on_registry env (returning (unregister_agent bus_name))) (exec_return ())))"

section \<open>The event loop of the bus\<close>

definition state_signal :: "StateEvent \<Rightarrow> UserSessionContext \<Rightarrow> StateSignal" where
  "state_signal event session =
     \<lparr>sig_destination = us_interactionAgentId session, sig_generation = us_generation session,
      sig_requestId = ev_requestId event, sig_promptId = ev_promptId event,
      sig_state = user_interaction_state_name (ev_state event),
      sig_operation = user_interaction_operation_name (ev_operation event),
      sig_relyingPartyId = ev_relyingPartyId event, sig_message = ev_message event\<rparr>"

fun send_events :: "ServiceEnv \<Rightarrow> StateEvent list \<Rightarrow> (Service, unit) exec" where
  "send_events env [] = exec_return ()"
| "send_events env (event # events) =
     (case uc_session (ev_user event) of
        None \<Rightarrow> send_events env events
      | Some session \<Rightarrow>
          exec_bind (service_is_current env (ev_user event)) (\<lambda>current.
            if \<not> current then send_events env events
            else exec_bind (ask (se_send env)) (\<lambda>ok.
              if \<not> ok then exec_throw (RuntimeError ''Failed to send signal'')
              else exec_then
                (exec_modify (\<lambda>s. s\<lparr>sv_signals := sv_signals s @ [state_signal event session]\<rparr>))
                (send_events env events))))"

definition send_queued_events :: "ServiceEnv \<Rightarrow> (Service, unit) exec" where
  "send_queued_events env =
     exec_bind (atomic env (\<lambda>s. (Inr (sv_events s), s\<lparr>sv_events := []\<rparr>))) (send_events env)"

definition record_failure :: "ServiceEnv \<Rightarrow> string \<Rightarrow> (Service, unit) exec" where
  "record_failure env message =
     exec_then (atomic env (exec_modify (\<lambda>s. s\<lparr>sv_failure := Some message\<rparr>)))
     (exec_bind (read_current env) (\<lambda>current.
       case current of
         None \<Rightarrow> exec_return ()
       | Some user \<Rightarrow> discard_agent env user (agent_bus_name user)))"

text \<open>
  A message the bus hands to the service, with the handler registered for it; the last constructor
  is an error of the bus connection itself.
\<close>

datatype BusEvent =
    RegisterAgent MethodCall
  | UnregisterAgent MethodCall
  | RespondToPresence MethodCall "(u64 \<times> u64 \<times> bool) result"
  | SubmitSecret MethodCall "(u64 \<times> u64 \<times> u64 \<times> SecretPipe) result"
  | CancelInteraction MethodCall "(u64 \<times> u64) result"
  | HasAvailableAgent MethodCall
  | NameOwnerChanged string string string
  | BusError string

fun dispatch_event :: "ServiceEnv \<Rightarrow> BusEvent \<Rightarrow> (Service, Reply) exec" where
  "dispatch_event env (RegisterAgent call) = service_register_agent env call"
| "dispatch_event env (UnregisterAgent call) = service_unregister_agent env call"
| "dispatch_event env (RespondToPresence call args) = service_respond_to_presence env call args"
| "dispatch_event env (SubmitSecret call args) = service_submit_secret env call args"
| "dispatch_event env (CancelInteraction call args) = service_cancel_interaction env call args"
| "dispatch_event env (HasAvailableAgent call) = has_available_agent env"
| "dispatch_event env (NameOwnerChanged name old_owner new_owner) =
     exec_then (if old_owner \<noteq> [] \<and> new_owner = [] then unregister_disconnected_agent env name else exec_return ())
       (exec_return No_reply)"
| "dispatch_event env (BusError message) = exec_throw (RuntimeError message)"

text \<open>One round of the loop: whether a stop is seen before and after \<open>poll\<close>, whether \<open>poll\<close> works,
  and the messages pending on the bus.\<close>

record Round =
  rd_stop_before :: bool
  rd_poll_ok :: bool
  rd_stop_after :: bool
  rd_pending :: "BusEvent list"

fun dispatch_events :: "ServiceEnv \<Rightarrow> BusEvent list \<Rightarrow> (Service, unit) exec" where
  "dispatch_events env [] = exec_return ()"
| "dispatch_events env (event # events) = exec_then (dispatch_event env event) (dispatch_events env events)"

fun service_rounds :: "ServiceEnv \<Rightarrow> Round list \<Rightarrow> (Service, unit) exec" where
  "service_rounds env [] = exec_return ()"
| "service_rounds env (round # rounds) =
     (if rd_stop_before round then exec_return ()
      else if \<not> rd_poll_ok round then exec_throw (SystemError ''poll D-Bus'')
      else if rd_stop_after round then exec_return ()
      else exec_then (dispatch_events env (rd_pending round))
        (exec_then (send_queued_events env) (service_rounds env rounds)))"

definition service_event_loop :: "ServiceEnv \<Rightarrow> Round list \<Rightarrow> (Service, unit) exec" where
  "service_event_loop env rounds =
     exec_catch (service_rounds env rounds) (\<lambda>e. record_failure env (exn_what e))"

end
