(* ===== verification/Service_Laws.thy ===== *)
theory Service_Laws
  imports Agent_Service
begin

text \<open>
  Laws of the D-Bus service.  Whatever the other threads do in between, an operation only extends the
  histories of the two registries; on that rest who may answer a prompt and who receives the signals.
\<close>

section \<open>Extending the histories\<close>

definition interactions_extend :: "InteractionRegistry \<Rightarrow> InteractionRegistry \<Rightarrow> bool" where
  "interactions_extend reg reg' \<longleftrightarrow>
     (\<forall>es. interaction_run es reg \<longrightarrow> (\<exists>new. interaction_run (new @ es) reg'))"

definition interactions_log :: "InteractionEvent \<Rightarrow> InteractionRegistry \<Rightarrow> InteractionRegistry \<Rightarrow> bool" where
  "interactions_log event reg reg' \<longleftrightarrow>
     (\<forall>es. interaction_run es reg \<longrightarrow> (\<exists>new. interaction_run (new @ es) reg' \<and> event \<in> set new))"

definition agents_extend :: "AgentRegistry \<Rightarrow> AgentRegistry \<Rightarrow> bool" where
  "agents_extend reg reg' \<longleftrightarrow> (\<forall>es. agent_run es reg \<longrightarrow> (\<exists>new. agent_run (new @ es) reg'))"

lemma interactions_extend_refl [simp]: "interactions_extend reg reg"
  unfolding interactions_extend_def by (metis append_Nil)

lemma interactions_extend_trans:
  "interactions_extend a b \<Longrightarrow> interactions_extend b c \<Longrightarrow> interactions_extend a c"
  unfolding interactions_extend_def by (metis append_assoc)

lemma agents_extend_refl [simp]: "agents_extend reg reg"
  unfolding agents_extend_def by (metis append_Nil)

lemma agents_extend_trans: "agents_extend a b \<Longrightarrow> agents_extend b c \<Longrightarrow> agents_extend a c"
  unfolding agents_extend_def by (metis append_assoc)

lemma interactions_extend_log:
  assumes "interactions_extend a b" "interactions_log event b c" "interactions_extend c d"
  shows "interactions_log event a d"
  unfolding interactions_log_def
proof (intro allI impI)
  fix es
  assume "interaction_run es a"
  with assms(1) obtain n1 where "interaction_run (n1 @ es) b" unfolding interactions_extend_def by blast
  with assms(2) obtain n2 where n2: "interaction_run (n2 @ n1 @ es) c" "event \<in> set n2"
    unfolding interactions_log_def by blast
  with assms(3) obtain n3 where "interaction_run (n3 @ n2 @ n1 @ es) d" unfolding interactions_extend_def by blast
  with n2 show "\<exists>new. interaction_run (new @ es) d \<and> event \<in> set new"
    by (intro exI [of _ "n3 @ n2 @ n1"]) simp
qed

lemma interactions_log_extend: "interactions_log event a b \<Longrightarrow> interactions_extend a b"
  unfolding interactions_log_def interactions_extend_def by blast

lemma logI:
  assumes "\<And>es. interaction_run es reg \<Longrightarrow> interaction_run (event # es) reg'"
  shows "interactions_log event reg reg'"
  unfolding interactions_log_def
proof (intro allI impI)
  fix es
  assume "interaction_run es reg"
  from assms [OF this] show "\<exists>new. interaction_run (new @ es) reg' \<and> event \<in> set new"
    by (intro exI [of _ "[event]"]) simp
qed

lemma extendI:
  assumes "\<And>es. interaction_run es reg \<Longrightarrow> interaction_run es reg'"
  shows "interactions_extend reg reg'"
  unfolding interactions_extend_def using assms by (metis append_Nil)

lemma interactions_log_intros:
  "Interaction_Registry.begin_interaction user operation rp reg = (Inr i, reg') \<Longrightarrow>
     interactions_log (Began i (context_binding user)) reg reg'"
  "transition user i state message reg = (Inr t, reg') \<Longrightarrow> shouldPublish t \<Longrightarrow>
     interactions_log (Published i state (tr_promptId t)) reg reg'"
  "Interaction_Registry.respond_to_presence user i response reg = (Inr u, reg') \<Longrightarrow>
     interactions_log (PresenceGiven i (context_binding user) response) reg reg'"
  "Interaction_Registry.submit_secret user i prompt secret reg = (Inr u, reg') \<Longrightarrow>
     interactions_log (SecretGiven i (context_binding user) prompt secret) reg reg'"
  "request_cancel user i reg = (Inr u, reg') \<Longrightarrow>
     interactions_log (CancelAsked i (context_binding user)) reg reg'"
  "presence_check user i stop deadline now reg = (Some p, reg') \<Longrightarrow>
     interactions_log (PresenceReturned i (context_binding user) p) reg reg'"
  "secret_check user i prompt stop deadline now reg = (Some q, reg') \<Longrightarrow>
     interactions_log (SecretReturned i (context_binding user) prompt q) reg reg'"
  by (rule logI, erule (1) interaction_run.begun interaction_run.responded interaction_run.submitted
      interaction_run.cancel interaction_run.presence_waited interaction_run.secret_waited
    | rule logI, erule (2) interaction_run.published)+

lemma failed_unchanged:
  "Interaction_Registry.begin_interaction user operation rp reg = (Inl e, reg') \<Longrightarrow> reg' = reg"
  "transition user i state message reg = (Inl e, reg') \<Longrightarrow> reg' = reg"
  "Interaction_Registry.respond_to_presence user i response reg = (Inl e, reg') \<Longrightarrow> reg' = reg"
  "Interaction_Registry.submit_secret user i prompt secret reg = (Inl e, reg') \<Longrightarrow> reg' = reg"
  "request_cancel user i reg = (Inl e, reg') \<Longrightarrow> reg' = reg"
  "presence_check user i stop deadline now reg = (None, reg') \<Longrightarrow> reg' = reg"
  "secret_check user i prompt stop deadline now reg = (None, reg') \<Longrightarrow> reg' = reg"
  by (auto simp: begin_interaction_def transition_def respond_to_presence_def submit_secret_def request_cancel_def
      presence_check_def secret_check_def Let_def split: option.splits if_splits prod.splits)

lemma transition_extends: "keeps interactions_extend (transition user i state message)"
  unfolding keeps_def
proof (intro allI impI)
  fix reg r reg'
  assume step: "transition user i state message reg = (r, reg')"
  show "interactions_extend reg reg'"
  proof (cases r)
    case (Inl e)
    from failed_unchanged(2) [OF step [unfolded Inl]] show ?thesis by simp
  next
    case (Inr t)
    with step interactions_log_intros(2) interactions_log_extend extendI interaction_run.suppressed
    show ?thesis by (cases "shouldPublish t") blast+
  qed
qed

lemma keeps_by_cases:
  assumes "\<And>reg e reg'. m reg = (Inl e, reg') \<Longrightarrow> reg' = reg"
    and "\<And>reg x reg'. m reg = (Inr x, reg') \<Longrightarrow> interactions_log (event x) reg reg'"
  shows "keeps interactions_extend m"
  unfolding keeps_def
proof (intro allI impI)
  fix reg r reg'
  assume step: "m reg = (r, reg')"
  show "interactions_extend reg reg'"
  proof (cases r)
    case (Inl e)
    from assms(1) [OF step [unfolded Inl]] show ?thesis by simp
  next
    case (Inr x)
    with step assms(2) interactions_log_extend show ?thesis by blast
  qed
qed

lemma checks_extend:
  "interactions_extend reg (snd (presence_check user i stop deadline now reg))"
  "interactions_extend reg (snd (secret_check user i prompt stop deadline now reg))"
proof -
  show "interactions_extend reg (snd (presence_check user i stop deadline now reg))"
  proof (cases "presence_check user i stop deadline now reg")
    case (Pair r reg')
    then show ?thesis
      by (cases r) (auto dest: failed_unchanged(6) interactions_log_extend [OF interactions_log_intros(6)])
  qed
  show "interactions_extend reg (snd (secret_check user i prompt stop deadline now reg))"
  proof (cases "secret_check user i prompt stop deadline now reg")
    case (Pair r reg')
    then show ?thesis
      by (cases r) (auto dest: failed_unchanged(7) interactions_log_extend [OF interactions_log_intros(7)])
  qed
qed

lemma keeps_interactions:
  "keeps interactions_extend (Interaction_Registry.begin_interaction user operation rp)"
  "keeps interactions_extend (Interaction_Registry.respond_to_presence user i response)"
  "keeps interactions_extend (Interaction_Registry.submit_secret user i prompt secret)"
  "keeps interactions_extend (request_cancel user i)"
  "keeps interactions_extend (exec_modify (clear_for user))"
  "keeps interactions_extend (returning (Interaction_Registry.end_interaction user i))"
  "keeps interactions_extend (returning (presence_check user i stop deadline now))"
  "keeps interactions_extend (returning (secret_check user i prompt stop deadline now))"
  "keeps interactions_extend (exec_get f)"
proof -
  show "keeps interactions_extend (Interaction_Registry.begin_interaction user operation rp)"
    by (rule keeps_by_cases [OF failed_unchanged(1) interactions_log_intros(1)])
  show "keeps interactions_extend (Interaction_Registry.respond_to_presence user i response)"
    by (rule keeps_by_cases [OF failed_unchanged(3) interactions_log_intros(3)])
  show "keeps interactions_extend (Interaction_Registry.submit_secret user i prompt secret)"
    by (rule keeps_by_cases [OF failed_unchanged(4) interactions_log_intros(4)])
  show "keeps interactions_extend (request_cancel user i)"
    by (rule keeps_by_cases [OF failed_unchanged(5) interactions_log_intros(5)])
  show "keeps interactions_extend (exec_modify (clear_for user))"
    by (simp add: keeps_modify extendI interaction_run.cleared)
  show "keeps interactions_extend (returning (Interaction_Registry.end_interaction user i))"
    by (auto simp: keeps_def returning_def split: prod.splits intro!: extendI elim: interaction_run.ended)
  show "keeps interactions_extend (returning (presence_check user i stop deadline now))"
    using checks_extend(1) by (auto simp: keeps_def returning_def split: prod.splits) (metis snd_conv)
  show "keeps interactions_extend (returning (secret_check user i prompt stop deadline now))"
    using checks_extend(2) by (auto simp: keeps_def returning_def split: prod.splits) (metis snd_conv)
  show "keeps interactions_extend (exec_get f)" by (auto simp: keeps_def exec_defs)
qed

lemma agents_extendI:
  assumes "\<And>es. agent_run es reg \<Longrightarrow> agent_run (new @ es) reg'"
  shows "agents_extend reg reg'"
  unfolding agents_extend_def using assms by blast

lemma keeps_agents:
  "keeps agents_extend (register_agent peer)"
  "keeps agents_extend (returning (unregister_agent bus_name))"
proof -
  have "agents_extend reg reg'" if "register_agent peer reg = (r, reg')" for reg r reg'
  proof (cases r)
    case (Inl e)
    with that show ?thesis by (intro agents_extendI [of _ "[]"]) (auto elim: agent_run.refused)
  next
    case (Inr user)
    with that show ?thesis by (intro agents_extendI [of _ "[Registered user]"]) (auto elim: agent_run.registered)
  qed
  then show "keeps agents_extend (register_agent peer)" by (simp add: keeps_def)
  have "agents_extend reg reg'" if step: "unregister_agent bus_name reg = (b, reg')" for reg b reg'
  proof (cases b)
    case True
    with step obtain user where "agent_current reg = Some user"
      by (auto simp: unregister_agent_def split: option.splits)
    with step True show ?thesis
      by (intro agents_extendI [of _ "[Unregistered user]"]) (auto elim: agent_run.unregistered)
  next
    case False
    with step show ?thesis by (intro agents_extendI [of _ "[]"]) (auto elim: agent_run.unknown)
  qed
  then show "keeps agents_extend (returning (unregister_agent bus_name))"
    by (auto simp: keeps_def returning_def split: prod.splits)
qed

section \<open>Extending the history of the service\<close>

text \<open>A signal that went to a registered agent, under the generation of its registration.\<close>

definition signals_addressed :: "AgentEvent list \<Rightarrow> StateSignal list \<Rightarrow> bool" where
  "signals_addressed es signals \<longleftrightarrow>
     (\<forall>g \<in> set signals. \<exists>user session. Registered user \<in> set es \<and> uc_session user = Some session \<and>
        sig_destination g = us_interactionAgentId session \<and> sig_generation g = us_generation session)"

definition service_extends :: "Service \<Rightarrow> Service \<Rightarrow> bool" where
  "service_extends s s' \<longleftrightarrow>
     interactions_extend (sv_interactions s) (sv_interactions s') \<and>
     (\<forall>es. agent_run es (sv_registry s) \<and> signals_addressed es (sv_signals s) \<longrightarrow>
        (\<exists>new. agent_run (new @ es) (sv_registry s') \<and> signals_addressed (new @ es) (sv_signals s')))"

lemma signals_addressed_mono: "signals_addressed es signals \<Longrightarrow> signals_addressed (new @ es) signals"
  unfolding signals_addressed_def by fastforce

lemma service_extendsI:
  assumes "interactions_extend (sv_interactions s) (sv_interactions s')"
    "agents_extend (sv_registry s) (sv_registry s')" "sv_signals s' = sv_signals s"
  shows "service_extends s s'"
  using assms signals_addressed_mono unfolding service_extends_def agents_extend_def by metis

lemma service_extends_refl: "reflp service_extends"
  by (simp add: reflp_def service_extendsI)

lemma service_extends_trans: "transp service_extends"
proof (rule transpI)
  fix a b c
  assume ab: "service_extends a b" and bc: "service_extends b c"
  have "\<exists>new. agent_run (new @ es) (sv_registry c) \<and> signals_addressed (new @ es) (sv_signals c)"
    if "agent_run es (sv_registry a)" "signals_addressed es (sv_signals a)" for es
  proof -
    from ab that obtain n1 where "agent_run (n1 @ es) (sv_registry b)" "signals_addressed (n1 @ es) (sv_signals b)"
      unfolding service_extends_def by blast
    with bc obtain n2 where "agent_run (n2 @ n1 @ es) (sv_registry c)" "signals_addressed (n2 @ n1 @ es) (sv_signals c)"
      unfolding service_extends_def by blast
    then show ?thesis by (intro exI [of _ "n2 @ n1"]) simp
  qed
  with ab bc show "service_extends a c"
    using interactions_extend_trans unfolding service_extends_def by blast
qed

lemma extend_snd: "keeps R m \<Longrightarrow> R s (snd (m s))"
  unfolding keeps_def by (metis prod.collapse)

lemma change_extends: "service_extends s (change c s)"
proof -
  have end_extends: "interactions_extend (sv_interactions s) (snd (Interaction_Registry.end_interaction user i (sv_interactions s)))"
    for user i
    using extend_snd [OF keeps_interactions(6) [of user i], of "sv_interactions s"]
    by (simp add: returning_def split: prod.splits)
  have unregister_extends: "agents_extend (sv_registry s) (snd (unregister_agent bus_name (sv_registry s)))" for bus_name
    using extend_snd [OF keeps_agents(2) [of bus_name], of "sv_registry s"]
    by (simp add: returning_def split: prod.splits)
  show ?thesis
    by (cases c) (simp_all add: service_extendsI extend_snd keeps_interactions keeps_agents transition_extends
        checks_extend end_extends unregister_extends extendI interaction_run.cleared)
qed

lemma tick_extends: "service_extends s (s\<lparr>sv_tick := t\<rparr>)"
  by (simp add: service_extendsI)

lemma changes_extend: "service_extends s (fold change cs s)"
proof (induction cs arbitrary: s)
  case (Cons c cs)
  from transpD [OF service_extends_trans change_extends Cons] show ?case by simp
qed (simp add: service_extendsI)

lemma settle_extends: "service_extends s (settle env s)"
  unfolding settle_def by (rule transpD [OF service_extends_trans changes_extend tick_extends])

text \<open>The rules that carry the relation through the operations of the service.\<close>

named_theorems service_keeps

lemma atomic_keeps [service_keeps]: "keeps service_extends body \<Longrightarrow> keeps service_extends (atomic env body)"
  unfolding keeps_def atomic_def using transpD [OF service_extends_trans settle_extends] by blast

lemma on_registry_keeps [service_keeps]:
  assumes "keeps agents_extend f"
  shows "keeps service_extends (on_registry env f)"
  unfolding on_registry_def
  by (rule atomic_keeps) (use assms in \<open>auto simp: keeps_def service_extendsI split: prod.splits\<close>)

lemma on_interactions_keeps [service_keeps]:
  assumes "keeps interactions_extend f"
  shows "keeps service_extends (on_interactions env f)"
  unfolding on_interactions_def
  by (rule atomic_keeps) (use assms in \<open>auto simp: keeps_def service_extendsI split: prod.splits\<close>)

lemma ask_keeps [service_keeps]: "keeps service_extends (ask answer)"
  by (auto simp: keeps_def ask_def tick_extends)

lemma queue_keeps [service_keeps]:
  "keeps service_extends (exec_modify (\<lambda>s. s\<lparr>sv_events := f s\<rparr>))"
  "keeps service_extends (exec_modify (\<lambda>s. s\<lparr>sv_failure := g s\<rparr>))"
  by (simp_all add: keeps_modify service_extendsI)

lemma observers_keep [service_keeps]:
  "keeps agents_extend (\<lambda>reg. (Inr (f reg), reg))"
  "keeps service_extends (throw_if_failed env)"
  by (auto simp: keeps_def throw_if_failed_def intro: keepsD [OF atomic_keeps] split: option.splits)
    (auto simp: keeps_def service_extendsI atomic_def settle_extends split: option.splits)

lemmas [service_keeps] = keeps_interactions keeps_agents transition_extends
  keeps_prim [OF service_extends_refl] keeps_bind [OF service_extends_trans]
  keeps_then [OF service_extends_trans] keeps_catch [OF service_extends_trans] keeps_if keeps_option keeps_prod

section \<open>Every operation extends the history\<close>

lemma read_keeps [service_keeps]:
  "keeps service_extends (read_current env)"
  "keeps service_extends (service_is_current env user)"
  "keeps service_extends (check_session env user)"
  unfolding read_current_def service_is_current_def check_session_def by (intro service_keeps)+

lemma discard_keeps [service_keeps]: "keeps service_extends (discard_agent env user bus_name)"
  unfolding discard_agent_def by (intro service_keeps)

lemma await_agent_keeps [service_keeps]: "keeps service_extends (await_agent env n)"
  by (induction n) (auto intro!: service_keeps)

lemma await_result_keeps:
  assumes "\<And>n. keeps service_extends (pass n)"
  shows "keeps service_extends (await_result pass n)"
  by (induction n) (auto intro!: assms service_keeps)

lemma passes_keep [service_keeps]:
  "keeps service_extends (presence_pass env user i deadline n)"
  "keeps service_extends (secret_pass env user i prompt deadline n)"
  unfolding presence_pass_def secret_pass_def by (intro service_keeps)+

lemma await_keeps [service_keeps]:
  assumes "\<And>deadline n. keeps service_extends (pass deadline n)"
  shows "keeps service_extends (await env timeout refusal pass)"
  unfolding await_def by (intro service_keeps await_result_keeps assms)

lemma channel_keeps [service_keeps]:
  "keeps service_extends (service_current_context env)"
  "keeps service_extends (service_begin_interaction env user request)"
  "keeps service_extends (service_publish_state env user request state message)"
  "keeps service_extends (service_end_interaction env user request)"
  "keeps service_extends (service_wait_for_presence env user request timeout)"
  "keeps service_extends (service_wait_for_secret env user request prompt timeout)"
  "keeps service_extends (service_cancellation_requested env user request)"
  unfolding service_current_context_def service_begin_interaction_def service_publish_state_def
    service_end_interaction_def service_wait_for_presence_def service_wait_for_secret_def
    service_cancellation_requested_def
  by (intro service_keeps)+

lemma handler_keeps [service_keeps]:
  "keeps service_extends (send_reply env reply)"
  "keeps service_extends body \<Longrightarrow> keeps service_extends (handler env name body)"
  unfolding send_reply_def handler_def by (intro service_keeps | assumption)+

lemma registered_caller_keeps [service_keeps]: "keeps service_extends (registered_caller env call g)"
  unfolding registered_caller_def Let_def by (intro service_keeps)

lemma handlers_keep [service_keeps]:
  "keeps service_extends (has_available_agent env)"
  "keeps service_extends (service_respond_to_presence env call presence_args)"
  "keeps service_extends (service_submit_secret env call secret_args)"
  "keeps service_extends (service_cancel_interaction env call cancel_args)"
  "keeps service_extends (service_register_agent env call)"
  "keeps service_extends (service_unregister_agent env call)"
  "keeps service_extends (unregister_disconnected_agent env bus_name)"
  unfolding has_available_agent_def service_respond_to_presence_def service_submit_secret_def
    service_cancel_interaction_def service_register_agent_def service_unregister_agent_def
    unregister_disconnected_agent_def
  by (intro service_keeps)+

lemma dispatch_keeps [service_keeps]:
  "keeps service_extends (dispatch_event env event)"
  "keeps service_extends (record_failure env message)"
proof -
  show "keeps service_extends (dispatch_event env event)"
    by (cases event) (auto intro!: service_keeps)
  show "keeps service_extends (record_failure env message)"
    unfolding record_failure_def by (intro service_keeps)
qed

text \<open>A signal is added right after its agent was found to be the current one.\<close>

lemma current_is_registered:
  assumes "agent_run es reg" "is_current user reg"
  shows "\<exists>known. Registered known \<in> set es \<and> uc_session known = uc_session user"
proof -
  from assms(2) obtain c where "agent_current reg = Some c" "context_binding c = context_binding user"
    by (auto simp: is_current_def split: option.splits)
  with agent_run_bounds [OF assms(1)] show ?thesis by (auto simp: context_binding_def)
qed

lemma signal_extends:
  assumes "is_current (ev_user event) (sv_registry s)" "uc_session (ev_user event) = Some session"
  shows "service_extends s (s\<lparr>sv_signals := sv_signals s @ [state_signal event session]\<rparr>)"
proof -
  have "signals_addressed es (sv_signals s @ [state_signal event session])"
    if "agent_run es (sv_registry s)" "signals_addressed es (sv_signals s)" for es
    using that(2) current_is_registered [OF that(1) assms(1)] assms(2)
    by (auto simp: signals_addressed_def state_signal_def)
  then show ?thesis unfolding service_extends_def by (auto intro: exI [of _ "[]"])
qed

lemma service_is_current_result:
  assumes "service_is_current env user s = (r, s')"
  shows "r = Inr (is_current user (sv_registry s'))" "s' = settle env s"
  using assms by (auto simp: service_is_current_def on_registry_def atomic_def)

lemma send_events_keeps [service_keeps]: "keeps service_extends (send_events env events)"
proof (induction events)
  case (Cons event events)
  show ?case
  proof (cases "uc_session (ev_user event)")
    case None
    with Cons show ?thesis by simp
  next
    case (Some session)
    have "service_extends s s'" if run: "send_events env (event # events) s = (r, s')" for s r s'
    proof -
      let ?checked = "settle env s"
      let ?ticked = "?checked\<lparr>sv_tick := sv_tick ?checked + 1\<rparr>"
      let ?sent = "?ticked\<lparr>sv_signals := sv_signals ?ticked @ [state_signal event session]\<rparr>"
      note trans = transpD [OF service_extends_trans]
      have ticked: "service_extends s ?ticked" by (rule trans [OF settle_extends tick_extends])
      have sent: "service_extends s ?sent" if "is_current (ev_user event) (sv_registry ?checked)"
        by (rule trans [OF ticked signal_extends]) (use that Some in simp_all)
      show ?thesis
        using run Some trans [OF settle_extends keepsD [OF Cons]] ticked trans [OF sent keepsD [OF Cons]]
        by (auto simp: exec_bind_def exec_then_def exec_prim ask_def service_is_current_def on_registry_def
            atomic_def split: if_splits)
    qed
    then show ?thesis by (simp add: keeps_def)
  qed
qed (simp add: service_keeps)

lemma send_queued_events_keeps [service_keeps]: "keeps service_extends (send_queued_events env)"
  unfolding send_queued_events_def
  by (intro service_keeps) (auto simp: keeps_def service_extendsI)

lemma service_loop_keeps [service_keeps]:
  "keeps service_extends (dispatch_events env events)"
  "keeps service_extends (service_rounds env rounds)"
  "keeps service_extends (service_event_loop env rounds)"
proof -
  show events: "keeps service_extends (dispatch_events env events)" for events
    by (induction events) (auto intro!: service_keeps)
  show rounds: "keeps service_extends (service_rounds env rounds)" for rounds
    by (induction rounds) (auto intro!: service_keeps events)
  show "keeps service_extends (service_event_loop env rounds)"
    unfolding service_event_loop_def by (intro service_keeps rounds)
qed

section \<open>What an operation records\<close>

lemma service_extends_interactions:
  "service_extends s s' \<Longrightarrow> interactions_extend (sv_interactions s) (sv_interactions s')"
  by (simp add: service_extends_def)

lemma on_interactions_result:
  assumes "on_interactions env f s = (r, s')"
  obtains reg where "f (sv_interactions (settle env s)) = (r, reg)" "s' = (settle env s)\<lparr>sv_interactions := reg\<rparr>"
  using assms by (auto simp: on_interactions_def atomic_def split: prod.splits)

lemma on_interactions_log:
  assumes "on_interactions env f s = (r, s')"
    and "\<And>reg reg'. f reg = (r, reg') \<Longrightarrow> interactions_log event reg reg'"
  shows "interactions_log event (sv_interactions s) (sv_interactions s')"
proof -
  from assms(1) obtain reg where reg: "f (sv_interactions (settle env s)) = (r, reg)"
    "s' = (settle env s)\<lparr>sv_interactions := reg\<rparr>" by (rule on_interactions_result)
  from assms(2) [OF reg(1)] reg(2)
  have "interactions_log event (sv_interactions (settle env s)) (sv_interactions s')" by simp
  from interactions_extend_log [OF service_extends_interactions [OF settle_extends] this interactions_extend_refl]
  show ?thesis .
qed

lemma later_log:
  assumes "keeps service_extends m" "m s = (r, s1)" "interactions_log event (sv_interactions s1) (sv_interactions s2)"
  shows "interactions_log event (sv_interactions s) (sv_interactions s2)"
  using interactions_extend_log [OF service_extends_interactions [OF keepsD [OF assms(1,2)]] assms(3)
      interactions_extend_refl] .

lemma begin_records:
  assumes "service_begin_interaction env user request s = (Inr i, s')" "i \<noteq> 0"
  shows "interactions_log (Began i (context_binding user)) (sv_interactions s) (sv_interactions s')"
proof -
  from assms obtain s1 s2 where "throw_if_failed env s = (Inr (), s1)"
    "service_is_current env user s1 = (Inr True, s2)"
    "on_interactions env (Interaction_Registry.begin_interaction user (uir_operation request)
       (uir_relyingPartyId request)) s2 = (Inr i, s')"
    unfolding service_begin_interaction_def by (auto simp: exec_simps split: if_splits)
  note later_log [OF observers_keep(2) this(1)] later_log [OF read_keeps(2) this(2)]
  moreover have "interactions_log (Began i (context_binding user)) (sv_interactions s2) (sv_interactions s')"
    by (rule on_interactions_log [OF \<open>on_interactions env _ s2 = _\<close>]) (rule interactions_log_intros(1))
  ultimately show ?thesis by blast
qed

lemma pass_records:
  "presence_pass env user i deadline n s = (Inr (Some p), s') \<Longrightarrow>
     interactions_log (PresenceReturned i (context_binding user) p) (sv_interactions s) (sv_interactions s')"
  "secret_pass env user i prompt deadline n s = (Inr (Some q), s') \<Longrightarrow>
     interactions_log (SecretReturned i (context_binding user) prompt q) (sv_interactions s) (sv_interactions s')"
proof -
  assume "presence_pass env user i deadline n s = (Inr (Some p), s')"
  then have "on_interactions env (returning (presence_check user i (se_stop env (sv_tick s)) deadline
      (pass_time env deadline n (sv_tick s)))) s = (Inr (Some p), s')"
    by (simp add: presence_pass_def exec_bind_def exec_prim)
  then show "interactions_log (PresenceReturned i (context_binding user) p) (sv_interactions s) (sv_interactions s')"
    by (rule on_interactions_log) (rule interactions_log_intros(6), simp add: returning_def split: prod.splits)
next
  assume "secret_pass env user i prompt deadline n s = (Inr (Some q), s')"
  then have "on_interactions env (returning (secret_check user i prompt (se_stop env (sv_tick s)) deadline
      (pass_time env deadline n (sv_tick s)))) s = (Inr (Some q), s')"
    by (simp add: secret_pass_def exec_bind_def exec_prim)
  then show "interactions_log (SecretReturned i (context_binding user) prompt q) (sv_interactions s) (sv_interactions s')"
    by (rule on_interactions_log) (rule interactions_log_intros(7), simp add: returning_def split: prod.splits)
qed

lemma await_result_Some:
  assumes "await_result pass n s = (Inr (Some x), s')" "\<And>n. keeps service_extends (pass n)"
    and "\<And>n s s'. pass n s = (Inr (Some x), s') \<Longrightarrow> interactions_log event (sv_interactions s) (sv_interactions s')"
  shows "interactions_log event (sv_interactions s) (sv_interactions s')"
  using assms(1)
proof (induction n arbitrary: s)
  case 0
  with assms(3) show ?case by simp
next
  case (Suc n)
  then obtain r s1 where pass: "pass (Suc n) s = (Inr r, s1)"
    and rest: "(if r \<noteq> None then exec_return r else await_result pass n) s1 = (Inr (Some x), s')"
    by (auto simp: exec_simps)
  show ?case
  proof (cases r)
    case None
    with rest Suc.IH have "interactions_log event (sv_interactions s1) (sv_interactions s')" by simp
    from later_log [OF assms(2) pass this] show ?thesis .
  next
    case (Some y)
    with rest pass assms(3) show ?thesis by (auto simp: exec_simps)
  qed
qed

lemma await_Some:
  assumes "await env timeout refusal pass s = (Inr (Some x), s')" "\<And>deadline n. keeps service_extends (pass deadline n)"
    and "\<And>deadline n s s'. pass deadline n s = (Inr (Some x), s') \<Longrightarrow>
      interactions_log event (sv_interactions s) (sv_interactions s')"
  shows "interactions_log event (sv_interactions s) (sv_interactions s')"
proof -
  from assms(1) obtain now s1 n s2 where "ask (se_clock env) s = (Inr now, s1)" "ask (se_wakeups env) s1 = (Inr n, s2)"
    and rest: "await_result (pass (now + nat timeout)) n s2 = (Inr (Some x), s')"
    unfolding await_def by (auto simp: exec_simps split: if_splits)
  note later_log [OF ask_keeps this(1)] later_log [OF ask_keeps this(2)]
  moreover have "interactions_log event (sv_interactions s2) (sv_interactions s')"
    by (rule await_result_Some [OF rest assms(2)]) (rule assms(3))
  ultimately show ?thesis by blast
qed

lemma answers_given:
  "presence_answer r = Inr answer \<Longrightarrow> \<exists>p. r = Some p \<and> (answer = approved \<longrightarrow> p = presence_wait_approved) \<and>
     (answer = denied \<longrightarrow> p = presence_wait_denied)"
  "secret_answer q = Inr secret \<Longrightarrow> q = Some (secret_provided secret)"
  by (cases r rule: presence_answer.cases; simp) (cases q rule: secret_answer.cases; simp)

lemma wait_for_presence_records:
  assumes "service_wait_for_presence env user request timeout s = (Inr answer, s')"
  shows "\<exists>p. interactions_log (PresenceReturned (uir_requestId request) (context_binding user) p)
       (sv_interactions s) (sv_interactions s') \<and>
     (answer = approved \<longrightarrow> p = presence_wait_approved) \<and> (answer = denied \<longrightarrow> p = presence_wait_denied)"
proof -
  from assms obtain r s1 where start: "throw_if_failed env s = (Inr (), s1)"
    and wait: "await env timeout ''Presence timeout must be positive''
       (presence_pass env user (uir_requestId request)) s1 = (Inr r, s')"
    and answer: "presence_answer r = Inr answer"
    unfolding service_wait_for_presence_def by (auto simp: exec_simps)
  from answers_given(1) [OF answer] obtain p where p: "r = Some p" "answer = approved \<longrightarrow> p = presence_wait_approved"
      "answer = denied \<longrightarrow> p = presence_wait_denied" by blast
  have "interactions_log (PresenceReturned (uir_requestId request) (context_binding user) p)
      (sv_interactions s1) (sv_interactions s')"
    by (rule await_Some [OF wait [unfolded p(1)] passes_keep(1)]) (rule pass_records(1))
  from later_log [OF observers_keep(2) start this] p(2,3) show ?thesis by blast
qed

lemma wait_for_secret_records:
  assumes "service_wait_for_secret env user request prompt timeout s = (Inr secret, s')"
  shows "interactions_log (SecretReturned (uir_requestId request) (context_binding user) prompt (secret_provided secret))
       (sv_interactions s) (sv_interactions s')"
proof -
  from assms obtain r s1 where start: "throw_if_failed env s = (Inr (), s1)"
    and wait: "await env timeout ''Secret timeout must be positive''
       (secret_pass env user (uir_requestId request) prompt) s1 = (Inr r, s')"
    and answer: "secret_answer r = Inr secret"
    unfolding service_wait_for_secret_def by (auto simp: exec_simps)
  have "interactions_log (SecretReturned (uir_requestId request) (context_binding user) prompt (secret_provided secret))
      (sv_interactions s1) (sv_interactions s')"
    by (rule await_Some [OF wait [unfolded answers_given(2) [OF answer]] passes_keep(2)]) (rule pass_records(2))
  from later_log [OF observers_keep(2) start this] show ?thesis .
qed

text \<open>The wait always ends with a result: in the last pass the deadline has passed.\<close>

lemma await_result_returns:
  assumes "await_result pass n s = (Inr r, s')" "\<And>s s'. pass 0 s \<noteq> (Inr None, s')"
  shows "r \<noteq> None"
  using assms(1)
proof (induction n arbitrary: s)
  case 0
  with assms(2) [of s s'] show ?case by (cases r) auto
next
  case (Suc n)
  then show ?case by (auto simp: exec_simps split: if_splits)
qed

lemma last_pass_returns:
  "presence_pass env user i deadline 0 s \<noteq> (Inr None, s')"
  "secret_pass env user i prompt deadline 0 s \<noteq> (Inr None, s')"
  by (auto simp: presence_pass_def secret_pass_def exec_bind_def exec_prim on_interactions_def atomic_def
      returning_def pass_time_def presence_check_def secret_check_def Let_def
      split: prod.splits option.splits if_splits)

section \<open>What a call from the bus may change\<close>

text \<open>
  The state after an operation of one thread is the state before it, changed by the other threads at
  their moments and by the thread's own accesses, in this order.
\<close>

inductive performs :: "ServiceEnv \<Rightarrow> Change list \<Rightarrow> Service \<Rightarrow> Service \<Rightarrow> bool" for env where
  finished: "performs env [] s s"
| others: "performs env own (settle env s) s' \<Longrightarrow> performs env own s s'"
| asked: "performs env own (s\<lparr>sv_tick := sv_tick s + 1\<rparr>) s' \<Longrightarrow> performs env own s s'"
| own: "performs env own (change c s) s' \<Longrightarrow> performs env (c # own) s s'"

lemma performs_append:
  "performs env a s s1 \<Longrightarrow> performs env b s1 s2 \<Longrightarrow> performs env (a @ b) s s2"
  by (induction rule: performs.induct) (auto intro: performs.intros)

lemma performs_nil: "performs env [] s s1 \<Longrightarrow> performs env b s1 s2 \<Longrightarrow> performs env b s s2"
  using performs_append [of env "[]"] by simp

lemma on_interactions_performs:
  assumes "on_interactions env f s = (r, s')"
    and "\<And>s. change c s = s\<lparr>sv_interactions := snd (f (sv_interactions s))\<rparr>"
  shows "performs env [c] s s'"
proof -
  from assms(1) obtain reg where reg: "f (sv_interactions (settle env s)) = (r, reg)"
    "s' = (settle env s)\<lparr>sv_interactions := reg\<rparr>" by (rule on_interactions_result)
  then have "s' = change c (settle env s)" by (simp add: assms(2))
  then show ?thesis by (simp add: performs.others [OF performs.own [OF performs.finished]])
qed

lemma discard_performs:
  assumes "discard_agent env user bus_name s = (r, s')"
  shows "performs env [Clears user, Unregisters bus_name] s s' \<and> r = Inr ()"
proof -
  let ?cleared = "change (Clears user) (settle env s)"
  have "s' = change (Unregisters bus_name) (settle env ?cleared)" "r = Inr ()"
    using assms by (auto simp: discard_agent_def exec_bind_def exec_then_def exec_prim on_interactions_def
        on_registry_def atomic_def returning_def split: prod.splits)
  moreover have "performs env [Clears user, Unregisters bus_name] s (change (Unregisters bus_name) (settle env ?cleared))"
    by (rule performs.others, rule performs.own, rule performs.others, rule performs.own, rule performs.finished)
  ultimately show ?thesis by simp
qed

text \<open>The caller is the agent that is registered when the call is checked.\<close>

definition registered_as :: "ServiceEnv \<Rightarrow> MethodCall \<Rightarrow> u64 \<Rightarrow> Service \<Rightarrow> UserContext \<Rightarrow> bool" where
  "registered_as env call generation s user \<longleftrightarrow>
     agent_current (sv_registry (settle env s)) = Some user \<and>
     (\<exists>session. uc_session user = Some session \<and> call_sender call = Some (us_interactionAgentId session) \<and>
        us_generation session = generation)"

definition session_active :: "ServiceEnv \<Rightarrow> Service \<Rightarrow> UserContext \<Rightarrow> bool" where
  "session_active env s user \<longleftrightarrow> session_is_still_active (se_logind env (sv_tick s + 1)) user"

lemma registered_caller_cases:
  assumes "registered_caller env call g s = (r, s')"
  obtains (refused) e where "r = Inl e" "performs env [] s s'"
  | (inactive) user e where "r = Inl e" "registered_as env call g s user" "\<not> session_active env s user"
      "performs env [Clears user, Unregisters (agent_bus_name user)] s s'"
  | (caller) user where "r = Inr user" "registered_as env call g s user" "session_active env s user"
      "performs env [] s s'"
proof -
  let ?s1 = "settle env s"
  let ?s2 = "?s1\<lparr>sv_tick := sv_tick ?s1 + 1\<rparr>"
  have tick: "sv_tick ?s1 = sv_tick s + 1" by (simp add: settle_def)
  have looked: "read_current env s = (Inr (agent_current (sv_registry ?s1)), ?s1)"
    by (simp add: read_current_def on_registry_def atomic_def agent_current_context_def)
  have read: "performs env [] s ?s1" by (rule performs.others, rule performs.finished)
  have checked: "performs env [] s ?s2" by (rule performs.others, rule performs.asked, rule performs.finished)
  consider (stale) e where "r = Inl e" "s' = ?s1"
    | (known) user where "registered_as env call g s user"
        "exec_bind (check_session env user) (\<lambda>still_active. if still_active then exec_return user
           else exec_then (discard_agent env user (the (call_sender call)))
             (exec_throw (RuntimeError ''Calling agent session is not active''))) ?s1 = (r, s')"
  proof (cases "\<exists>user. registered_as env call g s user \<and> is_unique_name (call_sender call)")
    case True
    then obtain user where user: "registered_as env call g s user" "is_unique_name (call_sender call)" by blast
    with assms looked known [of user] show ?thesis
      by (auto simp: registered_caller_def exec_bind_def [of "read_current env"] registered_as_def Let_def)
  next
    case False
    have "registered_caller env call g s = (Inl (RuntimeError ''Calling agent registration is stale''), ?s1)"
      using False looked unfolding registered_caller_def exec_bind_def registered_as_def
      by (auto simp: exec_prim eq_commute [of "Some x" "call_sender call" for x] split: option.splits)
    with assms stale show ?thesis by auto
  qed
  then show ?thesis
  proof cases
    case stale
    with read show ?thesis by (auto intro: refused)
  next
    case known
    have name: "the (call_sender call) = agent_bus_name user"
      using known(1) by (auto simp: registered_as_def agent_bus_name_def)
    show ?thesis
    proof (cases "session_active env s user")
      case True
      with known(2) tick have "r = Inr user" "s' = ?s2"
        by (simp_all add: exec_bind_def check_session_def ask_def session_active_def exec_prim)
      with caller [of user] known(1) True checked show ?thesis by simp
    next
      case False
      with known(2) tick name have "exec_then (discard_agent env user (agent_bus_name user))
          (exec_throw (RuntimeError ''Calling agent session is not active'')) ?s2 = (r, s')"
        by (simp add: exec_bind_def check_session_def ask_def session_active_def)
      then have "performs env [Clears user, Unregisters (agent_bus_name user)] ?s2 s'" "\<exists>e. r = Inl e"
        by (auto simp: exec_then_def exec_bind_def exec_prim dest!: discard_performs split: prod.splits sum.splits)
      with inactive known(1) False performs_nil [OF checked] show ?thesis by blast
    qed
  qed
qed

text \<open>
  The effect of a call that is meant to make the change \<open>own user\<close>: nothing; that change, when the
  caller is registered and its session active; or the end of the caller's own registration.
\<close>

definition call_effect ::
    "ServiceEnv \<Rightarrow> MethodCall \<Rightarrow> u64 \<Rightarrow> (UserContext \<Rightarrow> Change \<Rightarrow> bool) \<Rightarrow> Service \<Rightarrow> Service \<Rightarrow> bool" where
  "call_effect env call generation own s s' \<longleftrightarrow>
     performs env [] s s' \<or>
     (\<exists>user. registered_as env call generation s user \<and>
        (if session_active env s user then \<exists>c. own user c \<and> performs env [c] s s'
         else performs env [Clears user, Unregisters (agent_bus_name user)] s s'))"

lemma guarded_call:
  assumes run: "handler env name (exec_bind (registered_caller env call g) body) s = (r, s')"
    and body: "\<And>user s r s'. body user s = (r, s') \<Longrightarrow> performs env [] s s' \<or> (\<exists>c. own user c \<and> performs env [c] s s')"
    and accepted: "\<And>user s s'. body user s = (Inr Reply_done, s') \<Longrightarrow> interactions_log (event user) (sv_interactions s) (sv_interactions s')"
  shows "call_effect env call g own s s' \<and>
    (r = Inr Reply_done \<longrightarrow> (\<exists>user. registered_as env call g s user \<and> session_active env s user \<and>
       interactions_log (event user) (sv_interactions s) (sv_interactions s')))"
proof -
  obtain q s1 where checked: "registered_caller env call g s = (q, s1)" by fastforce
  have failed: "performs env cs s s' \<and> r \<noteq> Inr Reply_done" if "exec_bind (registered_caller env call g) body s = (Inl e, s2)"
    "performs env cs s s2" for e s2 cs
  proof -
    from run that(1) have "s' = s2\<lparr>sv_tick := sv_tick s2 + 1\<rparr>" "r \<noteq> Inr Reply_done"
      by (auto simp: handler_def exec_catch_def exec_bind_def ask_def exec_prim split: if_splits)
    with performs_append [OF that(2) performs.asked [OF performs.finished]] show ?thesis by simp
  qed
  from checked show ?thesis
  proof (cases rule: registered_caller_cases)
    case (refused e)
    with checked have "exec_bind (registered_caller env call g) body s = (Inl e, s1)" by (simp add: exec_bind_def)
    from failed [OF this refused(2)] show ?thesis by (auto simp: call_effect_def)
  next
    case (inactive user e)
    with checked have "exec_bind (registered_caller env call g) body s = (Inl e, s1)" by (simp add: exec_bind_def)
    from failed [OF this inactive(4)] inactive(2,3) show ?thesis by (auto simp: call_effect_def)
  next
    case (caller user)
    obtain p s2 where ran: "body user s1 = (p, s2)" by fastforce
    with checked caller(1) have all: "exec_bind (registered_caller env call g) body s = (p, s2)"
      by (simp add: exec_bind_def)
    from body [OF ran] performs_nil [OF caller(4)]
    have effect: "performs env [] s s2 \<or> (\<exists>c. own user c \<and> performs env [c] s s2)" by blast
    show ?thesis
    proof (cases p)
      case (Inl e)
      from effect failed [OF all [unfolded Inl]] caller(2,3) show ?thesis by (auto simp: call_effect_def)
    next
      case (Inr reply)
      with run all have fin: "r = Inr reply" "s' = s2" by (simp_all add: handler_def exec_catch_def)
      have "interactions_log (event user) (sv_interactions s) (sv_interactions s')" if "reply = Reply_done"
        using later_log [OF registered_caller_keeps checked] accepted [of user s1 s2] ran Inr fin(2) that by simp
      with effect caller(2,3) fin show ?thesis by (auto simp: call_effect_def)
    qed
  qed
qed

lemma interaction_body:
  assumes "exec_then (on_interactions env f) (send_reply env Reply_done) s = (r, s')"
    and "\<And>s. change c s = s\<lparr>sv_interactions := snd (f (sv_interactions s))\<rparr>"
    and "\<And>reg u reg'. f reg = (Inr u, reg') \<Longrightarrow> interactions_log event reg reg'"
  shows "performs env [c] s s'"
    "r = Inr Reply_done \<Longrightarrow> interactions_log event (sv_interactions s) (sv_interactions s')"
proof -
  obtain q s1 where op: "on_interactions env f s = (q, s1)" by fastforce
  have step: "performs env [c] s s1" by (rule on_interactions_performs [OF op assms(2)])
  have tick: "performs env [c] s (s1\<lparr>sv_tick := sv_tick s1 + 1\<rparr>)"
    using performs_append [OF step performs.asked [OF performs.finished]] by simp
  have after: "s' = s1 \<and> (\<exists>e. q = Inl e \<and> r = Inl e) \<or> s' = s1\<lparr>sv_tick := sv_tick s1 + 1\<rparr> \<and> (\<exists>u. q = Inr u)"
    using assms(1) op
    by (auto simp: exec_then_def exec_bind_def send_reply_def ask_def exec_prim split: sum.splits if_splits)
  with step tick show "performs env [c] s s'" by blast
  assume "r = Inr Reply_done"
  with after obtain u where "q = Inr u" "sv_interactions s' = sv_interactions s1" by auto
  with on_interactions_log [OF op, of event] assms(3) show "interactions_log event (sv_interactions s) (sv_interactions s')"
    by simp
qed

lemma interaction_call:
  assumes run: "handler env name (exec_bind (registered_caller env call g) (\<lambda>user.
      exec_then (on_interactions env (f user)) (send_reply env Reply_done))) s = (r, s')"
    and own: "\<And>user s. change (own user) s = s\<lparr>sv_interactions := snd (f user (sv_interactions s))\<rparr>"
    and log: "\<And>user reg u reg'. f user reg = (Inr u, reg') \<Longrightarrow> interactions_log (event user) reg reg'"
  shows "call_effect env call g (\<lambda>user c. c = own user) s s' \<and>
    (r = Inr Reply_done \<longrightarrow> (\<exists>user. registered_as env call g s user \<and> session_active env s user \<and>
       interactions_log (event user) (sv_interactions s) (sv_interactions s')))"
proof (rule guarded_call [OF run])
  fix user t q t'
  assume "exec_then (on_interactions env (f user)) (send_reply env Reply_done) t = (q, t')"
  from interaction_body(1) [OF this own log]
  show "performs env [] t t' \<or> (\<exists>c. c = own user \<and> performs env [c] t t')" by simp
next
  fix user t t'
  assume "exec_then (on_interactions env (f user)) (send_reply env Reply_done) t = (Inr Reply_done, t')"
  from interaction_body(2) [OF this own log refl]
  show "interactions_log (event user) (sv_interactions t) (sv_interactions t')" .
qed

lemma respond_call:
  assumes "service_respond_to_presence env call (Inr (g, i, response)) s = (r, s')"
  shows "call_effect env call g (\<lambda>user c. c = Responds user i response) s s' \<and>
    (r = Inr Reply_done \<longrightarrow> (\<exists>user. registered_as env call g s user \<and> session_active env s user \<and>
       interactions_log (PresenceGiven i (context_binding user) response) (sv_interactions s) (sv_interactions s')))"
  using assms unfolding service_respond_to_presence_def exec_lift_bind prod.case
  by (rule interaction_call) (simp, rule interactions_log_intros(3))

lemma cancel_call:
  assumes "service_cancel_interaction env call (Inr (g, i)) s = (r, s')"
  shows "call_effect env call g (\<lambda>user c. c = Cancels user i) s s' \<and>
    (r = Inr Reply_done \<longrightarrow> (\<exists>user. registered_as env call g s user \<and> session_active env s user \<and>
       interactions_log (CancelAsked i (context_binding user)) (sv_interactions s) (sv_interactions s')))"
  using assms unfolding service_cancel_interaction_def exec_lift_bind prod.case
  by (rule interaction_call) (simp, rule interactions_log_intros(5))

lemma unreadable_secret:
  assumes "handler env name (exec_bind (registered_caller env call g) (\<lambda>user. exec_throw e)) s = (r, s')"
  shows "call_effect env call g own s s' \<and> r \<noteq> Inr Reply_done"
proof
  show "call_effect env call g own s s'"
    using guarded_call [OF assms, of own "\<lambda>_. Began 0 undefined"]
    by (auto simp: exec_prim intro: performs.finished)
  show "r \<noteq> Inr Reply_done"
    using assms by (auto simp: handler_def exec_catch_def exec_bind_def ask_def exec_prim
        split: prod.splits sum.splits if_splits)
qed

lemma submit_call:
  assumes "service_submit_secret env call (Inr (g, i, prompt, pipe)) s = (r, s')"
  shows "call_effect env call g (\<lambda>user c. \<exists>secret. read_secret_pipe pipe = Inr secret \<and> c = Submits user i prompt secret) s s' \<and>
    (r = Inr Reply_done \<longrightarrow> (\<exists>secret. read_secret_pipe pipe = Inr secret \<and> (\<exists>user. registered_as env call g s user \<and>
       session_active env s user \<and>
       interactions_log (SecretGiven i (context_binding user) prompt secret) (sv_interactions s) (sv_interactions s'))))"
proof (cases "read_secret_pipe pipe")
  case (Inl e)
  from unreadable_secret [OF assms [unfolded service_submit_secret_def exec_lift_bind prod.case Inl]]
  show ?thesis by blast
next
  case (Inr secret)
  have "call_effect env call g (\<lambda>user c. c = Submits user i prompt secret) s s' \<and>
    (r = Inr Reply_done \<longrightarrow> (\<exists>user. registered_as env call g s user \<and> session_active env s user \<and>
       interactions_log (SecretGiven i (context_binding user) prompt secret) (sv_interactions s) (sv_interactions s')))"
    using assms unfolding service_submit_secret_def exec_lift_bind prod.case Inr
    by (rule interaction_call) (simp, rule interactions_log_intros(4))
  with Inr show ?thesis by simp
qed

section \<open>Runs of the service\<close>

text \<open>
  The worker calls the channel, the bus thread runs its loop; each operation meets its own
  environment, in which the other thread may act at every moment.
\<close>

inductive service_run :: "Service \<Rightarrow> bool" where
  start: "service_run initial_service"
| current_context: "service_run s \<Longrightarrow> service_current_context env s = (c, s') \<Longrightarrow> service_run s'"
| begins: "service_run s \<Longrightarrow> service_begin_interaction env user request s = (i, s') \<Longrightarrow> service_run s'"
| publishes: "service_run s \<Longrightarrow> service_publish_state env user request state message s = (p, s') \<Longrightarrow> service_run s'"
| ends: "service_run s \<Longrightarrow> service_end_interaction env user request s = (u, s') \<Longrightarrow> service_run s'"
| awaits_presence: "service_run s \<Longrightarrow> service_wait_for_presence env user request timeout s = (a, s') \<Longrightarrow> service_run s'"
| awaits_secret: "service_run s \<Longrightarrow> service_wait_for_secret env user request prompt timeout s = (b, s') \<Longrightarrow> service_run s'"
| asks_cancellation: "service_run s \<Longrightarrow> service_cancellation_requested env user request s = (q, s') \<Longrightarrow> service_run s'"
| loops: "service_run s \<Longrightarrow> service_event_loop env rounds s = (u, s') \<Longrightarrow> service_run s'"

definition service_ok :: "Service \<Rightarrow> bool" where
  "service_ok s \<longleftrightarrow>
     (\<exists>interactions agents. interaction_run interactions (sv_interactions s) \<and>
        agent_run agents (sv_registry s) \<and> signals_addressed agents (sv_signals s))"

lemma service_ok_extends: "service_ok s \<Longrightarrow> service_extends s s' \<Longrightarrow> service_ok s'"
  unfolding service_ok_def service_extends_def interactions_extend_def by blast

lemma service_ok_keeps: "keeps service_extends m \<Longrightarrow> service_ok s \<Longrightarrow> m s = (r, s') \<Longrightarrow> service_ok s'"
  by (erule service_ok_extends, erule (1) keepsD)

lemmas operations_ok = channel_keeps [THEN service_ok_keeps] service_loop_keeps(3) [THEN service_ok_keeps]

lemma initial_service_ok: "service_ok initial_service"
  unfolding service_ok_def initial_service_def signals_addressed_def
  by (auto intro: interaction_run.start agent_run.start)

section \<open>A sample run\<close>

text \<open>An agent of user 1000 registers, the worker asks for presence and the signal is sent.\<close>

definition sample_service_env :: ServiceEnv where
  "sample_service_env = \<lparr>se_others = \<lambda>_. [], se_logind = \<lambda>_. \<lparr>sd_session_get_uid = \<lambda>_. (0, 1000),
       sd_session_is_active = \<lambda>_. 1, sd_session_is_remote = \<lambda>_. 0\<rparr>,
     se_clock = \<lambda>t. t, se_stop = \<lambda>_. False, se_wakeups = \<lambda>_. 0, se_send = \<lambda>_. True,
     se_bus = \<lparr>bus_GetSessionByPID = \<lambda>_. Inr ''/s'', bus_session_Id = \<lambda>_. Inr ''c1''\<rparr>,
     se_accounts = \<lparr>acc_requested_size = 1024, acc_getpwuid = \<lambda>_ _. Account_found ''u'',
       acc_getpwnam = \<lambda>_ _. Account_found 900\<rparr>\<rparr>"

definition sample_call :: MethodCall where
  "sample_call = \<lparr>call_sender = Some '':1.5'', call_euid = Inr 1000, call_pid = Inr 42\<rparr>"

definition sample_agent :: UserContext where
  "sample_agent = \<lparr>uc_uid = 1000, uc_name = ''u'', uc_session = Some \<lparr>us_sessionId = ''c1'',
     us_interactionAgentId = '':1.5'', us_generation = 1\<rparr>\<rparr>"

definition sample_prompt :: UserInteractionRequest where
  "sample_prompt = \<lparr>uir_operation = get_assertion, uir_relyingPartyId = ''rp'', uir_requestId = 1\<rparr>"

definition sample_round :: "BusEvent list \<Rightarrow> Round" where
  "sample_round events = \<lparr>rd_stop_before = False, rd_poll_ok = True, rd_stop_after = False, rd_pending = events\<rparr>"

definition sample_registered :: Service where
  "sample_registered = initial_service\<lparr>sv_registry := \<lparr>agent_current = Some sample_agent, agent_nextGeneration = 2\<rparr>,
     sv_tick := 5\<rparr>"

definition sample_begun :: Service where
  "sample_begun = snd (service_begin_interaction sample_service_env sample_agent
     (sample_prompt\<lparr>uir_requestId := 0\<rparr>) sample_registered)"

definition sample_published :: Service where
  "sample_published = snd (service_publish_state sample_service_env sample_agent sample_prompt presence_required []
     sample_begun)"

definition sample_sent :: Service where
  "sample_sent = snd (service_event_loop sample_service_env [sample_round []] sample_published)"

lemma sample_peer:
  "resolve_peer (se_bus sample_service_env) (se_logind sample_service_env t) (se_accounts sample_service_env) sample_call =
     Inr \<lparr>peer_uid = 1000, peer_userName = ''u'', peer_sessionId = ''c1'', peer_busName = '':1.5''\<rparr>"
  by (simp add: resolve_peer_def authenticate_bus_peer_def sample_call_def is_unique_name_def sample_service_env_def
      bind_result_def login_session_for_bus_peer_def require_active_local_session_def query_login_session_def
      validate_active_local_session_def username_for_uid_def account_buffer_size_def account_loop.simps MAX_ACCOUNT_BUFFER_SIZE_def)

lemma sample_service_env_simps:
  "se_others sample_service_env t = []" "se_send sample_service_env t"
  by (simp_all add: sample_service_env_def)

lemma sample_registration:
  "service_event_loop sample_service_env [sample_round [RegisterAgent sample_call]] initial_service =
     (Inr (), sample_registered)"
  using sample_peer
  by (simp add: sample_registered_def service_event_loop_def exec_catch_def sample_round_def exec_then_def exec_bind_def
      service_register_agent_def handler_def ask_def exec_prim read_current_def on_registry_def atomic_def settle_def
      agent_current_context_def initial_service_def initial_agents_def register_agent_def validate_peer_def Let_def
      send_reply_def send_queued_events_def sample_agent_def sample_service_env_simps)

lemma sample_service_run: "service_run sample_registered" "service_run sample_begun" "service_run sample_published"
  "service_run sample_sent"
proof -
  show 1: "service_run sample_registered" by (rule service_run.loops [OF service_run.start sample_registration])
  show 2: "service_run sample_begun" unfolding sample_begun_def
    by (rule service_run.begins [OF 1]) (rule surjective_pairing)
  show 3: "service_run sample_published" unfolding sample_published_def
    by (rule service_run.publishes [OF 2]) (rule surjective_pairing)
  show "service_run sample_sent" unfolding sample_sent_def
    by (rule service_run.loops [OF 3]) (rule surjective_pairing)
qed

lemma sample_signal: "map sig_destination (sv_signals sample_sent) = ['':1.5'']"
  by code_simp

section \<open>Properties\<close>

text \<open>
  C30.  Whatever the worker and the bus thread do, and however their accesses interleave, the state of
  the service is one of a history of the two registries: the interaction registry is reached by a
  legitimate history of interactions, the agent registry by a history of registrations, and every
  signal that was ever sent went to the bus name of an agent registered in that history, under the
  generation of that registration.
\<close>

theorem service_run_refines:
  assumes "service_run s"
  shows "\<exists>interactions agents.
    interaction_run interactions (sv_interactions s) \<and> legitimate interactions \<and>
    agent_run agents (sv_registry s) \<and>
    (\<forall>g \<in> set (sv_signals s). \<exists>user session. Registered user \<in> set agents \<and> uc_session user = Some session \<and>
       sig_destination g = us_interactionAgentId session \<and> sig_generation g = us_generation session)"
proof -
  from assms have "service_ok s"
    by (induction rule: service_run.induct)
      (rule initial_service_ok, (erule (1) operations_ok)+)
  then obtain interactions agents where "interaction_run interactions (sv_interactions s)"
    "agent_run agents (sv_registry s)" "signals_addressed agents (sv_signals s)"
    unfolding service_ok_def by blast
  then show ?thesis using interaction_run_ok by (intro exI conjI) (auto simp: signals_addressed_def)
qed

theorem service_run_refines_witness:
  "\<exists>g agents user session. g \<in> set (sv_signals sample_sent) \<and> agent_run agents (sv_registry sample_sent) \<and>
     Registered user \<in> set agents \<and> uc_session user = Some session \<and>
     sig_destination g = us_interactionAgentId session"
proof -
  from sample_signal obtain g where g: "g \<in> set (sv_signals sample_sent)" by (cases "sv_signals sample_sent") auto
  from service_run_refines [OF sample_service_run(4)] g show ?thesis by blast
qed

text \<open>
  C31.  A call from the bus answers a prompt only for the agent that makes it.  Whatever the other
  threads do meanwhile, a presence response, a secret submission or a cancellation changes the shared
  state in one of three ways: not at all; by that answer, in the name of the agent registered when the
  call was checked, which has the caller's bus name and the generation the caller gave and whose
  login session is active and local; or, when that session is not, by ending the caller's own
  registration.  When the call is answered with success the answer was accepted by the registry.
\<close>

theorem agent_calls_authenticated:
  "(\<forall>r s'. service_respond_to_presence env call (Inr (g, i, response)) s = (r, s') \<longrightarrow>
      call_effect env call g (\<lambda>user c. c = Responds user i response) s s' \<and>
      (r = Inr Reply_done \<longrightarrow> (\<exists>user. registered_as env call g s user \<and> session_active env s user \<and>
         interactions_log (PresenceGiven i (context_binding user) response) (sv_interactions s) (sv_interactions s')))) \<and>
   (\<forall>r s'. service_submit_secret env call (Inr (g, i, prompt, pipe)) s = (r, s') \<longrightarrow>
      call_effect env call g (\<lambda>user c. \<exists>secret. read_secret_pipe pipe = Inr secret \<and> c = Submits user i prompt secret) s s' \<and>
      (r = Inr Reply_done \<longrightarrow> (\<exists>secret. read_secret_pipe pipe = Inr secret \<and> (\<exists>user. registered_as env call g s user \<and>
         session_active env s user \<and>
         interactions_log (SecretGiven i (context_binding user) prompt secret) (sv_interactions s) (sv_interactions s'))))) \<and>
   (\<forall>r s'. service_cancel_interaction env call (Inr (g, i)) s = (r, s') \<longrightarrow>
      call_effect env call g (\<lambda>user c. c = Cancels user i) s s' \<and>
      (r = Inr Reply_done \<longrightarrow> (\<exists>user. registered_as env call g s user \<and> session_active env s user \<and>
         interactions_log (CancelAsked i (context_binding user)) (sv_interactions s) (sv_interactions s'))))"
  by (rule conjI, (intro allI, rule impI, erule respond_call), rule conjI,
      (intro allI, rule impI, erule submit_call), (intro allI, rule impI, erule cancel_call))

theorem agent_calls_authenticated_witness:
  "\<exists>s'. service_respond_to_presence sample_service_env sample_call (Inr (1, 1, True)) sample_sent = (Inr Reply_done, s') \<and>
     (\<exists>user. registered_as sample_service_env sample_call 1 sample_sent user \<and>
        interactions_log (PresenceGiven 1 (context_binding user) True) (sv_interactions sample_sent) (sv_interactions s'))"
proof -
  have "fst (service_respond_to_presence sample_service_env sample_call (Inr (1, 1, True)) sample_sent) = Inr Reply_done"
    by code_simp
  then obtain s' where run: "service_respond_to_presence sample_service_env sample_call (Inr (1, 1, True)) sample_sent =
      (Inr Reply_done, s')" by (metis prod.collapse)
  with agent_calls_authenticated [of sample_service_env sample_call 1 1 True sample_sent] show ?thesis by blast
qed

end
