(* ===== verification/User_Interaction.thy ===== *)
theory User_Interaction
  imports Verifier_Client Service_Laws Event_Loop
begin

text \<open>
  How the ceremonies ask the user (\<open>uv/src/auth.cpp\<close>): presence is confirmed by the agent, identity by
  the PAM verifier with the agent relaying prompts.  The interface to the agent
  (\<open>UserContextProvider\<close> and \<open>UserInteractionChannel\<close> of \<open>uv/src/user_interaction.hpp\<close>) is a record
  of operations on the state behind it; the daemon's instance is the D-Bus service.
\<close>

section \<open>The channel\<close>

record 'c Channel =
  ch_current_context :: "('c, UserContext option) exec"
  ch_begin_interaction :: "UserContext \<Rightarrow> UserInteractionRequest \<Rightarrow> ('c, u64) exec"
  ch_publish_state :: "UserContext \<Rightarrow> UserInteractionRequest \<Rightarrow> UserInteractionState \<Rightarrow> string \<Rightarrow> ('c, u64) exec"
  ch_end_interaction :: "UserContext \<Rightarrow> UserInteractionRequest \<Rightarrow> ('c, unit) exec"
  ch_wait_for_presence :: "UserContext \<Rightarrow> UserInteractionRequest \<Rightarrow> int \<Rightarrow> ('c, UserInteractionResult) exec"
  ch_wait_for_secret :: "UserContext \<Rightarrow> UserInteractionRequest \<Rightarrow> u64 \<Rightarrow> int \<Rightarrow> ('c, bytes) exec"
  ch_cancellation_requested :: "UserContext \<Rightarrow> UserInteractionRequest \<Rightarrow> ('c, bool) exec"

definition service_channel :: "ServiceEnv \<Rightarrow> Service Channel" where
  "service_channel env = \<lparr>ch_current_context = service_current_context env,
     ch_begin_interaction = service_begin_interaction env, ch_publish_state = service_publish_state env,
     ch_end_interaction = service_end_interaction env, ch_wait_for_presence = service_wait_for_presence env,
     ch_wait_for_secret = service_wait_for_secret env,
     ch_cancellation_requested = service_cancellation_requested env\<rparr>"

text \<open>The state of a dialogue: the channel and the keep-alive status that the event loop reports.\<close>

record 'c Dialogue =
  dg_channel :: 'c
  dg_keepalive :: KeepaliveStatus

definition via :: "('c, 'a) exec \<Rightarrow> ('c Dialogue, 'a) exec" where
  "via m s = (case m (dg_channel s) of (r, c) \<Rightarrow> (r, s\<lparr>dg_channel := c\<rparr>))"

definition USER_ACTION_TIMEOUT :: time where
  "USER_ACTION_TIMEOUT = seconds 30"

section \<open>Helpers\<close>

definition publish :: "'c Channel \<Rightarrow> UserContext \<Rightarrow> UserInteractionRequest \<Rightarrow> UserInteractionState \<Rightarrow> ('c Dialogue, u64) exec" where
  "publish chan user request state = via (ch_publish_state chan user request state [])"

definition context_is_still_current :: "'c Channel \<Rightarrow> UserContext \<Rightarrow> ('c Dialogue, bool) exec" where
  "context_is_still_current chan user =
     exec_bind (via (ch_current_context chan)) (\<lambda>current.
       exec_return (case current of None \<Rightarrow> False | Some c \<Rightarrow> context_binding c = context_binding user))"

text \<open>\<open>UserActionKeepaliveGuard\<close>: the status is reset however the body ends.\<close>

definition waiting_for_user :: "('c Dialogue, 'a) exec \<Rightarrow> ('c Dialogue, 'a) exec" where
  "waiting_for_user body s =
     (case body (s\<lparr>dg_keepalive := up_needed\<rparr>) of (r, s') \<Rightarrow> (r, s'\<lparr>dg_keepalive := processing\<rparr>))"

text \<open>\<open>InteractionScope\<close>: the interaction ends however the body ends, unless it could not begin.\<close>

definition interaction_scope ::
    "'c Channel \<Rightarrow> UserContext \<Rightarrow> UserInteractionRequest \<Rightarrow> (UserInteractionRequest \<Rightarrow> ('c Dialogue, 'a) exec) \<Rightarrow>
     ('c Dialogue, 'a) exec" where
  "interaction_scope chan user request body =
     exec_bind (via (ch_begin_interaction chan user request)) (\<lambda>i.
       if i = 0 then exec_throw UserInteractionUnavailable
       else (\<lambda>s. case body (request\<lparr>uir_requestId := i\<rparr>) s of
              (r, s') \<Rightarrow> (r, snd (via (ch_end_interaction chan user (request\<lparr>uir_requestId := i\<rparr>)) s'))))"

section \<open>Verification\<close>

definition status_callback ::
    "'c Channel \<Rightarrow> UserContext \<Rightarrow> UserInteractionRequest \<Rightarrow> u8 \<Rightarrow> string \<Rightarrow> ('c, unit) exec" where
  "status_callback chan user request kind display =
     exec_then (ch_publish_state chan user request
         (if kind = 1 then verification_information else verification_error) display)
       (exec_return ())"

definition secret_callback ::
    "'c Channel \<Rightarrow> UserContext \<Rightarrow> UserInteractionRequest \<Rightarrow> time \<Rightarrow> time \<Rightarrow> string \<Rightarrow> ('c, bytes) exec" where
  "secret_callback chan user request deadline now prompt =
     (if now \<ge> deadline then exec_throw UserActionTimedOut
      else exec_bind (ch_publish_state chan user request secret_required prompt) (\<lambda>prompt_id.
        if prompt_id = 0 then
          exec_bind (ch_cancellation_requested chan user request) (\<lambda>gone.
            exec_throw (if gone then UserInteractionCancelled else UserInteractionUnavailable))
        else ch_wait_for_secret chan user request prompt_id (int (deadline - now))))"

definition verification_callbacks ::
    "'c Channel \<Rightarrow> UserContext \<Rightarrow> UserInteractionRequest \<Rightarrow> time \<Rightarrow> 'c Callbacks" where
  "verification_callbacks chan user request deadline =
     \<lparr>cb_status = Some (status_callback chan user request),
      cb_secret = Some (secret_callback chan user request deadline),
      cb_cancelled = Some (ch_cancellation_requested chan user request)\<rparr>"

text \<open>The clock is read once here and again by the client; \<open>start\<close> is the first reading.\<close>

definition authenticate_user ::
    "'c Channel \<Rightarrow> VerifierEnv \<Rightarrow> time \<Rightarrow> string \<Rightarrow> UserContext \<Rightarrow> UserInteractionRequest \<Rightarrow>
     ('c Dialogue, VerificationResult) exec" where
  "authenticate_user chan env start socket_path user request =
     (case uc_session user of
        None \<Rightarrow> exec_throw UserInteractionUnavailable
      | Some session \<Rightarrow>
          waiting_for_user (via (\<lambda>c.
            case run_verifier_service env socket_path (uc_uid user) (us_sessionId session) (int USER_ACTION_TIMEOUT)
                   (verification_callbacks chan user request (start + USER_ACTION_TIMEOUT)) (new_client c) of
              (r, client) \<Rightarrow> (r, cl_channel client))))"

section \<open>The operations of the interface\<close>

definition interaction_context :: "'c Channel \<Rightarrow> bool \<Rightarrow> bool \<Rightarrow> ('c Dialogue, UserContext) exec" where
  "interaction_context chan stop_before stop_after =
     exec_then (exec_lift (cancellation_point stop_before))
     (exec_bind (via (ch_current_context chan)) (\<lambda>current.
       case current of
         None \<Rightarrow> exec_throw UserInteractionUnavailable
       | Some user \<Rightarrow> exec_then (exec_lift (cancellation_point stop_after)) (exec_return user)))"

definition presence_dialogue ::
    "'c Channel \<Rightarrow> UserContext \<Rightarrow> UserInteractionRequest \<Rightarrow> ('c Dialogue, UserInteractionResult) exec" where
  "presence_dialogue chan user request =
     waiting_for_user
       (exec_bind (via (ch_wait_for_presence chan user request (int USER_ACTION_TIMEOUT))) (\<lambda>response.
          if response = cancelled then
            exec_then (publish chan user request interaction_cancelled) (exec_return cancelled)
          else
            exec_bind (if response = approved then context_is_still_current chan user else exec_return False) (\<lambda>ok.
            exec_then (publish chan user request (if ok then presence_approved else presence_denied))
              (exec_return (if ok then approved else denied)))))"

text \<open>The handlers that the two requests share.\<close>

definition interrupted_dialogue ::
    "'c Channel \<Rightarrow> UserContext \<Rightarrow> UserInteractionRequest \<Rightarrow> exn \<Rightarrow> ('c Dialogue, UserInteractionResult) exec \<Rightarrow>
     ('c Dialogue, UserInteractionResult) exec" where
  "interrupted_dialogue chan user request e otherwise =
     (case e of
        UserInteractionCancelled \<Rightarrow>
          exec_then (publish chan user request interaction_cancelled) (exec_return cancelled)
      | OperationCancelled \<Rightarrow>
          exec_then (publish chan user request interaction_cancelled) (exec_throw OperationCancelled)
      | UserActionTimedOut \<Rightarrow>
          exec_then (publish chan user request timed_out) (exec_throw UserActionTimedOut)
      | _ \<Rightarrow> otherwise)"

definition request_presence ::
    "'c Channel \<Rightarrow> UserContext \<Rightarrow> UserInteractionRequest \<Rightarrow> ('c Dialogue, UserInteractionResult) exec" where
  "request_presence chan user request =
     interaction_scope chan user request (\<lambda>active_request.
       exec_then (publish chan user active_request presence_required)
       (exec_catch (presence_dialogue chan user active_request) (\<lambda>e.
          interrupted_dialogue chan user active_request e (exec_throw e))))"

definition verification_dialogue ::
    "'c Channel \<Rightarrow> VerifierEnv \<Rightarrow> time \<Rightarrow> string \<Rightarrow> UserContext \<Rightarrow> UserInteractionRequest \<Rightarrow>
     ('c Dialogue, UserInteractionResult) exec" where
  "verification_dialogue chan env start socket_path user request =
     exec_bind (authenticate_user chan env start socket_path user request) (\<lambda>verdict.
       if verdict = verification_success then
         exec_bind (context_is_still_current chan user) (\<lambda>still_current.
           if \<not> still_current then
             exec_then (publish chan user request verification_failed) (exec_throw VerificationInfrastructureError)
           else exec_then (publish chan user request verification_succeeded) (exec_return approved))
       else if verdict = verification_denied then
         exec_then (publish chan user request verification_failed) (exec_return denied)
       else if verdict = verification_error_result then
         exec_then (publish chan user request verification_failed) (exec_throw VerificationInfrastructureError)
       else exec_throw VerificationInfrastructureError)"

definition request_verification ::
    "'c Channel \<Rightarrow> VerifierEnv \<Rightarrow> time \<Rightarrow> string \<Rightarrow> UserContext \<Rightarrow> UserInteractionRequest \<Rightarrow>
     ('c Dialogue, UserInteractionResult) exec" where
  "request_verification chan env start socket_path user request =
     interaction_scope chan user request (\<lambda>active_request.
       exec_then (publish chan user active_request verification_started)
       (exec_catch (verification_dialogue chan env start socket_path user active_request) (\<lambda>e.
          interrupted_dialogue chan user active_request e
            (if e = VerificationInfrastructureError then exec_throw e
             else exec_then (publish chan user active_request verification_failed)
               (exec_throw VerificationInfrastructureError)))))"

end
