(* ===== verification/Interaction_Laws.thy ===== *)
theory Interaction_Laws
  imports User_Interaction
begin

text \<open>
  What an approval means.  The laws of an interaction channel are a locale; inside it, a presence
  request or a verification that ends in approval is traced to the answers of the bound user.  The
  D-Bus service is an instance of it.
\<close>

section \<open>Laws of a channel\<close>

text \<open>A step that adds events to the history of a channel, certain ones among them.\<close>

definition records :: "('c \<Rightarrow> 'e list \<Rightarrow> bool) \<Rightarrow> 'e set \<Rightarrow> 'c \<Rightarrow> 'c \<Rightarrow> bool" where
  "records history events c c' \<longleftrightarrow> (\<forall>es. history c es \<longrightarrow> (\<exists>new. history c' (new @ es) \<and> events \<subseteq> set new))"

lemma records_fewer: "records history E a b \<Longrightarrow> F \<subseteq> E \<Longrightarrow> records history F a b"
  unfolding records_def by (meson subset_trans)

lemma records_trans:
  assumes "records history E a b" "records history F b c"
  shows "records history (E \<union> F) a c"
  unfolding records_def
proof (intro allI impI)
  fix es
  assume "history a es"
  with assms(1) obtain n1 where "history b (n1 @ es)" "E \<subseteq> set n1" unfolding records_def by blast
  with assms(2) obtain n2 where "history c (n2 @ n1 @ es)" "F \<subseteq> set n2" unfolding records_def by blast
  with \<open>E \<subseteq> set n1\<close> show "\<exists>new. history c (new @ es) \<and> E \<union> F \<subseteq> set new"
    by (intro exI [of _ "n2 @ n1"]) auto
qed

lemma records_refl: "records history {} c c"
  unfolding records_def by (metis append_Nil empty_subsetI)

lemma records_preorder: "reflp (records history {})" "transp (records history {})"
proof -
  show "reflp (records history {})" by (simp add: reflp_def records_refl)
  show "transp (records history {})" by (rule transpI) (drule (1) records_trans, simp)
qed

text \<open>An event about an interaction that began in the new part of a history is in that part.\<close>

lemma event_after_begin:
  assumes "legitimate (new @ es)" "Began i b \<in> set new" "e \<in> set (new @ es)" "event_request e = i"
  shows "e \<in> set new"
proof (rule ccontr)
  assume "e \<notin> set new"
  with assms(3) have old: "e \<in> set es" by simp
  from split_list [OF assms(2)] obtain xs ys where new: "new = xs @ Began i b # ys" by blast
  with assms(1) have "legitimate (xs @ (Began i b # ys @ es))" by simp
  from legitimate_append [OF this] have "\<forall>e \<in> set (ys @ es). event_request e < i" by simp
  with old assms(4) show False by auto
qed

lemma answer_after_begin:
  assumes "legitimate (new @ es)" "Began i b \<in> set new"
  shows "PresenceReturned i b presence_wait_approved \<in> set new \<Longrightarrow> PresenceGiven i b True \<in> set new"
    "SecretReturned i b p (secret_provided secret) \<in> set new \<Longrightarrow> SecretGiven i b p secret \<in> set new"
proof -
  assume "PresenceReturned i b presence_wait_approved \<in> set new"
  then have "PresenceReturned i b presence_wait_approved \<in> set (new @ es)" by simp
  from earlier_event [OF assms(1) this] obtain later earlier
    where "new @ es = later @ PresenceReturned i b presence_wait_approved # earlier"
      "justified (PresenceReturned i b presence_wait_approved) earlier" by metis
  then have "PresenceGiven i b True \<in> set (new @ es)" by auto
  from event_after_begin [OF assms this] show "PresenceGiven i b True \<in> set new" by simp
next
  assume "SecretReturned i b p (secret_provided secret) \<in> set new"
  then have "SecretReturned i b p (secret_provided secret) \<in> set (new @ es)" by simp
  from earlier_event [OF assms(1) this] obtain later earlier
    where "new @ es = later @ SecretReturned i b p (secret_provided secret) # earlier"
      "justified (SecretReturned i b p (secret_provided secret)) earlier" by metis
  then have "SecretGiven i b p secret \<in> set (new @ es)" by auto
  from event_after_begin [OF assms this] show "SecretGiven i b p secret \<in> set new" by simp
qed

text \<open>The secrets of a verification: each was returned by a wait for it.\<close>

definition secrets_recorded ::
    "('c \<Rightarrow> InteractionEvent list \<Rightarrow> bool) \<Rightarrow> u64 \<Rightarrow> UserContextBinding \<Rightarrow> bytes set \<Rightarrow> 'c \<Rightarrow> 'c \<Rightarrow> bool" where
  "secrets_recorded history i b secrets c c' \<longleftrightarrow>
     (\<exists>E. records history E c c' \<and> (\<forall>secret \<in> secrets. \<exists>p. SecretReturned i b p (secret_provided secret) \<in> E))"

lemma secrets_recorded_more:
  assumes "secrets_recorded history i b secrets a c" "records history F c d"
    and "\<And>secret. secret \<in> added \<Longrightarrow> \<exists>p. SecretReturned i b p (secret_provided secret) \<in> F"
  shows "secrets_recorded history i b (added \<union> secrets) a d"
proof -
  from assms(1) obtain E where E: "records history E a c"
    "\<forall>secret \<in> secrets. \<exists>p. SecretReturned i b p (secret_provided secret) \<in> E" unfolding secrets_recorded_def by blast
  with assms(3) records_trans [OF E(1) assms(2)] show ?thesis
    unfolding secrets_recorded_def by (intro exI [of _ "E \<union> F"]) blast
qed

locale interaction_channel =
  fixes chan :: "'c Channel" and history :: "'c \<Rightarrow> InteractionEvent list \<Rightarrow> bool"
  assumes legitimate_history: "history c es \<Longrightarrow> legitimate es"
    and channel_extends: "keeps (records history {}) (ch_current_context chan)"
      "keeps (records history {}) (ch_publish_state chan user request state message)"
      "keeps (records history {}) (ch_end_interaction chan user request)"
      "keeps (records history {}) (ch_wait_for_presence chan user request timeout)"
      "keeps (records history {}) (ch_cancellation_requested chan user request)"
    and begin_recorded: "ch_begin_interaction chan user request c = (Inr i, c') \<Longrightarrow> i \<noteq> 0 \<Longrightarrow>
      records history {Began i (context_binding user)} c c'"
    and approval_recorded: "ch_wait_for_presence chan user request timeout c = (Inr approved, c') \<Longrightarrow>
      records history {PresenceReturned (uir_requestId request) (context_binding user) presence_wait_approved} c c'"
    and secret_recorded: "ch_wait_for_secret chan user request prompt timeout c = (Inr secret, c') \<Longrightarrow>
      records history {SecretReturned (uir_requestId request) (context_binding user) prompt (secret_provided secret)} c c'"
begin

lemma secret_callback_origin:
  assumes "secret_callback chan user request deadline now prompt c = (Inr secret, c')"
  shows "\<exists>p. records history
     {SecretReturned (uir_requestId request) (context_binding user) p (secret_provided secret)} c c'"
proof -
  from assms obtain p c1 where p: "ch_publish_state chan user request secret_required prompt c = (Inr p, c1)"
    "ch_wait_for_secret chan user request p (int (deadline - now)) c1 = (Inr secret, c')"
    by (auto simp: secret_callback_def exec_simps split: if_splits)
  from records_trans [OF keepsD [OF channel_extends(2) p(1)] secret_recorded [OF p(2)]] show ?thesis by auto
qed

lemma status_callback_keeps: "keeps (records history {}) (status_callback chan user request kind display)"
  unfolding status_callback_def
  by (intro keeps_prim [OF records_preorder(1)] keeps_then [OF records_preorder(2)] channel_extends)

end

text \<open>The callbacks of a verification over such a channel are ones the client can work with.\<close>

sublocale interaction_channel \<subseteq> callbacks: client_callbacks "verification_callbacks chan user request deadline"
    "secrets_recorded history (uir_requestId request) (context_binding user)" for user request deadline
proof
  fix c
  show "secrets_recorded history (uir_requestId request) (context_binding user) {} c c"
    unfolding secrets_recorded_def by (intro exI [of _ "{}"]) (simp add: records_refl)
next
  fix secrets a b fewer
  assume "secrets_recorded history (uir_requestId request) (context_binding user) secrets a b" "fewer \<subseteq> secrets"
  then show "secrets_recorded history (uir_requestId request) (context_binding user) fewer a b"
    unfolding secrets_recorded_def by blast
next
  fix f kind display b u c secrets a
  assume "cb_status (verification_callbacks chan user request deadline) = Some f" "f kind display b = (Inr u, c)"
    and start: "secrets_recorded history (uir_requestId request) (context_binding user) secrets a b"
  then have "status_callback chan user request kind display b = (Inr u, c)" by (simp add: verification_callbacks_def)
  from secrets_recorded_more [OF start keepsD [OF status_callback_keeps this], of "{}"]
  show "secrets_recorded history (uir_requestId request) (context_binding user) secrets a c" by simp
next
  fix g b c secrets a
  assume "cb_cancelled (verification_callbacks chan user request deadline) = Some g" "g b = (Inr False, c)"
    and start: "secrets_recorded history (uir_requestId request) (context_binding user) secrets a b"
  then have "ch_cancellation_requested chan user request b = (Inr False, c)" by (simp add: verification_callbacks_def)
  from secrets_recorded_more [OF start keepsD [OF channel_extends(5) this], of "{}"]
  show "secrets_recorded history (uir_requestId request) (context_binding user) secrets a c" by simp
next
  fix h now prompt b secret c secrets a
  assume "cb_secret (verification_callbacks chan user request deadline) = Some h" "h now prompt b = (Inr secret, c)"
    and start: "secrets_recorded history (uir_requestId request) (context_binding user) secrets a b"
  then have "secret_callback chan user request deadline now prompt b = (Inr secret, c)"
    by (simp add: verification_callbacks_def)
  then obtain p where "records history
      {SecretReturned (uir_requestId request) (context_binding user) p (secret_provided secret)} b c"
    using secret_callback_origin by blast
  from secrets_recorded_more [OF start this, of "{secret}"]
  show "secrets_recorded history (uir_requestId request) (context_binding user) (insert secret secrets) a c" by auto
qed

section \<open>Dialogues\<close>

context interaction_channel
begin

lemma via_extends:
  "keeps (records history {}) m \<Longrightarrow> via m s = (r, s') \<Longrightarrow> records history {} (dg_channel s) (dg_channel s')"
  by (auto simp: via_def split: prod.splits dest: keepsD)

lemma publish_extends: "publish chan user request state s = (r, s') \<Longrightarrow> records history {} (dg_channel s) (dg_channel s')"
  unfolding publish_def by (rule via_extends [OF channel_extends(2)])

text \<open>The check after an approval: the provider's context, in a state the dialogue went through.\<close>

lemma still_current:
  assumes "context_is_still_current chan user s = (Inr True, s')"
  shows "records history {} (dg_channel s) (dg_channel s') \<and>
    (\<exists>current. ch_current_context chan (dg_channel s) = (Inr (Some current), dg_channel s') \<and>
       context_binding current = context_binding user)"
proof -
  from assms obtain current where c: "via (ch_current_context chan) s = (Inr (Some current), s')"
    "context_binding current = context_binding user"
    by (auto simp: context_is_still_current_def exec_simps split: option.splits)
  from via_extends [OF channel_extends(1) c(1)] c show ?thesis by (auto simp: via_def split: prod.splits)
qed

lemma scope_began:
  assumes "interaction_scope chan user request body s = (Inr r, s')"
  obtains i s1 s2 where "i \<noteq> 0" "records history {Began i (context_binding user)} (dg_channel s) (dg_channel s1)"
    "body (request\<lparr>uir_requestId := i\<rparr>) s1 = (Inr r, s2)" "records history {} (dg_channel s2) (dg_channel s')"
    "dg_keepalive s' = dg_keepalive s2"
proof -
  from assms obtain i s1 where start: "via (ch_begin_interaction chan user request) s = (Inr i, s1)" "i \<noteq> 0"
    and rest: "(case body (request\<lparr>uir_requestId := i\<rparr>) s1 of
       (r, s') \<Rightarrow> (r, snd (via (ch_end_interaction chan user (request\<lparr>uir_requestId := i\<rparr>)) s'))) = (Inr r, s')"
    by (auto simp: interaction_scope_def exec_simps split: if_splits)
  from rest obtain s2 where body: "body (request\<lparr>uir_requestId := i\<rparr>) s1 = (Inr r, s2)"
    and fin: "s' = snd (via (ch_end_interaction chan user (request\<lparr>uir_requestId := i\<rparr>)) s2)"
    by (auto split: prod.splits)
  from start have "records history {Began i (context_binding user)} (dg_channel s) (dg_channel s1)"
    using begin_recorded by (auto simp: via_def split: prod.splits)
  moreover have "records history {} (dg_channel s2) (dg_channel s')"
    using via_extends [OF channel_extends(3) surjective_pairing] fin by simp
  moreover have "dg_keepalive s' = dg_keepalive s2" using fin by (simp add: via_def split: prod.splits)
  ultimately show ?thesis using that start(2) body by blast
qed

lemma interrupted_not_approved:
  assumes "interrupted_dialogue chan user request e k s = (Inr r, s')" "\<And>s s'. k s \<noteq> (Inr approved, s')"
  shows "r \<noteq> approved"
  using assms by (auto simp: interrupted_dialogue_def exec_simps split: exn.splits)

lemma caught_approved:
  assumes "exec_catch m (\<lambda>e. interrupted_dialogue chan user request e (k e)) s = (Inr approved, s')"
    and "\<And>e s s'. k e s \<noteq> (Inr approved, s')"
  shows "m s = (Inr approved, s')"
proof (cases "m s")
  case (Pair r s1)
  have "interrupted_dialogue chan user request e (k e) t \<noteq> (Inr approved, t')" for e t t'
    using interrupted_not_approved [of user request e "k e" t] assms(2) by blast
  with Pair assms(1) show ?thesis by (cases r) (auto simp: exec_catch_def)
qed

lemma presence_dialogue_approved:
  assumes "presence_dialogue chan user request s = (Inr approved, s')"
  shows "records history {PresenceReturned (uir_requestId request) (context_binding user) presence_wait_approved}
      (dg_channel s) (dg_channel s') \<and> dg_keepalive s' = processing \<and>
    (\<exists>c c' current. ch_current_context chan c = (Inr (Some current), c') \<and> context_binding current = context_binding user)"
proof -
  from assms obtain s1 where s': "s' = s1\<lparr>dg_keepalive := processing\<rparr>"
    and run: "exec_bind (via (ch_wait_for_presence chan user request (int USER_ACTION_TIMEOUT))) (\<lambda>response.
          if response = cancelled then
            exec_then (publish chan user request interaction_cancelled) (exec_return cancelled)
          else
            exec_bind (if response = approved then context_is_still_current chan user else exec_return False) (\<lambda>ok.
            exec_then (publish chan user request (if ok then presence_approved else presence_denied))
              (exec_return (if ok then approved else denied)))) (s\<lparr>dg_keepalive := up_needed\<rparr>) = (Inr approved, s1)"
    by (auto simp: presence_dialogue_def waiting_for_user_def split: prod.splits)
  then obtain s2 s3 p where wait: "via (ch_wait_for_presence chan user request (int USER_ACTION_TIMEOUT))
      (s\<lparr>dg_keepalive := up_needed\<rparr>) = (Inr approved, s2)"
    and current: "context_is_still_current chan user s2 = (Inr True, s3)"
    and shown: "publish chan user request presence_approved s3 = (Inr p, s1)"
    by (auto simp: exec_simps split: if_splits)
  from wait have "records history {PresenceReturned (uir_requestId request) (context_binding user) presence_wait_approved}
      (dg_channel s) (dg_channel s2)"
    using approval_recorded by (auto simp: via_def split: prod.splits)
  from records_trans [OF records_trans [OF this conjunct1 [OF still_current [OF current]]] publish_extends [OF shown]]
    still_current [OF current] s'
  show ?thesis by auto
qed

lemma presence_approved_body:
  assumes "exec_then (publish chan user request presence_required)
     (exec_catch (presence_dialogue chan user request) (\<lambda>e. interrupted_dialogue chan user request e (exec_throw e))) s =
       (Inr approved, s')"
  shows "records history {PresenceReturned (uir_requestId request) (context_binding user) presence_wait_approved}
      (dg_channel s) (dg_channel s') \<and> dg_keepalive s' = processing \<and>
    (\<exists>c c' current. ch_current_context chan c = (Inr (Some current), c') \<and> context_binding current = context_binding user)"
proof -
  from assms obtain p s1 where shown: "publish chan user request presence_required s = (Inr p, s1)"
    and rest: "exec_catch (presence_dialogue chan user request)
      (\<lambda>e. interrupted_dialogue chan user request e (exec_throw e)) s1 = (Inr approved, s')"
    by (auto simp: exec_simps)
  have "presence_dialogue chan user request s1 = (Inr approved, s')"
    by (rule caught_approved [OF rest]) (simp add: exec_simps)
  from presence_dialogue_approved [OF this] records_trans [OF publish_extends [OF shown]] show ?thesis by force
qed

lemma request_presence_approved:
  assumes "request_presence chan user request s = (Inr approved, s')" "history (dg_channel s) es"
  shows "\<exists>new i. history (dg_channel s') (new @ es) \<and> Began i (context_binding user) \<in> set new \<and>
      PresenceGiven i (context_binding user) True \<in> set new \<and> dg_keepalive s' = processing \<and>
      (\<exists>c c' current. ch_current_context chan c = (Inr (Some current), c') \<and>
         context_binding current = context_binding user)"
proof -
  from assms(1) obtain i s1 s2 where i: "i \<noteq> 0"
    "records history {Began i (context_binding user)} (dg_channel s) (dg_channel s1)"
    and body: "exec_then (publish chan user (request\<lparr>uir_requestId := i\<rparr>) presence_required)
       (exec_catch (presence_dialogue chan user (request\<lparr>uir_requestId := i\<rparr>)) (\<lambda>e.
          interrupted_dialogue chan user (request\<lparr>uir_requestId := i\<rparr>) e (exec_throw e))) s1 = (Inr approved, s2)"
    and fin: "records history {} (dg_channel s2) (dg_channel s')" "dg_keepalive s' = dg_keepalive s2"
    unfolding request_presence_def by (rule scope_began)
  note outcome = presence_approved_body [OF body]
  from records_trans [OF records_trans [OF i(2) conjunct1 [OF outcome]] fin(1)] assms(2)
  obtain new where new: "history (dg_channel s') (new @ es)" "Began i (context_binding user) \<in> set new"
    "PresenceReturned i (context_binding user) presence_wait_approved \<in> set new"
    unfolding records_def by fastforce
  from answer_after_begin(1) [OF legitimate_history [OF new(1)] new(2,3)] new(1,2) outcome fin(2) show ?thesis by auto
qed

lemma via_keepalive: "via m s = (r, s') \<Longrightarrow> dg_keepalive s' = dg_keepalive s"
  by (auto simp: via_def split: prod.splits)

lemma authenticated:
  assumes "authenticate_user chan env start path user request s = (Inr verdict, s')"
  obtains session client where "uc_session user = Some session"
    "run_verifier_service env path (uc_uid user) (us_sessionId session) (int USER_ACTION_TIMEOUT)
       (verification_callbacks chan user request (start + USER_ACTION_TIMEOUT)) (new_client (dg_channel s)) = (Inr verdict, client)"
    "dg_channel s' = cl_channel client" "dg_keepalive s' = processing"
proof (cases "uc_session user")
  case None
  with assms show ?thesis by (simp add: authenticate_user_def exec_simps)
next
  case (Some session)
  with assms that show ?thesis
    by (auto simp: authenticate_user_def waiting_for_user_def via_def split: prod.splits)
qed

lemma verification_dialogue_approved:
  assumes "verification_dialogue chan env start path user request s = (Inr approved, s')"
  obtains session client where "uc_session user = Some session"
    "run_verifier_service env path (uc_uid user) (us_sessionId session) (int USER_ACTION_TIMEOUT)
       (verification_callbacks chan user request (start + USER_ACTION_TIMEOUT)) (new_client (dg_channel s)) =
         (Inr verification_success, client)"
    "secrets_recorded history (uir_requestId request) (context_binding user) (secrets_sent client)
       (dg_channel s) (dg_channel s')"
    "dg_keepalive s' = processing"
    "\<exists>c c' current. ch_current_context chan c = (Inr (Some current), c') \<and> context_binding current = context_binding user"
proof -
  from assms obtain s1 s2 p where auth: "authenticate_user chan env start path user request s = (Inr verification_success, s1)"
    and current: "context_is_still_current chan user s1 = (Inr True, s2)"
    and shown: "publish chan user request verification_succeeded s2 = (Inr p, s')"
    by (auto simp: verification_dialogue_def exec_simps split: if_splits)
  from auth obtain session client where client: "uc_session user = Some session"
    "run_verifier_service env path (uc_uid user) (us_sessionId session) (int USER_ACTION_TIMEOUT)
       (verification_callbacks chan user request (start + USER_ACTION_TIMEOUT)) (new_client (dg_channel s)) =
         (Inr verification_success, client)"
    "dg_channel s1 = cl_channel client" "dg_keepalive s1 = processing" by (rule authenticated)
  have rest: "records history {} (dg_channel s1) (dg_channel s')"
    using records_trans [OF conjunct1 [OF still_current [OF current]] publish_extends [OF shown]] by simp
  have "secrets_recorded history (uir_requestId request) (context_binding user) (secrets_sent client)
      (dg_channel s) (dg_channel s')"
    using secrets_recorded_more [OF callbacks.verdict_traffic(2) [OF client(2)] rest [unfolded client(3)], of "{}"] by simp
  moreover have "dg_keepalive s' = processing"
    using client(4) current shown
    by (auto simp: context_is_still_current_def publish_def exec_simps dest!: via_keepalive)
  ultimately show ?thesis using that client(1,2) still_current [OF current] by blast
qed

lemma request_verification_approved:
  assumes "request_verification chan env start path user request s = (Inr approved, s')" "history (dg_channel s) es"
  shows "\<exists>new i session client mid. history (dg_channel s') (new @ es) \<and> Began i (context_binding user) \<in> set new \<and>
      uc_session user = Some session \<and>
      cl_traffic client = (from_daemon, StartVerification (uc_uid user) (us_sessionId session)) # mid @
        [(from_pam_verifier, VerificationComplete verification_success)] \<and> all_answered mid \<and>
      (\<exists>c. run_verifier_service env path (uc_uid user) (us_sessionId session) (int USER_ACTION_TIMEOUT)
         (verification_callbacks chan user (request\<lparr>uir_requestId := i\<rparr>) (start + USER_ACTION_TIMEOUT)) (new_client c) =
           (Inr verification_success, client)) \<and>
      (\<forall>secret. (from_daemon, SecretResponse secret) \<in> set mid \<longrightarrow>
         (\<exists>p. SecretGiven i (context_binding user) p secret \<in> set new)) \<and>
      dg_keepalive s' = processing \<and>
      (\<exists>c c' current. ch_current_context chan c = (Inr (Some current), c') \<and>
         context_binding current = context_binding user)"
proof -
  from assms(1) obtain i s1 s2 where i: "i \<noteq> 0"
    "records history {Began i (context_binding user)} (dg_channel s) (dg_channel s1)"
    and body: "exec_then (publish chan user (request\<lparr>uir_requestId := i\<rparr>) verification_started)
       (exec_catch (verification_dialogue chan env start path user (request\<lparr>uir_requestId := i\<rparr>)) (\<lambda>e.
          interrupted_dialogue chan user (request\<lparr>uir_requestId := i\<rparr>) e
            (if e = VerificationInfrastructureError then exec_throw e
             else exec_then (publish chan user (request\<lparr>uir_requestId := i\<rparr>) verification_failed)
               (exec_throw VerificationInfrastructureError)))) s1 = (Inr approved, s2)"
    and fin: "records history {} (dg_channel s2) (dg_channel s')" "dg_keepalive s' = dg_keepalive s2"
    unfolding request_verification_def by (rule scope_began)
  let ?request = "request\<lparr>uir_requestId := i\<rparr>"
  from body obtain p s3 where shown: "publish chan user ?request verification_started s1 = (Inr p, s3)"
    and caught: "exec_catch (verification_dialogue chan env start path user ?request) (\<lambda>e.
          interrupted_dialogue chan user ?request e
            (if e = VerificationInfrastructureError then exec_throw e
             else exec_then (publish chan user ?request verification_failed)
               (exec_throw VerificationInfrastructureError))) s3 = (Inr approved, s2)"
    by (auto simp: exec_then_Inr)
  have "verification_dialogue chan env start path user ?request s3 = (Inr approved, s2)"
    by (rule caught_approved [OF caught]) (simp add: exec_simps)
  then obtain session client where client: "uc_session user = Some session"
    "run_verifier_service env path (uc_uid user) (us_sessionId session) (int USER_ACTION_TIMEOUT)
       (verification_callbacks chan user ?request (start + USER_ACTION_TIMEOUT)) (new_client (dg_channel s3)) =
         (Inr verification_success, client)"
    and secrets: "secrets_recorded history i (context_binding user) (secrets_sent client) (dg_channel s3) (dg_channel s2)"
    and rest: "dg_keepalive s2 = processing"
    "\<exists>c c' current. ch_current_context chan c = (Inr (Some current), c') \<and> context_binding current = context_binding user"
    by (rule verification_dialogue_approved) simp
  from verdict_decided [OF client(2) callbacks.verdict_traffic(1) [OF client(2)]] obtain mid
    where mid: "cl_traffic client = (from_daemon, StartVerification (uc_uid user) (us_sessionId session)) # mid @
        [(from_pam_verifier, VerificationComplete verification_success)]" "all_answered mid" by auto
  from secrets obtain E where E: "records history E (dg_channel s3) (dg_channel s2)"
    "\<forall>secret \<in> secrets_sent client. \<exists>p. SecretReturned i (context_binding user) p (secret_provided secret) \<in> E"
    unfolding secrets_recorded_def by blast
  from records_trans [OF records_trans [OF records_trans [OF i(2) publish_extends [OF shown]] E(1)] fin(1)] assms(2)
  obtain new where new: "history (dg_channel s') (new @ es)" "Began i (context_binding user) \<in> set new" "E \<subseteq> set new"
    unfolding records_def by fastforce
  have "\<exists>p. SecretGiven i (context_binding user) p secret \<in> set new"
    if "(from_daemon, SecretResponse secret) \<in> set mid" for secret
  proof -
    from that mid(1) have "secret \<in> secrets_sent client" by (simp add: secrets_sent_def)
    with E(2) new(3) obtain p where "SecretReturned i (context_binding user) p (secret_provided secret) \<in> set new" by blast
    from answer_after_begin(2) [OF legitimate_history [OF new(1)] new(2) this] show ?thesis by blast
  qed
  with new(1,2) client mid rest fin(2) show ?thesis
    by (intro exI [of _ new] exI [of _ i] exI [of _ session] exI [of _ client] exI [of _ mid]) auto
qed

end

section \<open>The D-Bus service as the channel\<close>

lemma records_service:
  "records (\<lambda>s es. interaction_run es (sv_interactions s)) {} s s' \<longleftrightarrow>
     interactions_extend (sv_interactions s) (sv_interactions s')"
  "records (\<lambda>s es. interaction_run es (sv_interactions s)) {event} s s' \<longleftrightarrow>
     interactions_log event (sv_interactions s) (sv_interactions s')"
  by (auto simp: records_def interactions_extend_def interactions_log_def)

lemma service_records:
  "keeps service_extends m \<Longrightarrow> keeps (records (\<lambda>s es. interaction_run es (sv_interactions s)) {}) m"
  by (auto simp: keeps_def records_service service_extends_def)

interpretation dbus: interaction_channel "service_channel env" "\<lambda>s es. interaction_run es (sv_interactions s)" for env
proof
  fix user request c i c'
  assume "ch_begin_interaction (service_channel env) user request c = (Inr i, c')" "i \<noteq> 0"
  then show "records (\<lambda>s es. interaction_run es (sv_interactions s)) {Began i (context_binding user)} c c'"
    using begin_records by (simp add: records_service service_channel_def)
next
  fix user request timeout c c'
  assume "ch_wait_for_presence (service_channel env) user request timeout c = (Inr approved, c')"
  then show "records (\<lambda>s es. interaction_run es (sv_interactions s))
      {PresenceReturned (uir_requestId request) (context_binding user) presence_wait_approved} c c'"
    using wait_for_presence_records by (fastforce simp: records_service service_channel_def)
next
  fix user request prompt timeout c secret c'
  assume "ch_wait_for_secret (service_channel env) user request prompt timeout c = (Inr secret, c')"
  then show "records (\<lambda>s es. interaction_run es (sv_interactions s))
      {SecretReturned (uir_requestId request) (context_binding user) prompt (secret_provided secret)} c c'"
    using wait_for_secret_records by (simp add: records_service service_channel_def)
qed (simp_all add: service_channel_def service_records channel_keeps interaction_run_ok)

text \<open>A context the service reports has an active local session at that moment.\<close>

lemma reported_context_active:
  assumes "service_current_context env s = (Inr (Some user), s')"
  shows "\<exists>t. session_is_still_active (se_logind env t) user"
  using assms
  by (auto simp: service_current_context_def exec_simps check_session_def ask_def split: option.splits if_splits)

section \<open>A sample dialogue\<close>

text \<open>The agent approves as soon as the worker waits.\<close>

definition approving_env :: ServiceEnv where
  "approving_env = sample_service_env\<lparr>se_others := \<lambda>t. if t = 15 then [Responds sample_agent 1 True] else []\<rparr>"

definition sample_dialogue :: "Service Dialogue" where
  "sample_dialogue = \<lparr>dg_channel = sample_registered, dg_keepalive = processing\<rparr>"

lemma approving_env_simps:
  "se_others approving_env t = (if t = 15 then [Responds sample_agent 1 True] else [])"
  "se_clock approving_env t = t" "se_stop approving_env t = False" "se_wakeups approving_env t = 0"
  "se_logind approving_env t = se_logind sample_service_env t"
  by (simp_all add: approving_env_def sample_service_env_def)

lemma sample_agent_active: "session_is_still_active (se_logind sample_service_env t) sample_agent"
  by (simp add: session_is_still_active_def sample_agent_def sample_service_env_def active_local_session_iff)

lemmas service_eval = throw_if_failed_def atomic_def settle_def on_registry_def on_interactions_def ask_def returning_def
  check_session_def read_current_def service_is_current_def service_current_context_def service_begin_interaction_def
  service_publish_state_def service_end_interaction_def pass_time_def presence_pass_def await_def
  service_wait_for_presence_def is_current_def agent_current_context_def begin_interaction_def transition_def enter_state_def
  valid_transition_def respond_to_presence_def presence_check_def end_interaction_def is_pending_iff same_user_iff
  context_binding_def exec_bind_def exec_then_def exec_prim exec_catch_def Let_def initial_service_def initial_interactions_def

lemma sample_approval:
  "fst (request_presence (service_channel approving_env) sample_agent (sample_prompt\<lparr>uir_requestId := 0\<rparr>) sample_dialogue) =
     Inr approved"
  using sample_agent_active [unfolded sample_agent_def]
  by (simp add: request_presence_def presence_dialogue_def waiting_for_user_def context_is_still_current_def publish_def
      interaction_scope_def via_def service_channel_def USER_ACTION_TIMEOUT_def seconds_def approving_env_simps sample_dialogue_def
      sample_registered_def sample_prompt_def sample_agent_def service_eval)

text \<open>
  The verifier asks for a secret, the agent submits it while the worker waits, and the verifier
  accepts it.
\<close>

definition accepting_verifier :: VerifierEnv where
  "accepting_verifier = \<lparr>ve_stop = \<lambda>_. False, ve_clock = \<lambda>_. 0, ve_rounds = 2, ve_socket = Some 9, ve_connect_ok = True,
     ve_probe = \<lparr>pr_getfd = 1, pr_setfd_ok = True, pr_type = Some SOCK_SEQPACKET, pr_local = Some (FAMILY_SIZE, AF_UNIX),
       pr_peer = Peer_address FAMILY_SIZE AF_UNIX\<rparr>,
     ve_send = \<lambda>t. Sent (if t = 2 then 8 else 3), ve_poll = \<lambda>_ _. Poll_ready True,
     ve_receive = \<lambda>t. Received (if t = 6 then [1, 5, 80] else [1, 6, 1]) False False\<rparr>"

definition submitting_env :: ServiceEnv where
  "submitting_env = sample_service_env\<lparr>se_others := \<lambda>t. if t = 25 then [Submits sample_agent 1 1 [7]] else []\<rparr>"

lemma submitting_env_simps:
  "se_others submitting_env t = (if t = 25 then [Submits sample_agent 1 1 [7]] else [])"
  "se_clock submitting_env t = t" "se_stop submitting_env t = False" "se_wakeups submitting_env t = 0"
  "se_logind submitting_env t = se_logind sample_service_env t"
  by (simp_all add: submitting_env_def sample_service_env_def)

lemma sample_messages:
  "encode_verifier_message (StartVerification 1000 ''c1'') = Inr [1, 1, 0, 0, 3, 232, 99, 49]"
  "decode_verifier_message [1, 5, 80] = Inr (SecretRequired ''P'')"
  "encode_verifier_message (SecretResponse [7]) = Inr [1, 2, 7]"
  "decode_verifier_message [1, 6, 1] = Inr (VerificationComplete verification_success)"
  by code_simp+

lemma sample_conversation:
  "advance_verifier_conversation VerifierAwaitingStart from_daemon (StartVerification 1000 ''c1'') = Inr VerifierVerifying"
  "advance_verifier_conversation VerifierVerifying from_pam_verifier (SecretRequired ''P'') = Inr VerifierAwaitingSecret"
  "advance_verifier_conversation VerifierAwaitingSecret from_daemon (SecretResponse [7]) = Inr VerifierVerifying"
  "advance_verifier_conversation VerifierVerifying from_pam_verifier (VerificationComplete verification_success) =
     Inr (VerifierCompleted verification_success)"
  by code_simp+

lemmas client_eval = run_verifier_service_def client_loop.simps client_round_def client_react_def client_cancelled_def
  check_interrupted_def client_ask_def on_channel_def client_send_def client_receive_def link_send_def link_receive_def client_advance_def
  connect_to_verifier_def verifier_socket_def validate_socket_def socket_send_def socket_receive_def require_open_def
  UNIX_PATH_SIZE_def FAMILY_SIZE_def AF_UNIX_def SOCK_SEQPACKET_def MAX_VERIFIER_PACKET_SIZE_def MAX_VERIFICATION_TEXT_SIZE_def
  VERIFIER_PROTOCOL_HEADER_SIZE_def MAX_SESSION_ID_SIZE_def MAX_VERIFICATION_SECRET_SIZE_def new_client_def
  cancellation_point_def exec_guard_def verification_callbacks_def secret_callback_def bind_result_def wait_ms_def

lemma sample_verification:
  "fst (request_verification (service_channel submitting_env) accepting_verifier 0 ''/run/v'' sample_agent
     (sample_prompt\<lparr>uir_requestId := 0\<rparr>) sample_dialogue) = Inr approved"
  using sample_agent_active [unfolded sample_agent_def]
  by (simp add: request_verification_def verification_dialogue_def authenticate_user_def waiting_for_user_def
      context_is_still_current_def publish_def interaction_scope_def via_def service_channel_def USER_ACTION_TIMEOUT_def
      seconds_def submitting_env_simps sample_dialogue_def sample_registered_def sample_prompt_def sample_agent_def
      accepting_verifier_def sample_messages sample_conversation service_eval client_eval service_wait_for_secret_def secret_pass_def
      secret_check_def submit_secret_def service_cancellation_requested_def cancellation_requested_def numeral_2_eq_2
      del: encode_verifier_message.simps)

section \<open>Properties\<close>





end
