(* ===== verification/Verifier_Process.thy ===== *)
theory Verifier_Process
  imports Verifier_Client
begin

text \<open>
  Child processes (\<open>uv/src/cancellable_process.cpp\<close>): spawning with the descriptors the child may have,
  the life of a child until it is reaped, a program run to its exit, and a verifier program that talks
  over a socket pair.  The kernel is a parameter: the results of its calls are indexed by a counter.
\<close>

section \<open>Descriptors and spawning\<close>

definition VERIFIER_SOCKET_FD :: int where "VERIFIER_SOCKET_FD = 3"
definition STDERR_FILENO :: int where "STDERR_FILENO = 2"

definition move_above_auth_descriptors :: "(int \<Rightarrow> int) \<Rightarrow> int \<Rightarrow> int result" where
  "move_above_auth_descriptors duplicate fd =
     (if fd = VERIFIER_SOCKET_FD \<or> fd = VERIFIER_SOCKET_FD + 1 then
        if duplicate fd < 0 then Inl (SystemError ''duplicate authentication pipe descriptor'')
        else Inr (duplicate fd)
      else Inr fd)"

text \<open>The calls that prepare a child, in order; each returns zero or an error.\<close>

datatype SpawnStep =
    spawnattr_init
  | file_actions_init
  | file_actions_adddup2 int int
  | file_actions_addclosefrom int
  | spawnattr_setpgroup
  | mask_sigemptyset
  | spawnattr_setsigmask
  | default_signals
  | spawnattr_setsigdefault
  | spawnattr_setflags
  | spawn_child string "string list"

fun spawn_step_name :: "SpawnStep \<Rightarrow> string" where
  "spawn_step_name spawnattr_init = ''posix_spawnattr_init''"
| "spawn_step_name file_actions_init = ''posix_spawn_file_actions_init''"
| "spawn_step_name (file_actions_adddup2 _ _) = ''posix_spawn_file_actions_adddup2''"
| "spawn_step_name (file_actions_addclosefrom _) = ''posix_spawn_file_actions_addclosefrom_np''"
| "spawn_step_name spawnattr_setpgroup = ''posix_spawnattr_setpgroup''"
| "spawn_step_name mask_sigemptyset = ''sigemptyset''"
| "spawn_step_name spawnattr_setsigmask = ''posix_spawnattr_setsigmask''"
| "spawn_step_name default_signals = ''prepare child signals''"
| "spawn_step_name spawnattr_setsigdefault = ''posix_spawnattr_setsigdefault''"
| "spawn_step_name spawnattr_setflags = ''posix_spawnattr_setflags''"
| "spawn_step_name (spawn_child _ _) = ''posix_spawn''"

definition file_action_steps :: "int \<Rightarrow> SpawnStep list" where
  "file_action_steps verifier_fd =
     [file_actions_init] @
     (if verifier_fd \<ge> 0 then [file_actions_adddup2 verifier_fd VERIFIER_SOCKET_FD] else []) @
     [file_actions_addclosefrom (if verifier_fd \<ge> 0 then VERIFIER_SOCKET_FD + 1 else STDERR_FILENO + 1)]"

definition spawn_steps :: "string \<Rightarrow> string list \<Rightarrow> int \<Rightarrow> SpawnStep list" where
  "spawn_steps path arguments verifier_fd =
     [spawnattr_init] @ file_action_steps verifier_fd @
     [spawnattr_setpgroup, mask_sigemptyset, spawnattr_setsigmask, default_signals, spawnattr_setsigdefault,
      spawnattr_setflags, spawn_child path (path # arguments)]"

fun run_spawn_steps :: "(SpawnStep \<Rightarrow> int) \<Rightarrow> SpawnStep list \<Rightarrow> unit result" where
  "run_spawn_steps rc [] = Inr ()"
| "run_spawn_steps rc (step # rest) =
     (if rc step \<noteq> 0 then Inl (SystemError (spawn_step_name step)) else run_spawn_steps rc rest)"

definition spawn_program :: "(SpawnStep \<Rightarrow> int) \<Rightarrow> int \<Rightarrow> string \<Rightarrow> string list \<Rightarrow> int \<Rightarrow> int result" where
  "spawn_program rc pid path arguments verifier_fd =
     bind_result (run_spawn_steps rc (spawn_steps path arguments verifier_fd)) (\<lambda>_. Inr pid)"

text \<open>The descriptor table of the child: the effect of the file actions on the one it inherits.\<close>

fun apply_file_action :: "SpawnStep \<Rightarrow> (int \<rightharpoonup> 'f) \<Rightarrow> (int \<rightharpoonup> 'f)" where
  "apply_file_action (file_actions_adddup2 from target) table = table(target := table from)"
| "apply_file_action (file_actions_addclosefrom low) table = (\<lambda>fd. if fd \<ge> low then None else table fd)"
| "apply_file_action _ table = table"

definition child_descriptors :: "int \<Rightarrow> (int \<rightharpoonup> 'f) \<Rightarrow> (int \<rightharpoonup> 'f)" where
  "child_descriptors verifier_fd table = fold apply_file_action (file_action_steps verifier_fd) table"

definition arm_parent_death_signal :: "bool \<Rightarrow> int \<Rightarrow> int \<Rightarrow> unit result" where
  "arm_parent_death_signal prctl_ok getppid expected_parent =
     (if expected_parent \<le> 1 then Inl (InvalidArgument ''invalid authentication parent process'')
      else if \<not> prctl_ok then Inl (SystemError ''prctl PR_SET_PDEATHSIG'')
      else if getppid \<noteq> expected_parent then Inl (RuntimeError ''authentication parent process exited'')
      else Inr ())"

section \<open>The life of a child\<close>

datatype Signal = SIGINT | SIGTERM | SIGKILL

text \<open>A child that ended is reaped with its status; \<open>Wait_failed\<close> says whether the child is unknown.\<close>

datatype WaitOutcome =
    Wait_running
  | Wait_interrupted
  | Wait_failed bool
  | Wait_exited int
  | Wait_signalled
  | Wait_other

text \<open>A child is reaped with its exit status when that is looked at.\<close>

datatype ChildEvent = Signalled int Signal | Reaped int "int option"

record Child =
  cp_pid :: int
  cp_events :: "ChildEvent list"
  cp_tick :: nat

text \<open>
  The kernel seen by the parent of a child: the results of \<open>waitpid\<close> and how often a child is asked
  for within a grace period.
\<close>

record ChildEnv =
  ce_waitpid :: "nat \<Rightarrow> WaitOutcome"
  ce_passes :: "nat \<Rightarrow> nat"

definition new_child :: "int \<Rightarrow> Child" where
  "new_child pid = \<lparr>cp_pid = pid, cp_events = [], cp_tick = 0\<rparr>"

definition child_ask :: "(nat \<Rightarrow> 'a) \<Rightarrow> (Child, 'a) exec" where
  "child_ask answer s = (Inr (answer (cp_tick s)), s\<lparr>cp_tick := cp_tick s + 1\<rparr>)"

definition send_signal :: "Signal \<Rightarrow> (Child, unit) exec" where
  "send_signal signal = exec_modify (\<lambda>s. s\<lparr>cp_events := cp_events s @ [Signalled (- cp_pid s) signal]\<rparr>)"

definition reap :: "int option \<Rightarrow> (Child, unit) exec" where
  "reap status = exec_modify (\<lambda>s. s\<lparr>cp_events := cp_events s @ [Reaped (cp_pid s) status], cp_pid := -1\<rparr>)"

definition child_poll :: "ChildEnv \<Rightarrow> (Child, int option) exec" where
  "child_poll env =
     exec_bind (child_ask (ce_waitpid env)) (\<lambda>outcome.
       case outcome of
         Wait_running \<Rightarrow> exec_return None
       | Wait_interrupted \<Rightarrow> exec_return None
       | Wait_failed _ \<Rightarrow> exec_throw (SystemError ''waitpid'')
       | Wait_exited status \<Rightarrow> exec_then (reap (Some status)) (exec_return (Some status))
       | Wait_signalled \<Rightarrow> exec_then (reap None) (exec_throw (RuntimeError ''child process terminated by signal''))
       | Wait_other \<Rightarrow> exec_then (reap None) (exec_throw (RuntimeError ''child process returned an invalid status'')))"

text \<open>The child is asked for \<open>n\<close> times before the grace period ends.\<close>

fun exit_loop :: "ChildEnv \<Rightarrow> nat \<Rightarrow> (Child, bool) exec" where
  "exit_loop env 0 = exec_return False"
| "exit_loop env (Suc n) =
     exec_bind (child_ask (ce_waitpid env)) (\<lambda>outcome.
       case outcome of
         Wait_running \<Rightarrow> exit_loop env n
       | Wait_interrupted \<Rightarrow> exit_loop env n
       | Wait_failed unknown \<Rightarrow> if unknown then exec_then (reap None) (exec_return True) else exec_return False
       | _ \<Rightarrow> exec_then (reap None) (exec_return True))"

definition wait_for_exit :: "ChildEnv \<Rightarrow> (Child, bool) exec" where
  "wait_for_exit env = exec_bind (child_ask (ce_passes env)) (exit_loop env)"

definition terminate_and_reap :: "ChildEnv \<Rightarrow> (Child, unit) exec" where
  "terminate_and_reap env =
     exec_bind (exec_get cp_pid) (\<lambda>pid.
       if pid \<le> 0 then exec_return ()
       else
         exec_then (send_signal SIGINT)
         (exec_bind (wait_for_exit env) (\<lambda>gone.
           if gone then exec_return ()
           else
             exec_then (send_signal SIGTERM)
             (exec_bind (wait_for_exit env) (\<lambda>gone.
               if gone then exec_return ()
               else exec_then (send_signal SIGKILL) (reap None))))))"

section \<open>A program run to its exit\<close>

text \<open>The state of a run: what the callbacks act on and what goes over the socket, and the child.\<close>

record 'c Supervisor =
  su_client :: "'c Client"
  su_child :: Child

definition with_client :: "('c Client, 'a) exec \<Rightarrow> ('c Supervisor, 'a) exec" where
  "with_client m s = (case m (su_client s) of (r, client) \<Rightarrow> (r, s\<lparr>su_client := client\<rparr>))"

definition with_child :: "(Child, 'a) exec \<Rightarrow> ('c Supervisor, 'a) exec" where
  "with_child m s = (case m (su_child s) of (r, child) \<Rightarrow> (r, s\<lparr>su_child := child\<rparr>))"

text \<open>The scope of a child: its destructor runs however the body ends.\<close>

definition child_scope :: "ChildEnv \<Rightarrow> int \<Rightarrow> ('c Supervisor, 'a) exec \<Rightarrow> ('c Supervisor, 'a) exec" where
  "child_scope env pid body s =
     (case body (s\<lparr>su_child := new_child pid\<rparr>) of
        (r, s') \<Rightarrow> (r, snd (with_child (terminate_and_reap env) s')))"

text \<open>
  The environment: the link to the child with the stop token and the clock, the socket pair and the
  duplication of descriptors, spawning, the child, and how many messages are ready in one pass.
\<close>

record ProcessEnv =
  pe_link :: VerifierEnv
  pe_socketpair :: "(int \<times> int) option"
  pe_duplicate :: "int \<Rightarrow> int"
  pe_spawn :: "SpawnStep \<Rightarrow> int"
  pe_pid :: int
  pe_child :: ChildEnv
  pe_burst :: "nat \<Rightarrow> nat"

text \<open>What precedes every run: cancellation, the path and the timeout.\<close>

definition check_program :: "ProcessEnv \<Rightarrow> 'c Callbacks \<Rightarrow> string \<Rightarrow> int \<Rightarrow> ('c Supervisor, unit) exec" where
  "check_program env cbs path timeout =
     exec_bind (with_client (client_ask (ve_stop (pe_link env)))) (\<lambda>stop.
     exec_then (exec_lift (cancellation_point stop))
     (exec_bind (with_client (client_cancelled cbs)) (\<lambda>gone.
     exec_then (exec_guard (\<not> gone) UserInteractionCancelled)
     (exec_then (exec_guard (path \<noteq> []) (InvalidArgument ''child program path is empty''))
       (exec_guard (timeout > 0) (InvalidArgument ''child program timeout must be positive''))))))"

text \<open>The child is terminated and the reason reported.\<close>

definition abandon :: "ProcessEnv \<Rightarrow> exn \<Rightarrow> ('c Supervisor, 'a) exec" where
  "abandon env e = exec_then (with_child (terminate_and_reap (pe_child env))) (exec_throw e)"

text \<open>A pass of the waiting loop; \<open>n\<close> passes follow it before the clock is past the deadline.\<close>

definition program_round :: "ProcessEnv \<Rightarrow> 'c Callbacks \<Rightarrow> time \<Rightarrow> nat \<Rightarrow> ('c Supervisor, int option) exec" where
  "program_round env cbs deadline n =
     exec_bind (with_client (client_ask (ve_stop (pe_link env)))) (\<lambda>stop.
       if stop then abandon env OperationCancelled
       else exec_bind (with_client (client_cancelled cbs)) (\<lambda>gone.
         if gone then abandon env UserInteractionCancelled
         else exec_bind (with_child (child_poll (pe_child env))) (\<lambda>status.
           if status \<noteq> None then exec_return status
           else exec_bind (with_client (client_ask (ve_clock (pe_link env)))) (\<lambda>time.
             if (if n = 0 then max deadline time else time) \<ge> deadline then abandon env UserActionTimedOut
             else exec_return None))))"

fun program_loop :: "ProcessEnv \<Rightarrow> 'c Callbacks \<Rightarrow> time \<Rightarrow> nat \<Rightarrow> ('c Supervisor, int) exec" where
  "program_loop env cbs deadline 0 =
     exec_bind (program_round env cbs deadline 0) (\<lambda>status.
       case status of Some code \<Rightarrow> exec_return code | None \<Rightarrow> exec_throw UserActionTimedOut)"
| "program_loop env cbs deadline (Suc n) =
     exec_bind (program_round env cbs deadline (Suc n)) (\<lambda>status.
       case status of Some code \<Rightarrow> exec_return code | None \<Rightarrow> program_loop env cbs deadline n)"

definition run_cancellable_program ::
    "ProcessEnv \<Rightarrow> string \<Rightarrow> string list \<Rightarrow> int \<Rightarrow> 'c Callbacks \<Rightarrow> ('c Supervisor, int) exec" where
  "run_cancellable_program env path arguments timeout cbs =
     exec_then (check_program env cbs path timeout)
     (exec_bind (with_client (client_ask (ve_clock (pe_link env)))) (\<lambda>now.
     exec_bind (exec_lift (spawn_program (pe_spawn env) (pe_pid env) path arguments (-1))) (\<lambda>pid.
       child_scope (pe_child env) pid (program_loop env cbs (now + nat timeout) (ve_rounds (pe_link env))))))"

section \<open>A verifier program\<close>

text \<open>One message of the verifier; its result when the verifier says it is done.\<close>

definition receive_message :: "VerifierEnv \<Rightarrow> 'c Callbacks \<Rightarrow> int \<Rightarrow> ('c Client, VerificationResult option) exec" where
  "receive_message env cbs fd =
     exec_bind (client_receive env fd) (\<lambda>message.
     exec_then (client_advance from_pam_verifier message)
       (case message of
          VerificationStatus kind display \<Rightarrow>
            exec_then (case cb_status cbs of None \<Rightarrow> exec_return () | Some callback \<Rightarrow> on_channel (callback kind display))
              (exec_return None)
        | SecretRequired prompt \<Rightarrow>
            (case cb_secret cbs of
               None \<Rightarrow> exec_throw (RuntimeError ''bad_function_call'')
             | Some callback \<Rightarrow>
                 exec_bind (client_ask (ve_clock env)) (\<lambda>now.
                 exec_bind (on_channel (callback now prompt)) (\<lambda>secret.
                 exec_then (client_send env fd (SecretResponse secret))
                 (exec_then (client_advance from_daemon (SecretResponse secret)) (exec_return None)))))
        | VerificationComplete verdict \<Rightarrow> exec_return (Some verdict)
        | _ \<Rightarrow> exec_throw (VerifierConversationError ''verifier sent a daemon-only message'')))"

text \<open>The inner loop: messages are taken as long as one is ready, at most \<open>m\<close> here.\<close>

fun drain :: "VerifierEnv \<Rightarrow> 'c Callbacks \<Rightarrow> int \<Rightarrow> nat \<Rightarrow> ('c Client, VerificationResult option) exec" where
  "drain env cbs fd 0 = exec_return None"
| "drain env cbs fd (Suc m) =
     exec_bind (client_ask (\<lambda>t. ve_poll env t 0)) (\<lambda>outcome.
       case outcome of
         Poll_failed \<Rightarrow> exec_throw (SystemError ''poll verifier socket'')
       | Poll_timeout \<Rightarrow> exec_return None
       | Poll_ready readable \<Rightarrow>
           if \<not> readable then exec_return None
           else exec_bind (receive_message env cbs fd) (\<lambda>completion.
             if completion \<noteq> None then exec_return completion else drain env cbs fd m))"

definition abandon_verifier :: "ProcessEnv \<Rightarrow> int \<Rightarrow> exn \<Rightarrow> ('c Supervisor, 'a) exec" where
  "abandon_verifier env fd e = exec_then (with_client (send_cancel (pe_link env) fd)) (abandon env e)"

text \<open>The verdict of a verifier that exited: its exit status has to agree with its result.\<close>

definition exit_verdict :: "int \<Rightarrow> VerificationResult option \<Rightarrow> VerificationResult result" where
  "exit_verdict status completion =
     (case completion of
        None \<Rightarrow> Inl (RuntimeError ''verifier exited without a completion message'')
      | Some verdict \<Rightarrow>
          if (status = 0) \<noteq> (verdict = verification_success) then
            Inl (RuntimeError ''verifier exit status contradicts its result'')
          else Inr verdict)"

text \<open>A pass of the outer loop: the verdict when the verifier is done, and the completion so far.\<close>

definition verifier_round ::
    "ProcessEnv \<Rightarrow> 'c Callbacks \<Rightarrow> int \<Rightarrow> time \<Rightarrow> nat \<Rightarrow> VerificationResult option \<Rightarrow>
     ('c Supervisor, VerificationResult option \<times> VerificationResult option) exec" where
  "verifier_round env cbs fd deadline n before =
     exec_bind (if before \<noteq> None then exec_return before
                else with_client (exec_bind (client_ask (pe_burst env)) (drain (pe_link env) cbs fd))) (\<lambda>completion.
     exec_bind (with_client (client_ask (ve_stop (pe_link env)))) (\<lambda>stop.
       if stop then abandon_verifier env fd OperationCancelled
       else exec_bind (with_client (client_cancelled cbs)) (\<lambda>gone.
         if gone then abandon_verifier env fd UserInteractionCancelled
         else exec_bind (with_child (child_poll (pe_child env))) (\<lambda>status.
           case status of
             Some code \<Rightarrow> exec_bind (exec_lift (exit_verdict code completion)) (\<lambda>verdict. exec_return (Some verdict, completion))
           | None \<Rightarrow>
               exec_bind (with_client (client_ask (ve_clock (pe_link env)))) (\<lambda>time.
                 if (if n = 0 then max deadline time else time) \<ge> deadline then
                   abandon_verifier env fd UserActionTimedOut
                 else exec_return (None, completion))))))"

fun verifier_loop ::
    "ProcessEnv \<Rightarrow> 'c Callbacks \<Rightarrow> int \<Rightarrow> time \<Rightarrow> nat \<Rightarrow> VerificationResult option \<Rightarrow> ('c Supervisor, VerificationResult) exec" where
  "verifier_loop env cbs fd deadline 0 before =
     exec_bind (verifier_round env cbs fd deadline 0 before) (\<lambda>(verdict, _).
       case verdict of Some v \<Rightarrow> exec_return v | None \<Rightarrow> exec_throw UserActionTimedOut)"
| "verifier_loop env cbs fd deadline (Suc n) before =
     exec_bind (verifier_round env cbs fd deadline (Suc n) before) (\<lambda>(verdict, completion).
       case verdict of Some v \<Rightarrow> exec_return v | None \<Rightarrow> verifier_loop env cbs fd deadline n completion)"

definition make_verifier_socket_pair :: "ProcessEnv \<Rightarrow> (int \<times> int) result" where
  "make_verifier_socket_pair env =
     (case pe_socketpair env of
        None \<Rightarrow> Inl (SystemError ''create verifier socket pair'')
      | Some pair \<Rightarrow> Inr pair)"

definition run_cancellable_verifier_program ::
    "ProcessEnv \<Rightarrow> string \<Rightarrow> string list \<Rightarrow> u32 \<Rightarrow> string \<Rightarrow> int \<Rightarrow> 'c Callbacks \<Rightarrow>
     ('c Supervisor, VerificationResult) exec" where
  "run_cancellable_verifier_program env path arguments target_uid session_id timeout cbs =
     exec_then (check_program env cbs path timeout)
     (exec_then (exec_guard (cb_secret cbs \<noteq> None) (InvalidArgument ''verifier secret callback is missing''))
     (exec_bind (with_client (client_ask (ve_clock (pe_link env)))) (\<lambda>now.
     exec_bind (exec_lift (make_verifier_socket_pair env)) (\<lambda>(daemon, verifier).
     exec_bind (exec_lift (move_above_auth_descriptors (pe_duplicate env) daemon)) (\<lambda>daemon.
     exec_bind (exec_lift (move_above_auth_descriptors (pe_duplicate env) verifier)) (\<lambda>verifier.
     exec_bind (exec_lift (verifier_socket daemon (ve_probe (pe_link env)))) (\<lambda>fd.
     exec_bind (exec_lift (spawn_program (pe_spawn env) (pe_pid env) path arguments verifier)) (\<lambda>pid.
       child_scope (pe_child env) pid
         (exec_then (with_client (client_send (pe_link env) fd (StartVerification target_uid session_id)))
         (exec_then (with_client (client_advance from_daemon (StartVerification target_uid session_id)))
           (verifier_loop env cbs fd (now + nat timeout) (ve_rounds (pe_link env)) None)))))))))))"

section \<open>Lemmas\<close>

subsection \<open>Descriptors\<close>

text \<open>The child has the standard descriptors and, when there is one, its end of the socket as descriptor 3.\<close>

lemma child_descriptors_eq:
  "child_descriptors fd table =
     (\<lambda>d. if d \<le> STDERR_FILENO then table d else if d = VERIFIER_SOCKET_FD \<and> fd \<ge> 0 then table fd else None)"
  by (auto simp: child_descriptors_def file_action_steps_def VERIFIER_SOCKET_FD_def STDERR_FILENO_def)

lemma moved_descriptor:
  "(\<And>fd. duplicate fd < 0 \<or> VERIFIER_SOCKET_FD + 2 \<le> duplicate fd) \<Longrightarrow>
     move_above_auth_descriptors duplicate fd = Inr d \<Longrightarrow> d \<noteq> VERIFIER_SOCKET_FD \<and> d \<noteq> VERIFIER_SOCKET_FD + 1"
  by (force simp: move_above_auth_descriptors_def split: if_splits)

subsection \<open>Children\<close>

text \<open>A child that runs and was not signalled, and one that is gone: signalled more and more strongly until it was reaped.\<close>

definition alive :: "int \<Rightarrow> Child \<Rightarrow> bool" where
  "alive pid child \<longleftrightarrow> cp_pid child = pid \<and> cp_events child = []"

definition reaped :: "int \<Rightarrow> Child \<Rightarrow> bool" where
  "reaped pid child \<longleftrightarrow> cp_pid child = -1 \<and>
     (\<exists>n status. cp_events child = map (Signalled (- pid)) (take n [SIGINT, SIGTERM, SIGKILL]) @ [Reaped pid status])"

definition signalled :: "int \<Rightarrow> Signal list \<Rightarrow> Child \<Rightarrow> bool" where
  "signalled pid signals child \<longleftrightarrow> cp_pid child = pid \<and> cp_events child = map (Signalled (- pid)) signals"

lemma exit_loop_signalled:
  assumes "exit_loop env n c = (r, c')" "signalled pid signals c"
  shows "(r = Inr False \<and> signalled pid signals c') \<or>
    (r = Inr True \<and> cp_pid c' = -1 \<and> cp_events c' = map (Signalled (- pid)) signals @ [Reaped pid None])"
  using assms
proof (induction n arbitrary: c)
  case (Suc n)
  from Suc.prems(2) have moved: "signalled pid signals (c\<lparr>cp_tick := Suc (cp_tick c)\<rparr>)" by (simp add: signalled_def)
  from Suc.prems Suc.IH [OF _ moved] show ?case
    by (auto simp: exec_bind_def exec_then_def child_ask_def reap_def exec_prim signalled_def split: WaitOutcome.splits if_splits)
qed (simp add: exec_prim)

lemma wait_for_exit_signalled:
  assumes "wait_for_exit env c = (r, c')" "signalled pid signals c"
  shows "(r = Inr False \<and> signalled pid signals c') \<or>
    (r = Inr True \<and> cp_pid c' = -1 \<and> cp_events c' = map (Signalled (- pid)) signals @ [Reaped pid None])"
proof -
  from assms(1) have "exit_loop env (ce_passes env (cp_tick c)) (c\<lparr>cp_tick := Suc (cp_tick c)\<rparr>) = (r, c')"
    by (simp add: wait_for_exit_def exec_bind_def child_ask_def)
  moreover from assms(2) have "signalled pid signals (c\<lparr>cp_tick := Suc (cp_tick c)\<rparr>)" by (simp add: signalled_def)
  ultimately show ?thesis by (rule exit_loop_signalled)
qed

lemma send_signal_signalled:
  "signalled pid signals c \<Longrightarrow> send_signal signal c = (Inr (), c') \<Longrightarrow> signalled pid (signals @ [signal]) c'"
  by (auto simp: send_signal_def exec_prim signalled_def)

lemma reapedI:
  assumes "cp_pid c = -1" "cp_events c = map (Signalled (- pid)) (take n [SIGINT, SIGTERM, SIGKILL]) @ [Reaped pid status]"
  shows "reaped pid c"
  using assms unfolding reaped_def by blast

lemma terminate_and_reap_reaped:
  assumes run: "terminate_and_reap env c = (r, c')" and "alive pid c" "pid > 0"
  shows "r = Inr () \<and> reaped pid c'"
proof -
  from assms(2) have start: "signalled pid [] c" by (simp add: alive_def signalled_def)
  obtain c1 where c1: "send_signal SIGINT c = (Inr (), c1)" by (simp add: send_signal_def exec_prim)
  obtain g2 c2 where c2: "wait_for_exit env c1 = (g2, c2)" by fastforce
  obtain c3 where c3: "send_signal SIGTERM c2 = (Inr (), c3)" by (simp add: send_signal_def exec_prim)
  obtain g4 c4 where c4: "wait_for_exit env c3 = (g4, c4)" by fastforce
  obtain c5 where c5: "send_signal SIGKILL c4 = (Inr (), c5)" by (simp add: send_signal_def exec_prim)
  note eval = terminate_and_reap_def exec_bind_def exec_then_def exec_prim c1 c2 c3 c4 c5
  from send_signal_signalled [OF start c1] have s1: "signalled pid [SIGINT] c1" by simp
  from wait_for_exit_signalled [OF c2 s1] consider
      "g2 = Inr False" "signalled pid [SIGINT] c2"
    | "g2 = Inr True" "cp_pid c2 = -1" "cp_events c2 = map (Signalled (- pid)) (take 1 [SIGINT, SIGTERM, SIGKILL]) @ [Reaped pid None]"
    by auto
  then show ?thesis
  proof cases
    case 1
    from send_signal_signalled [OF 1(2) c3] have s3: "signalled pid [SIGINT, SIGTERM] c3" by simp
    from wait_for_exit_signalled [OF c4 s3] consider
        "g4 = Inr False" "signalled pid [SIGINT, SIGTERM] c4"
      | "g4 = Inr True" "cp_pid c4 = -1" "cp_events c4 = map (Signalled (- pid)) (take 2 [SIGINT, SIGTERM, SIGKILL]) @ [Reaped pid None]"
      by auto
    then show ?thesis
    proof cases
      case 1
      from send_signal_signalled [OF 1(2) c5] have "signalled pid [SIGINT, SIGTERM, SIGKILL] c5" by simp
      then have "reaped pid (snd (reap None c5))"
        by (intro reapedI [of _ _ 3 None]) (simp_all add: reap_def exec_prim signalled_def)
      with run 1 \<open>g2 = Inr False\<close> assms(2,3) show ?thesis
        by (simp add: eval alive_def reap_def)
    next
      case 2
      with reapedI [OF 2(2,3)] run \<open>g2 = Inr False\<close> assms(2,3) show ?thesis by (simp add: eval alive_def)
    qed
  next
    case 2
    with reapedI [OF 2(2,3)] run assms(2,3) show ?thesis by (simp add: eval alive_def)
  qed
qed

lemma terminate_gone: "reaped pid c \<Longrightarrow> terminate_and_reap env c = (Inr (), c)"
  by (simp add: terminate_and_reap_def reaped_def exec_bind_def exec_prim)

text \<open>
  What a computation does to a child that is alive: an exception leaves it alive or reaped, a result
  leaves it alive exactly when \<open>Q\<close> says so.
\<close>

definition lively :: "int \<Rightarrow> ('c Supervisor, 'a) exec \<Rightarrow> ('a \<Rightarrow> bool) \<Rightarrow> bool" where
  "lively pid m Q \<longleftrightarrow> (\<forall>s r s'. alive pid (su_child s) \<longrightarrow> m s = (r, s') \<longrightarrow>
     (case r of Inl _ \<Rightarrow> alive pid (su_child s') \<or> reaped pid (su_child s')
      | Inr x \<Rightarrow> if Q x then alive pid (su_child s') else reaped pid (su_child s')))"

definition leaves_child :: "('c Supervisor, 'a) exec \<Rightarrow> bool" where
  "leaves_child m \<longleftrightarrow> (\<forall>s r s'. m s = (r, s') \<longrightarrow> su_child s' = su_child s)"

lemma leaves_child_prim:
  "leaves_child (exec_return x)" "leaves_child (exec_throw e)" "leaves_child (exec_lift r)" "leaves_child (exec_guard ok e)"
  "leaves_child (with_client m)"
  by (auto simp: leaves_child_def exec_prim exec_guard_def with_client_def split: prod.splits)

lemma leaves_child_bind:
  "leaves_child m \<Longrightarrow> (\<And>x. leaves_child (f x)) \<Longrightarrow> leaves_child (exec_bind m f)"
  by (auto simp: leaves_child_def exec_bind_def split: prod.splits sum.splits)

lemma leaves_child_then: "leaves_child m \<Longrightarrow> leaves_child k \<Longrightarrow> leaves_child (exec_then m k)"
  by (simp add: exec_then_def leaves_child_bind)

lemmas leaves_child_intros = leaves_child_prim leaves_child_bind leaves_child_then

lemma lively_leaves: "leaves_child m \<Longrightarrow> (\<And>x. Q x) \<Longrightarrow> lively pid m Q"
  by (auto simp: lively_def leaves_child_def split: sum.split)

lemma lively_throws: "leaves_child m \<Longrightarrow> (\<And>s x s'. m s \<noteq> (Inr x, s')) \<Longrightarrow> lively pid m Q"
  unfolding lively_def leaves_child_def by (auto split: sum.split)

lemma lively_bind:
  assumes "lively pid m (\<lambda>_. True)" "\<And>x. lively pid (f x) Q"
  shows "lively pid (exec_bind m f) Q"
  unfolding lively_def
proof (intro allI impI)
  fix s r s'
  assume "alive pid (su_child s)" "exec_bind m f s = (r, s')"
  from this(2) show "case r of Inl _ \<Rightarrow> alive pid (su_child s') \<or> reaped pid (su_child s')
      | Inr x \<Rightarrow> if Q x then alive pid (su_child s') else reaped pid (su_child s')"
  proof (cases rule: exec_bind_cases)
    case (threw e)
    with assms(1) \<open>alive pid (su_child s)\<close> show ?thesis unfolding lively_def by fastforce
  next
    case (went_on x s1)
    with assms(1) \<open>alive pid (su_child s)\<close> have "alive pid (su_child s1)" unfolding lively_def by fastforce
    with assms(2) [of x] went_on(2) show ?thesis unfolding lively_def by blast
  qed
qed

lemma lively_if: "(b \<Longrightarrow> lively pid m Q) \<Longrightarrow> (\<not> b \<Longrightarrow> lively pid k Q) \<Longrightarrow> lively pid (if b then m else k) Q"
  by simp

lemma abandon_lively:
  assumes "pid > 0"
  shows "lively pid (abandon env e) Q"
  unfolding lively_def
proof (intro allI impI)
  fix s :: "'a Supervisor" and r :: "'b result" and s'
  assume "alive pid (su_child s)" and run: "abandon env e s = (r, s')"
  obtain t c where t: "terminate_and_reap (pe_child env) (su_child s) = (t, c)" by fastforce
  from terminate_and_reap_reaped [OF t \<open>alive pid (su_child s)\<close> assms] run t
  show "case r of Inl _ \<Rightarrow> alive pid (su_child s') \<or> reaped pid (su_child s')
      | Inr x \<Rightarrow> if Q x then alive pid (su_child s') else reaped pid (su_child s')"
    by (auto simp: abandon_def exec_then_def exec_bind_def with_child_def exec_prim)
qed

text \<open>After the child was asked for, only its exit status remains to be judged.\<close>

lemma poll_lively:
  assumes "\<And>code. leaves_child (f (Some code))" "\<And>code s x s'. f (Some code) s = (Inr x, s') \<Longrightarrow> \<not> R x"
    and "lively pid (f None) R"
  shows "lively pid (exec_bind (with_child (child_poll env)) f) R"
  unfolding lively_def
proof (intro allI impI)
  fix s r s'
  assume live: "alive pid (su_child s)" and "exec_bind (with_child (child_poll env)) f s = (r, s')"
  from this(2) show "case r of Inl _ \<Rightarrow> alive pid (su_child s') \<or> reaped pid (su_child s')
      | Inr x \<Rightarrow> if R x then alive pid (su_child s') else reaped pid (su_child s')"
  proof (cases rule: exec_bind_cases)
    case (threw e)
    with live show ?thesis
      by (auto simp: with_child_def child_poll_def exec_bind_def exec_then_def child_ask_def exec_prim reap_def alive_def
          reaped_def split: WaitOutcome.splits prod.splits intro: exI [of _ 0])
  next
    case (went_on status s1)
    show ?thesis
    proof (cases status)
      case None
      with went_on(1) live have "alive pid (su_child s1)"
        by (auto simp: with_child_def child_poll_def exec_bind_def exec_then_def child_ask_def exec_prim reap_def alive_def
            split: WaitOutcome.splits prod.splits)
      with assms(3) went_on(2) None show ?thesis unfolding lively_def by blast
    next
      case (Some code)
      with went_on(1) live have "reaped pid (su_child s1)"
        by (auto simp: with_child_def child_poll_def exec_bind_def exec_then_def child_ask_def exec_prim reap_def alive_def
            reaped_def split: WaitOutcome.splits prod.splits intro: exI [of _ 0])
      with assms(1,2) went_on(2) Some show ?thesis unfolding leaves_child_def by (cases r) auto
    qed
  qed
qed

lemma lively_return: "Q x \<Longrightarrow> lively pid (exec_return x) Q"
  by (simp add: lively_def exec_prim)

lemma lively_client: "lively pid (with_client m) (\<lambda>_. True)"
  by (simp add: lively_leaves leaves_child_prim)

lemma program_round_lively:
  assumes "pid > 0"
  shows "lively pid (program_round env cbs deadline n) (\<lambda>status. status = None)"
proof -
  have last: "lively pid (exec_bind (with_client (client_ask (ve_clock (pe_link env)))) (\<lambda>time.
      if (if n = 0 then max deadline time else time) \<ge> deadline then abandon env UserActionTimedOut
      else exec_return None)) (\<lambda>status. status = None)"
    by (intro lively_bind lively_if abandon_lively assms lively_client lively_return) simp_all
  show ?thesis unfolding program_round_def
    by (intro poll_lively lively_bind lively_if abandon_lively assms lively_client lively_return)
      (auto simp: leaves_child_prim exec_prim last)
qed

lemma verifier_round_lively:
  assumes "pid > 0"
  shows "lively pid (verifier_round env cbs fd deadline n before) (\<lambda>r. fst r = None)"
proof -
  have abandons: "lively pid (abandon_verifier env fd e) Q" for e and Q :: "'b \<Rightarrow> bool"
    unfolding abandon_verifier_def exec_then_def
    by (intro lively_bind abandon_lively assms lively_client)
  have last: "lively pid (exec_bind (with_client (client_ask (ve_clock (pe_link env)))) (\<lambda>time.
      if (if n = 0 then max deadline time else time) \<ge> deadline then abandon_verifier env fd UserActionTimedOut
      else exec_return (None, completion))) (\<lambda>r. fst r = None)" for completion
    by (intro lively_bind lively_if abandons lively_client lively_return) simp_all
  show ?thesis unfolding verifier_round_def
    by (intro poll_lively lively_bind lively_if abandons lively_client lively_return)
      (auto simp: leaves_child_prim exec_simps last intro!: leaves_child_intros)
qed

lemma lively_settle:
  assumes "lively pid m P" "\<And>x. P x \<Longrightarrow> lively pid (f x) (\<lambda>_. False)" "\<And>x. \<not> P x \<Longrightarrow> leaves_child (f x)"
  shows "lively pid (exec_bind m f) (\<lambda>_. False)"
  unfolding lively_def
proof (intro allI impI)
  fix s r s'
  assume live: "alive pid (su_child s)" and "exec_bind m f s = (r, s')"
  from this(2) show "case r of Inl _ \<Rightarrow> alive pid (su_child s') \<or> reaped pid (su_child s')
      | Inr x \<Rightarrow> if False then alive pid (su_child s') else reaped pid (su_child s')"
  proof (cases rule: exec_bind_cases)
    case (threw e)
    with assms(1) live show ?thesis unfolding lively_def by fastforce
  next
    case (went_on x s1)
    show ?thesis
    proof (cases "P x")
      case True
      with assms(1) live went_on(1) have "alive pid (su_child s1)" unfolding lively_def by fastforce
      with assms(2) [OF True] went_on(2) show ?thesis unfolding lively_def by blast
    next
      case False
      with assms(1) live went_on(1) have "reaped pid (su_child s1)" unfolding lively_def by fastforce
      with assms(3) [OF False] went_on(2) have "reaped pid (su_child s')" unfolding leaves_child_def by metis
      then show ?thesis by (simp split: sum.split)
    qed
  qed
qed

lemma loops_lively:
  assumes "pid > 0"
  shows "lively pid (program_loop env cbs deadline n) (\<lambda>_. False)"
    "lively pid (verifier_loop env cbs fd deadline n before) (\<lambda>_. False)"
proof -
  have ended: "lively pid (exec_throw e) (\<lambda>_. False)" for e by (simp add: lively_def exec_prim)
  show "lively pid (program_loop env cbs deadline n) (\<lambda>_. False)"
    by (induction n) (auto intro!: lively_settle [OF program_round_lively [OF assms]] ended leaves_child_intros)
  show "lively pid (verifier_loop env cbs fd deadline n before) (\<lambda>_. False)"
    by (induction n arbitrary: before)
      (auto intro!: lively_settle [OF verifier_round_lively [OF assms]] ended leaves_child_intros split: prod.splits)
qed

lemma child_scope_reaped:
  assumes "lively pid body Q" "pid > 0" "child_scope env pid body s = (r, s')"
  shows "reaped pid (su_child s')"
proof -
  obtain t s1 where body: "body (s\<lparr>su_child := new_child pid\<rparr>) = (t, s1)" by fastforce
  have "alive pid (su_child (s\<lparr>su_child := new_child pid\<rparr>))" by (simp add: alive_def new_child_def)
  with assms(1) body have "alive pid (su_child s1) \<or> reaped pid (su_child s1)"
    unfolding lively_def by (fastforce split: sum.splits if_splits)
  moreover have "su_child s' = snd (terminate_and_reap env (su_child s1))"
    using assms(3) body by (auto simp: child_scope_def with_child_def split: prod.splits)
  ultimately show ?thesis
    using terminate_and_reap_reaped [OF prod.collapse [symmetric] _ assms(2)] terminate_gone by fastforce
qed

text \<open>A run leaves its child reaped, or had none.\<close>

definition tidy :: "int \<Rightarrow> 'c Supervisor \<Rightarrow> 'c Supervisor \<Rightarrow> bool" where
  "tidy pid s s' \<longleftrightarrow> su_child s' = su_child s \<or> reaped pid (su_child s')"

lemma tidy_bind:
  "leaves_child m \<Longrightarrow> (\<And>x. keeps (tidy pid) (f x)) \<Longrightarrow> keeps (tidy pid) (exec_bind m f)"
  unfolding keeps_def leaves_child_def tidy_def
  by (intro allI impI, erule exec_bind_cases) metis+

lemma tidy_then: "leaves_child m \<Longrightarrow> keeps (tidy pid) k \<Longrightarrow> keeps (tidy pid) (exec_then m k)"
  by (simp add: exec_then_def tidy_bind)

lemma check_program_leaves: "leaves_child (check_program env cbs path timeout)"
  unfolding check_program_def by (intro leaves_child_intros)

lemma scope_tidy:
  assumes "pid > 0 \<Longrightarrow> lively pid body Q" "pid > 0"
  shows "keeps (tidy pid) (child_scope env pid body)"
  using child_scope_reaped [OF assms(1)] assms(2) by (auto simp: keeps_def tidy_def)

lemma spawn_program_pid: "spawn_program rc pid path arguments fd = Inr p \<Longrightarrow> p = pid"
  by (auto simp: spawn_program_def bind_result_eq_Inr)

lemma lifted_tidy:
  "(\<And>x. r = Inr x \<Longrightarrow> keeps (tidy pid) (f x)) \<Longrightarrow> keeps (tidy pid) (exec_bind (exec_lift r) f)"
  by (cases r) (auto simp: exec_lift_bind keeps_def exec_prim tidy_def)

lemma runs_tidy:
  assumes "pe_pid env > 0"
  shows "keeps (tidy (pe_pid env)) (run_cancellable_program env path arguments timeout cbs)"
    "keeps (tidy (pe_pid env)) (run_cancellable_verifier_program env path arguments uid session timeout cbs)"
proof -
  show "keeps (tidy (pe_pid env)) (run_cancellable_program env path arguments timeout cbs)"
    unfolding run_cancellable_program_def
    by (intro tidy_then tidy_bind lifted_tidy check_program_leaves leaves_child_intros)
      (auto dest!: spawn_program_pid intro!: scope_tidy [OF loops_lively(1)] assms)
  have talk: "lively pid (exec_then (with_client m) (exec_then (with_client k) (verifier_loop env cbs fd deadline n None)))
      (\<lambda>_. False)" if "pid > 0" for pid m k fd deadline n
    unfolding exec_then_def by (intro lively_bind lively_client loops_lively that)
  show "keeps (tidy (pe_pid env)) (run_cancellable_verifier_program env path arguments uid session timeout cbs)"
    unfolding run_cancellable_verifier_program_def
    by (intro tidy_then tidy_bind lifted_tidy check_program_leaves leaves_child_intros)
      (auto dest!: spawn_program_pid intro!: tidy_bind lifted_tidy leaves_child_intros scope_tidy [OF talk] assms)
qed

subsection \<open>The conversation with a verifier program\<close>

text \<open>The state during the run, with the result the verifier has reported so far.\<close>

definition supervised ::
    "(bytes set \<Rightarrow> 'c \<Rightarrow> 'c \<Rightarrow> bool) \<Rightarrow> 'c \<Rightarrow> int \<Rightarrow> VerificationResult option \<Rightarrow> 'c Supervisor \<Rightarrow> bool" where
  "supervised G c0 pid before s \<longleftrightarrow> talking G c0 {} (su_client s) \<and>
     (\<forall>verdict. before = Some verdict \<longrightarrow> cl_conversation (su_client s) = VerifierCompleted verdict) \<and> alive pid (su_child s)"

text \<open>The state after a verdict: the verifier exited by itself, with a status that agrees.\<close>

definition concluded ::
    "(bytes set \<Rightarrow> 'c \<Rightarrow> 'c \<Rightarrow> bool) \<Rightarrow> 'c \<Rightarrow> int \<Rightarrow> VerificationResult \<Rightarrow> 'c Supervisor \<Rightarrow> bool" where
  "concluded G c0 pid verdict s \<longleftrightarrow> talking G c0 {} (su_client s) \<and>
     cl_conversation (su_client s) = VerifierCompleted verdict \<and> cp_pid (su_child s) = -1 \<and>
     (\<exists>code. cp_events (su_child s) = [Reaped pid (Some code)] \<and> (code = 0 \<longleftrightarrow> verdict = verification_success))"

lemma with_client_ensures:
  assumes "ensures P m Q"
  shows "ensures (\<lambda>s. P (su_client s) \<and> R (su_child s)) (with_client m) (\<lambda>x s. Q x (su_client s) \<and> R (su_child s))"
  by (rule ensuresI) (auto simp: with_client_def split: prod.splits dest: ensuresD [OF assms])

lemma child_poll_ensures:
  "ensures (supervised G c0 pid before) (with_child (child_poll env))
     (\<lambda>status s. case status of None \<Rightarrow> supervised G c0 pid before s
        | Some code \<Rightarrow> talking G c0 {} (su_client s) \<and>
            (\<forall>verdict. before = Some verdict \<longrightarrow> cl_conversation (su_client s) = VerifierCompleted verdict) \<and>
            cp_pid (su_child s) = -1 \<and> cp_events (su_child s) = [Reaped pid (Some code)])"
  by (rule ensuresI)
    (auto simp: with_child_def child_poll_def exec_bind_def exec_then_def child_ask_def exec_prim reap_def alive_def
      supervised_def split: WaitOutcome.splits prod.splits)

context client_callbacks
begin

lemma receive_message_talking:
  "ensures (talking G c0 {}) (receive_message env cbs fd)
     (\<lambda>r s. talking G c0 {} s \<and> (\<forall>verdict. r = Some verdict \<longrightarrow> cl_conversation s = VerifierCompleted verdict))"
  unfolding receive_message_def
proof (rule ensures_bind [OF receive_exchanged], rule ensures_then [OF advance_talking])
  fix message
  let ?Q = "\<lambda>r s. talking G c0 {} s \<and> (\<forall>verdict. r = Some verdict \<longrightarrow> cl_conversation s = VerifierCompleted verdict)"
  have status: "ensures (talking G c0 {})
      (exec_then (case cb_status cbs of None \<Rightarrow> exec_return () | Some callback \<Rightarrow> on_channel (callback kind display))
        (exec_return None)) ?Q" for kind display
    by (rule ensures_then [of _ _ "talking G c0 {}"], (cases "cb_status cbs";
        auto intro: ensures_return on_channel_talking status_keeps), rule ensures_return, simp)
  have secret: "ensures (talking G c0 {}) (exec_bind (client_ask (ve_clock env)) (\<lambda>now.
      exec_bind (on_channel (f now prompt)) (\<lambda>secret.
      exec_then (client_send env fd (SecretResponse secret))
      (exec_then (client_advance from_daemon (SecretResponse secret)) (exec_return None))))) ?Q"
    if "cb_secret cbs = Some f" for f prompt
    by (rule ensures_bind [OF ask_talking], rule ensures_bind [OF secret_held [OF that]],
        rule ensures_then [OF send_exchanged], simp, rule ensures_then [OF advance_talking], rule ensures_return, simp)
  show "ensures (\<lambda>s. talking G c0 {} s \<and> (from_pam_verifier = from_pam_verifier \<longrightarrow>
      (\<forall>verdict. message = VerificationComplete verdict \<longrightarrow> cl_conversation s = VerifierCompleted verdict)))
      (case message of
         VerificationStatus kind display \<Rightarrow>
           exec_then (case cb_status cbs of None \<Rightarrow> exec_return () | Some callback \<Rightarrow> on_channel (callback kind display))
             (exec_return None)
       | SecretRequired prompt \<Rightarrow>
           (case cb_secret cbs of
              None \<Rightarrow> exec_throw (RuntimeError ''bad_function_call'')
            | Some callback \<Rightarrow>
                exec_bind (client_ask (ve_clock env)) (\<lambda>now.
                exec_bind (on_channel (callback now prompt)) (\<lambda>secret.
                exec_then (client_send env fd (SecretResponse secret))
                (exec_then (client_advance from_daemon (SecretResponse secret)) (exec_return None)))))
       | VerificationComplete verdict \<Rightarrow> exec_return (Some verdict)
       | _ \<Rightarrow> exec_throw (VerifierConversationError ''verifier sent a daemon-only message'')) ?Q"
  proof (cases message)
    case (VerificationStatus kind display)
    then show ?thesis using status by simp
  next
    case (SecretRequired prompt)
    then show ?thesis using secret by (cases "cb_secret cbs") (simp_all add: ensures_intros)
  qed (auto intro: ensures_return ensures_intros)
qed

lemma drain_talking:
  "ensures (talking G c0 {}) (drain env cbs fd m)
     (\<lambda>r s. talking G c0 {} s \<and> (\<forall>verdict. r = Some verdict \<longrightarrow> cl_conversation s = VerifierCompleted verdict))"
proof (induction m)
  case (Suc m)
  show ?case
    by (simp, rule ensures_bind [OF ask_talking])
      (auto split: PollOutcome.split intro!: ensures_return ensures_if ensures_intros
        ensures_bind [OF receive_message_talking] Suc [THEN ensures_weaken])
qed (simp add: ensures_return)

lemma verifier_round_concludes:
  "ensures (supervised G c0 pid before) (verifier_round env cbs fd deadline n before)
     (\<lambda>r s. case fst r of None \<Rightarrow> supervised G c0 pid (snd r) s | Some verdict \<Rightarrow> concluded G c0 pid verdict s)"
proof -
  have drained: "ensures (supervised G c0 pid before)
      (if before \<noteq> None then exec_return before
       else with_client (exec_bind (client_ask (pe_burst env)) (drain (pe_link env) cbs fd)))
      (supervised G c0 pid)"
  proof (cases before)
    case None
    have "ensures (talking G c0 {}) (exec_bind (client_ask (pe_burst env)) (drain (pe_link env) cbs fd))
        (\<lambda>r s. talking G c0 {} s \<and> (\<forall>verdict. r = Some verdict \<longrightarrow> cl_conversation s = VerifierCompleted verdict))"
      by (rule ensures_bind [OF ask_talking drain_talking])
    from with_client_ensures [OF this, of "alive pid"] None show ?thesis
      by (simp add: supervised_def [abs_def])
  qed (simp add: ensures_return)
  have kept: "ensures (supervised G c0 pid completion) (with_client m) (\<lambda>_. supervised G c0 pid completion)"
    if "\<And>held. ensures (talking G c0 held) m (\<lambda>_. talking G c0 held)" "\<And>s x s'. m s = (Inr x, s') \<Longrightarrow>
      cl_conversation s' = cl_conversation s" for m :: "('c Client, 'x) exec" and completion
    using that unfolding ensures_def supervised_def with_client_def by (fastforce split: prod.splits)
  have stays: "client_ask answer s = (Inr x, s') \<Longrightarrow> cl_conversation s' = cl_conversation s"
    "client_cancelled cbs s = (Inr gone, s') \<Longrightarrow> cl_conversation s' = cl_conversation s" for answer s x s' gone
    by (auto simp: client_ask_def client_cancelled_def on_channel_def exec_prim split: option.splits prod.splits)
  have undisturbed: "ensures (supervised G c0 pid completion) (with_client (client_cancelled cbs))
      (\<lambda>gone s. \<not> gone \<longrightarrow> supervised G c0 pid completion s)" for completion
    using cancelled_talking [of c0 "{}"] stays(2) unfolding ensures_def supervised_def with_client_def
    by (fastforce split: prod.splits)
  have abandons: "ensures P (abandon_verifier env fd e) Q" for P e and Q :: "'x \<Rightarrow> 'c Supervisor \<Rightarrow> bool"
    by (auto simp: ensures_def abandon_verifier_def abandon_def exec_simps)
  have judged: "ensures (\<lambda>s. case status of None \<Rightarrow> supervised G c0 pid completion s
        | Some code \<Rightarrow> talking G c0 {} (su_client s) \<and>
            (\<forall>verdict. completion = Some verdict \<longrightarrow> cl_conversation (su_client s) = VerifierCompleted verdict) \<and>
            cp_pid (su_child s) = -1 \<and> cp_events (su_child s) = [Reaped pid (Some code)])
      (case status of
         Some code \<Rightarrow> exec_bind (exec_lift (exit_verdict code completion)) (\<lambda>verdict. exec_return (Some verdict, completion))
       | None \<Rightarrow>
           exec_bind (with_client (client_ask (ve_clock (pe_link env)))) (\<lambda>time.
             if (if n = 0 then max deadline time else time) \<ge> deadline then abandon_verifier env fd UserActionTimedOut
             else exec_return (None, completion)))
      (\<lambda>r s. case fst r of None \<Rightarrow> supervised G c0 pid (snd r) s | Some verdict \<Rightarrow> concluded G c0 pid verdict s)"
    for status completion
  proof (cases status)
    case None
    then show ?thesis
      by (simp only: option.simps, intro ensures_bind [OF kept [OF ask_talking stays(1)]] ensures_if abandons) (auto intro: ensures_return)
  next
    case (Some code)
    then show ?thesis
      by (auto simp: ensures_def exec_simps concluded_def exit_verdict_def split: option.splits if_splits)
  qed
  show ?thesis unfolding verifier_round_def
    by (rule ensures_bind [OF drained], rule ensures_bind [OF kept [OF ask_talking stays(1)]], assumption, rule ensures_if,
        rule abandons, rule ensures_bind [OF undisturbed], rule ensures_if, rule abandons,
        rule ensures_weaken [OF ensures_bind [OF child_poll_ensures judged]]) simp_all
qed

lemma verifier_loop_concludes:
  "ensures (supervised G c0 pid before) (verifier_loop env cbs fd deadline n before) (concluded G c0 pid)"
proof (induction n arbitrary: before)
  case 0
  show ?case
    by (simp, rule ensures_bind [OF verifier_round_concludes])
      (auto split: option.split prod.split intro: ensures_return ensures_intros)
next
  case (Suc n)
  show ?case
    by (simp, rule ensures_bind [OF verifier_round_concludes])
      (auto split: option.split prod.split intro: ensures_return Suc)
qed

text \<open>
  A verifier program that yields a verdict: a whole conversation, ended by the verifier with this
  verdict, and an exit of its own with a status that agrees with it.
\<close>

lemma program_verdict:
  assumes run: "run_cancellable_verifier_program env path arguments uid session timeout cbs s = (Inr verdict, s')"
    and "su_client s = new_client c0"
  shows "concluded G c0 (pe_pid env) verdict s'"
proof -
  let ?T = "\<lambda>s. talking G c0 {} (su_client s)"
  have client: "ensures ?T (with_client m) (\<lambda>_. ?T)" if "ensures (talking G c0 {}) m (\<lambda>_. talking G c0 {})"
    for m :: "('c Client, 'x) exec"
    using with_client_ensures [OF that, of "\<lambda>_. True"] by simp
  have flag: "ensures ?T (with_client m) (\<lambda>_. ?T)" if "ensures (talking G c0 {}) m (\<lambda>_. talking G c0 {})"
    for m :: "('c Client, bool) exec"
    using with_client_ensures [OF that, of "\<lambda>_. True"] by simp
  have undisturbed: "ensures ?T (with_client (client_cancelled cbs)) (\<lambda>gone s. \<not> gone \<longrightarrow> ?T s)"
    using with_client_ensures [OF cancelled_talking, of c0 "{}" "\<lambda>_. True"] by simp
  have stays: "ensures (\<lambda>s. \<not> gone \<longrightarrow> ?T s) (exec_guard (\<not> gone) e) (\<lambda>_. ?T)" for gone e
    by (rule ensuresI) (simp add: exec_simps)
  have plain: "ensures ?T (exec_guard ok e) (\<lambda>_. ?T)" "ensures ?T (exec_lift r) (\<lambda>_. ?T)" for ok e and r :: "'y result"
    by (rule ensuresI, simp add: exec_simps)+
  have point: "ensures ?T (exec_lift r) (\<lambda>_. ?T)" for r :: "unit result" by (rule ensuresI) (simp add: exec_simps)
  have checked: "ensures ?T (check_program env cbs path timeout) (\<lambda>_. ?T)"
    unfolding check_program_def
    by (intro ensures_bind [OF flag [OF ask_talking]] ensures_then [OF point] ensures_bind [OF undisturbed]
        ensures_then [OF stays] ensures_then [OF plain(1)] plain(1))
  have body: "ensures (\<lambda>s. ?T s \<and> alive pid (su_child s))
      (exec_then (with_client (client_send (pe_link env) fd (StartVerification uid session)))
      (exec_then (with_client (client_advance from_daemon (StartVerification uid session)))
        (verifier_loop env cbs fd deadline n None))) (concluded G c0 pid)" for pid fd deadline n
    by (rule ensures_then [OF with_client_ensures [OF send_exchanged]], simp,
        rule ensures_then [OF with_client_ensures [OF advance_talking]],
        rule ensures_weaken [OF verifier_loop_concludes]) (auto simp: supervised_def)
  have scope: "ensures ?T (child_scope ce pid m) (concluded G c0 pid)"
    if "ensures (\<lambda>s. ?T s \<and> alive pid (su_child s)) m (concluded G c0 pid)" for ce pid m
  proof (rule ensuresI)
    fix s x s'
    assume "?T s" "child_scope ce pid m s = (Inr x, s')"
    then obtain s1 where s1: "m (s\<lparr>su_child := new_child pid\<rparr>) = (Inr x, s1)"
      "s' = snd (with_child (terminate_and_reap ce) s1)"
      by (auto simp: child_scope_def split: prod.splits)
    have "?T (s\<lparr>su_child := new_child pid\<rparr>) \<and> alive pid (su_child (s\<lparr>su_child := new_child pid\<rparr>))"
      using \<open>?T s\<close> by (simp add: alive_def new_child_def)
    from ensuresD [OF that this s1(1)] have "concluded G c0 pid x s1" .
    moreover from this have "s' = s1" unfolding s1(2)
      by (simp add: concluded_def with_child_def terminate_and_reap_def exec_bind_def exec_prim)
    ultimately show "concluded G c0 pid x s'" by simp
  qed
  have "ensures ?T (run_cancellable_verifier_program env path arguments uid session timeout cbs)
      (concluded G c0 (pe_pid env))"
    unfolding run_cancellable_verifier_program_def
    by (rule ensures_then [OF checked], rule ensures_then [OF plain(1)], rule ensures_bind [OF client [OF ask_talking]])
      (auto intro!: ensures_lift_bind scope [OF body] dest!: spawn_program_pid)
  from ensuresD [OF this _ run] assms(2) origin_start show ?thesis
    by (simp add: talking_def secrets_sent_def new_client_def)
qed

end

text \<open>The supervisor starts no verification but the one it was asked for.\<close>

definition program_starts :: "u32 \<Rightarrow> string \<Rightarrow> 'c Supervisor \<Rightarrow> 'c Supervisor \<Rightarrow> bool" where
  "program_starts uid session s s' \<longleftrightarrow> starts_only uid session (su_client s) (su_client s')"

lemma program_starts_preorder: "reflp (program_starts uid session)" "transp (program_starts uid session)"
proof -
  show "reflp (program_starts uid session)"
    using starts_only_refl by (auto simp: reflp_def program_starts_def)
  show "transp (program_starts uid session)"
    unfolding transp_def program_starts_def by (blast intro: transpD [OF starts_only_trans])
qed

lemmas program_keeps = keeps_prim [OF program_starts_preorder(1)] keeps_bind [OF program_starts_preorder(2)]
  keeps_then [OF program_starts_preorder(2)] keeps_if keeps_option keeps_prod

lemma sides_start:
  "keeps (starts_only uid session) m \<Longrightarrow> keeps (program_starts uid session) (with_client m)"
  "keeps (program_starts uid session) (with_child k)"
  "keeps (program_starts uid session) body \<Longrightarrow> keeps (program_starts uid session) (child_scope ce pid body)"
  by (fastforce simp: keeps_def program_starts_def with_client_def with_child_def child_scope_def starts_only_def
      split: prod.splits)+

lemma receive_message_starts: "keeps (starts_only uid session) (receive_message env cbs fd)"
proof -
  have "keeps (starts_only uid session)
      (case message of
         VerificationStatus kind display \<Rightarrow>
           exec_then (case cb_status cbs of None \<Rightarrow> exec_return () | Some callback \<Rightarrow> on_channel (callback kind display))
             (exec_return None)
       | SecretRequired prompt \<Rightarrow>
           (case cb_secret cbs of
              None \<Rightarrow> exec_throw (RuntimeError ''bad_function_call'')
            | Some callback \<Rightarrow>
                exec_bind (client_ask (ve_clock env)) (\<lambda>now.
                exec_bind (on_channel (callback now prompt)) (\<lambda>secret.
                exec_then (client_send env fd (SecretResponse secret))
                (exec_then (client_advance from_daemon (SecretResponse secret)) (exec_return None)))))
       | VerificationComplete verdict \<Rightarrow> exec_return (Some verdict)
       | _ \<Rightarrow> exec_throw (VerifierConversationError ''verifier sent a daemon-only message''))" for message
    by (cases message) (auto intro!: starts_keeps access_starts exchange_starts)
  then show ?thesis unfolding receive_message_def
    by (intro starts_keeps access_starts exchange_starts)
qed

lemma drain_starts: "keeps (starts_only uid session) (drain env cbs fd m)"
  by (induction m)
    (auto intro!: starts_keeps access_starts receive_message_starts split: PollOutcome.split)

lemma verifier_round_starts: "keeps (program_starts uid session) (verifier_round env cbs fd deadline n before)"
  unfolding verifier_round_def abandon_verifier_def abandon_def
  by (intro program_keeps sides_start access_starts round_starts starts_keeps drain_starts)

lemma program_run_starts:
  "keeps (program_starts uid session) (run_cancellable_verifier_program env path arguments uid session timeout cbs)"
proof -
  have loop: "keeps (program_starts uid session) (verifier_loop env cbs fd deadline n before)" for fd deadline n before
    by (induction n arbitrary: before) (auto intro!: program_keeps verifier_round_starts)
  show ?thesis unfolding run_cancellable_verifier_program_def check_program_def
    by (intro program_keeps sides_start access_starts round_starts exchange_starts loop) simp
qed

section \<open>Properties\<close>

definition idle_callbacks :: "unit Callbacks" where
  "idle_callbacks = \<lparr>cb_status = None, cb_secret = None, cb_cancelled = None\<rparr>"

text \<open>A child that does not end by itself within its time.\<close>

definition stubborn_env :: ProcessEnv where
  "stubborn_env = \<lparr>pe_link = \<lparr>ve_stop = \<lambda>_. False, ve_clock = \<lambda>_. 0, ve_rounds = 1, ve_socket = None, ve_connect_ok = False,
       ve_probe = \<lparr>pr_getfd = 1, pr_setfd_ok = True, pr_type = None, pr_local = None, pr_peer = Peer_unknown\<rparr>,
       ve_send = \<lambda>_. Send_failed, ve_poll = \<lambda>_ _. Poll_timeout, ve_receive = \<lambda>_. Receive_failed\<rparr>,
     pe_socketpair = None, pe_duplicate = \<lambda>_. -1, pe_spawn = \<lambda>_. 0, pe_pid = 77,
     pe_child = \<lparr>ce_waitpid = \<lambda>_. Wait_running, ce_passes = \<lambda>_. 1\<rparr>, pe_burst = \<lambda>_. 0\<rparr>"

definition stubborn_start :: "unit Supervisor" where
  "stubborn_start = \<lparr>su_client = new_client (), su_child = new_child 0\<rparr>"

lemma stubborn_run:
  "fst (run_cancellable_program stubborn_env ''/bin/v'' [] 1 idle_callbacks stubborn_start) = Inl UserActionTimedOut"
  "cp_events (su_child (snd (run_cancellable_program stubborn_env ''/bin/v'' [] 1 idle_callbacks stubborn_start))) =
     [Signalled (-77) SIGINT, Signalled (-77) SIGTERM, Signalled (-77) SIGKILL, Reaped 77 None]"
  by code_simp+

text \<open>
  C34.  No child outlives its run.  However a run ends, by a result, a cancellation, a timeout or a
  failure of a system call, its child was reaped (or none was started): before that the process group was
  sent a prefix of SIGINT, SIGTERM, SIGKILL, in this order, and after it nothing is sent to it any more.
\<close>

theorem children_always_reaped:
  assumes "pe_pid env > 0"
  shows "(\<forall>r s'. run_cancellable_program env path arguments timeout cbs s = (r, s') \<longrightarrow>
      su_child s' = su_child s \<or> (cp_pid (su_child s') = -1 \<and> (\<exists>n status. cp_events (su_child s') =
        map (Signalled (- pe_pid env)) (take n [SIGINT, SIGTERM, SIGKILL]) @ [Reaped (pe_pid env) status]))) \<and>
    (\<forall>r s'. run_cancellable_verifier_program env path arguments uid session timeout cbs s = (r, s') \<longrightarrow>
      su_child s' = su_child s \<or> (cp_pid (su_child s') = -1 \<and> (\<exists>n status. cp_events (su_child s') =
        map (Signalled (- pe_pid env)) (take n [SIGINT, SIGTERM, SIGKILL]) @ [Reaped (pe_pid env) status])))"
  using runs_tidy [OF assms, THEN keepsD] unfolding tidy_def reaped_def by blast

theorem children_always_reaped_witness:
  "\<exists>s'. run_cancellable_program stubborn_env ''/bin/v'' [] 1 idle_callbacks stubborn_start = (Inl UserActionTimedOut, s') \<and>
     cp_pid (su_child s') = -1"
proof -
  obtain s' where run: "run_cancellable_program stubborn_env ''/bin/v'' [] 1 idle_callbacks stubborn_start =
      (Inl UserActionTimedOut, s')" using stubborn_run(1) by (metis prod.collapse)
  with stubborn_run(2) have "su_child s' \<noteq> su_child stubborn_start" by (auto simp: stubborn_start_def new_child_def)
  moreover have "pe_pid stubborn_env > 0" by (simp add: stubborn_env_def)
  from children_always_reaped [OF this, of "''/bin/v''" "[]" 1 idle_callbacks stubborn_start] run
  have "su_child s' = su_child stubborn_start \<or> cp_pid (su_child s') = -1" by blast
  ultimately show ?thesis using run by blast
qed

end
