(* ===== verification/Pam_Handler.thy ===== *)
theory Pam_Handler
  imports Verifier_Process
begin

text \<open>
  The process that talks to PAM (\<open>uv/src/auth_handler.cpp\<close>): it takes the start message, lets PAM
  authenticate the user while it relays PAM's prompts over its socket, reports the result and exits
  with PAM's status.  The PAM library is a parameter: its authentication and account checks are
  programs that call the conversation function and go on with its reply.
\<close>

section \<open>PAM\<close>

text \<open>Status codes and message styles of Linux-PAM.\<close>

definition PAM_SUCCESS :: int where "PAM_SUCCESS = 0"
definition PAM_SYSTEM_ERR :: int where "PAM_SYSTEM_ERR = 4"
definition PAM_BUF_ERR :: int where "PAM_BUF_ERR = 5"
definition PAM_PERM_DENIED :: int where "PAM_PERM_DENIED = 6"
definition PAM_AUTH_ERR :: int where "PAM_AUTH_ERR = 7"
definition PAM_CRED_INSUFFICIENT :: int where "PAM_CRED_INSUFFICIENT = 8"
definition PAM_USER_UNKNOWN :: int where "PAM_USER_UNKNOWN = 10"
definition PAM_MAXTRIES :: int where "PAM_MAXTRIES = 11"
definition PAM_NEW_AUTHTOK_REQD :: int where "PAM_NEW_AUTHTOK_REQD = 12"
definition PAM_ACCT_EXPIRED :: int where "PAM_ACCT_EXPIRED = 13"
definition PAM_CONV_ERR :: int where "PAM_CONV_ERR = 19"
definition PAM_PROMPT_ECHO_OFF :: int where "PAM_PROMPT_ECHO_OFF = 1"
definition PAM_PROMPT_ECHO_ON :: int where "PAM_PROMPT_ECHO_ON = 2"
definition PAM_ERROR_MSG :: int where "PAM_ERROR_MSG = 3"
definition PAM_TEXT_INFO :: int where "PAM_TEXT_INFO = 4"
definition PAM_MAX_NUM_MSG :: int where "PAM_MAX_NUM_MSG = 32"

lemmas pam_codes = PAM_SUCCESS_def PAM_SYSTEM_ERR_def PAM_BUF_ERR_def PAM_PERM_DENIED_def PAM_AUTH_ERR_def
  PAM_CRED_INSUFFICIENT_def PAM_USER_UNKNOWN_def PAM_MAXTRIES_def PAM_NEW_AUTHTOK_REQD_def PAM_ACCT_EXPIRED_def
  PAM_CONV_ERR_def PAM_PROMPT_ECHO_OFF_def PAM_PROMPT_ECHO_ON_def PAM_ERROR_MSG_def PAM_TEXT_INFO_def PAM_MAX_NUM_MSG_def

record PamMessage =
  pm_style :: int
  pm_msg :: "string option"

text \<open>
  A call of the conversation function: the count, the messages (with null pointers as \<open>None\<close>) and whether
  there is a place for the reply; and its reply, a status and on success a response for each message.
\<close>

record ConversationCall =
  cc_count :: int
  cc_messages :: "PamMessage option list option"
  cc_response :: bool

type_synonym ConversationReply = "int \<times> bytes option list option"

datatype 'h PamProgram =
    Pam_return int 'h
  | Pam_converse ConversationCall "ConversationReply \<Rightarrow> 'h PamProgram"

text \<open>The functions of the library on a handle.\<close>

record 'h PamLibrary =
  pam_start_confdir :: "string \<Rightarrow> string \<Rightarrow> string \<Rightarrow> int \<times> 'h option"
  pam_authenticate :: "'h \<Rightarrow> 'h PamProgram"
  pam_acct_mgmt :: "'h \<Rightarrow> 'h PamProgram"
  pam_end :: "'h \<Rightarrow> int \<Rightarrow> int"

section \<open>The conversation\<close>

text \<open>The environment: the socket, allocations, and what the process knows of its parent.\<close>

record HandlerEnv =
  he_link :: VerifierEnv
  he_calloc :: "nat \<Rightarrow> bool"
  he_prctl_ok :: bool
  he_getppid :: int

definition send_verifier_message :: "HandlerEnv \<Rightarrow> int \<Rightarrow> VerifierMessage \<Rightarrow> ('c Client, unit) exec" where
  "send_verifier_message env fd message =
     exec_then (link_send (he_link env) fd from_pam_verifier message) (client_advance from_pam_verifier message)"

text \<open>The status and the response it leaves in the reply.\<close>

definition read_secret_response :: "HandlerEnv \<Rightarrow> int \<Rightarrow> string \<Rightarrow> ('c Client, int \<times> bytes option) exec" where
  "read_secret_response env fd prompt =
     exec_then (send_verifier_message env fd (SecretRequired prompt))
     (exec_bind (link_receive (he_link env) fd from_daemon) (\<lambda>message.
     exec_then (client_advance from_daemon message)
       (case message of
          SecretResponse secret \<Rightarrow>
            exec_bind (client_ask (he_calloc env)) (\<lambda>allocated.
              exec_return (if allocated then (PAM_SUCCESS, Some secret) else (PAM_BUF_ERR, None)))
        | _ \<Rightarrow> exec_return (PAM_CONV_ERR, None))))"

definition converse_one :: "HandlerEnv \<Rightarrow> int \<Rightarrow> PamMessage \<Rightarrow> ('c Client, int \<times> bytes option) exec" where
  "converse_one env fd message =
     (let display = (case pm_msg message of None \<Rightarrow> [] | Some msg \<Rightarrow> msg) in
      if pm_style message = PAM_PROMPT_ECHO_OFF then read_secret_response env fd display
      else if pm_style message = PAM_PROMPT_ECHO_ON then exec_return (PAM_CONV_ERR, None)
      else if pm_style message = PAM_TEXT_INFO then
        exec_then (send_verifier_message env fd (VerificationStatus 1 display)) (exec_return (PAM_SUCCESS, None))
      else if pm_style message = PAM_ERROR_MSG then
        exec_then (send_verifier_message env fd (VerificationStatus 2 display)) (exec_return (PAM_SUCCESS, None))
      else exec_return (PAM_CONV_ERR, None))"

text \<open>The loop over the messages, with the responses so far.\<close>

fun converse_loop :: "HandlerEnv \<Rightarrow> int \<Rightarrow> bytes option list \<Rightarrow> PamMessage option list \<Rightarrow> ('c Client, ConversationReply) exec" where
  "converse_loop env fd replies [] = exec_return (PAM_SUCCESS, Some replies)"
| "converse_loop env fd replies (None # rest) = exec_return (PAM_CONV_ERR, None)"
| "converse_loop env fd replies (Some message # rest) =
     exec_bind (converse_one env fd message) (\<lambda>(rc, reply).
       if rc \<noteq> PAM_SUCCESS then exec_return (rc, None)
       else converse_loop env fd (replies @ [reply]) rest)"

text \<open>The function itself never throws.\<close>

definition conversation :: "HandlerEnv \<Rightarrow> int \<Rightarrow> ConversationCall \<Rightarrow> ('c Client, ConversationReply) exec" where
  "conversation env fd call =
     (if cc_count call \<le> 0 \<or> cc_count call > PAM_MAX_NUM_MSG \<or> cc_messages call = None \<or> \<not> cc_response call then
        exec_return (PAM_CONV_ERR, None)
      else
        exec_bind (client_ask (he_calloc env)) (\<lambda>allocated.
          if \<not> allocated then exec_return (PAM_BUF_ERR, None)
          else exec_catch (converse_loop env fd [] (take (nat (cc_count call)) (the (cc_messages call))))
            (\<lambda>_. exec_return (PAM_CONV_ERR, None))))"

text \<open>PAM runs with the conversation as its callback.\<close>

primrec run_pam :: "HandlerEnv \<Rightarrow> int \<Rightarrow> 'h PamProgram \<Rightarrow> ('c Client, int \<times> 'h) exec" where
  "run_pam env fd (Pam_return rc handle) = exec_return (rc, handle)"
| "run_pam env fd (Pam_converse call continue) =
     exec_bind (conversation env fd call) (\<lambda>reply. run_pam env fd (continue reply))"

section \<open>Authentication\<close>

definition session_close :: "'h PamLibrary \<Rightarrow> 'h option \<Rightarrow> int \<Rightarrow> int" where
  "session_close pam handle status = (case handle of None \<Rightarrow> PAM_SUCCESS | Some h \<Rightarrow> pam_end pam h status)"

text \<open>A handle that \<open>pam_start_confdir\<close> did not set is never passed on, because its status is then an error.\<close>

definition authenticate :: "'h PamLibrary \<Rightarrow> HandlerEnv \<Rightarrow> int \<Rightarrow> string \<Rightarrow> string \<Rightarrow> string \<Rightarrow> ('c Client, int) exec" where
  "authenticate pam env fd username process_name confdir =
     (case pam_start_confdir pam process_name username confdir of (rc, handle) \<Rightarrow>
        exec_bind
          (case handle of
             Some h \<Rightarrow>
               if rc = PAM_SUCCESS then
                 exec_bind (run_pam env fd (pam_authenticate pam h)) (\<lambda>(rc, h).
                   if rc = PAM_SUCCESS then
                     exec_bind (run_pam env fd (pam_acct_mgmt pam h)) (\<lambda>(rc, h). exec_return (rc, Some h))
                   else exec_return (rc, Some h))
               else exec_return (rc, Some h)
           | None \<Rightarrow> exec_return (rc, None)) (\<lambda>(rc, handle).
          let end_rc = session_close pam handle rc in
          exec_return (if rc = PAM_SUCCESS \<and> end_rc \<noteq> PAM_SUCCESS then end_rc else rc)))"

definition verification_result_from_pam_status :: "int \<Rightarrow> VerificationResult" where
  "verification_result_from_pam_status status =
     (if status = PAM_SUCCESS then verification_success
      else if status \<in> {PAM_PERM_DENIED, PAM_AUTH_ERR, PAM_CRED_INSUFFICIENT, PAM_USER_UNKNOWN, PAM_MAXTRIES,
        PAM_NEW_AUTHTOK_REQD, PAM_ACCT_EXPIRED} then verification_denied
      else verification_error_result)"

text \<open>\<open>std::from_chars\<close> for a process identifier, and that the whole text was read.\<close>

definition digit_value :: "char \<Rightarrow> int" where
  "digit_value c = int (of_char c) - 48"

definition decimal_value :: "string \<Rightarrow> int option" where
  "decimal_value digits =
     (if digits = [] \<or> \<not> list_all (\<lambda>c. 0 \<le> digit_value c \<and> digit_value c \<le> 9) digits then None
      else Some (foldl (\<lambda>n c. 10 * n + digit_value c) 0 digits))"

definition parse_pid :: "string \<Rightarrow> int option" where
  "parse_pid text0 =
     (case (case text0 of CHR ''-'' # digits \<Rightarrow> map_option uminus (decimal_value digits) | _ \<Rightarrow> decimal_value text0) of
        None \<Rightarrow> None
      | Some n \<Rightarrow> if - (2 ^ 31) \<le> n \<and> n < 2 ^ 31 then Some n else None)"

text \<open>The body, which may throw, and the function, which does not.\<close>

definition auth_handler_body :: "'h PamLibrary \<Rightarrow> HandlerEnv \<Rightarrow> string list \<Rightarrow> int \<Rightarrow> ('c Client, int) exec" where
  "auth_handler_body pam env arguments expected_parent =
     exec_then (exec_lift (arm_parent_death_signal (he_prctl_ok env) (he_getppid env) expected_parent))
     (exec_bind (exec_lift (verifier_socket VERIFIER_SOCKET_FD (ve_probe (he_link env)))) (\<lambda>fd.
     exec_bind (link_receive (he_link env) fd from_daemon) (\<lambda>start.
     exec_then (client_advance from_daemon start)
     (exec_bind (authenticate pam env fd (arguments ! 0) (arguments ! 1) (arguments ! 2)) (\<lambda>result.
     exec_then (send_verifier_message env fd (VerificationComplete (verification_result_from_pam_status result)))
       (exec_return result))))))"

definition run_vauth_auth_handler :: "'h PamLibrary \<Rightarrow> HandlerEnv \<Rightarrow> string list \<Rightarrow> 'c Client \<Rightarrow> int \<times> 'c Client" where
  "run_vauth_auth_handler pam env arguments s =
     (if length arguments \<noteq> 4 then (PAM_SYSTEM_ERR, s)
      else case parse_pid (arguments ! 3) of
        None \<Rightarrow> (PAM_SYSTEM_ERR, s)
      | Some expected_parent \<Rightarrow>
          (case auth_handler_body pam env arguments expected_parent s of
             (Inl _, s') \<Rightarrow> (PAM_SYSTEM_ERR, s')
           | (Inr result, s') \<Rightarrow> (result, s')))"

section \<open>Lemmas\<close>

subsection \<open>What the conversation does\<close>

text \<open>The messages exchanged for one message of PAM that was answered.\<close>

fun exchange :: "PamMessage option \<Rightarrow> bytes option \<Rightarrow> (VerifierMessageSender \<times> VerifierMessage) list" where
  "exchange None reply = []"
| "exchange (Some message) reply =
     (let display = (case pm_msg message of None \<Rightarrow> [] | Some msg \<Rightarrow> msg) in
      case reply of
        Some secret \<Rightarrow> [(from_pam_verifier, SecretRequired display), (from_daemon, SecretResponse secret)]
      | None \<Rightarrow> [(from_pam_verifier, VerificationStatus (if pm_style message = PAM_TEXT_INFO then 1 else 2) display)])"

text \<open>A response belongs to a hidden prompt, and the other messages that are answered are texts.\<close>

fun answerable :: "PamMessage option \<Rightarrow> bytes option \<Rightarrow> bool" where
  "answerable None reply \<longleftrightarrow> False"
| "answerable (Some message) (Some secret) \<longleftrightarrow> pm_style message = PAM_PROMPT_ECHO_OFF"
| "answerable (Some message) None \<longleftrightarrow> pm_style message = PAM_TEXT_INFO \<or> pm_style message = PAM_ERROR_MSG"

lemma link_traffic:
  "link_send env fd sender message s = (Inr u, s') \<Longrightarrow> cl_traffic s' = cl_traffic s @ [(sender, message)]"
  "link_receive env fd sender s = (Inr message', s') \<Longrightarrow> cl_traffic s' = cl_traffic s @ [(sender, message')]"
  "client_advance sender message s = (r, s') \<Longrightarrow> cl_traffic s' = cl_traffic s"
  "client_ask answer s = (r', s') \<Longrightarrow> cl_traffic s' = cl_traffic s"
  by (auto simp: link_send_def link_receive_def client_advance_def client_ask_def exec_simps exec_bind_def
      split: sum.splits prod.splits)

lemma send_traffic:
  "send_verifier_message env fd message s = (Inr u, s') \<Longrightarrow> cl_traffic s' = cl_traffic s @ [(from_pam_verifier, message)]"
  by (auto simp: send_verifier_message_def exec_simps dest!: link_traffic)

lemma read_secret_exchange:
  assumes "read_secret_response env fd prompt s = (Inr (PAM_SUCCESS, reply), s')"
  shows "\<exists>secret. reply = Some secret \<and> cl_traffic s' = cl_traffic s @
    [(from_pam_verifier, SecretRequired prompt), (from_daemon, SecretResponse secret)]"
proof -
  from assms obtain u s1 message s2 v s3 where
    sent: "send_verifier_message env fd (SecretRequired prompt) s = (Inr u, s1)"
    and got: "link_receive (he_link env) fd from_daemon s1 = (Inr message, s2)"
    and adv: "client_advance from_daemon message s2 = (Inr v, s3)"
    and rest: "(case message of
          SecretResponse secret \<Rightarrow>
            exec_bind (client_ask (he_calloc env)) (\<lambda>allocated.
              exec_return (if allocated then (PAM_SUCCESS, Some secret) else (PAM_BUF_ERR, None)))
        | _ \<Rightarrow> exec_return (PAM_CONV_ERR, None)) s3 = (Inr (PAM_SUCCESS, reply), s')"
    unfolding read_secret_response_def exec_then_Inr exec_bind_Inr by blast
  from rest obtain secret where "message = SecretResponse secret" "reply = Some secret" "cl_traffic s' = cl_traffic s3"
    by (cases message) (auto simp: exec_simps pam_codes dest!: link_traffic(4) split: if_splits)
  with send_traffic [OF sent] link_traffic(2) [OF got] link_traffic(3) [OF adv] show ?thesis by simp
qed

lemma converse_one_exchange:
  assumes "converse_one env fd message s = (Inr (PAM_SUCCESS, reply), s')"
  shows "answerable (Some message) reply" "cl_traffic s' = cl_traffic s @ exchange (Some message) reply"
  using assms
  by (auto simp: converse_one_def exec_simps Let_def pam_codes dest!: send_traffic
      read_secret_exchange [unfolded pam_codes] split: if_splits)

lemma converse_loop_exchange:
  assumes "converse_loop env fd replies messages s = (Inr (rc, answer), s')"
  shows "(rc = PAM_SUCCESS \<longleftrightarrow> answer \<noteq> None) \<and>
    (\<forall>all. answer = Some all \<longrightarrow> (\<exists>new. all = replies @ new \<and> list_all2 answerable messages new \<and>
       cl_traffic s' = cl_traffic s @ concat (map2 exchange messages new)))"
  using assms
proof (induction env fd replies messages arbitrary: s rule: converse_loop.induct)
  case (1 env fd replies)
  then show ?case by (auto simp: exec_prim)
next
  case (2 env fd replies rest)
  then show ?case by (auto simp: exec_prim pam_codes)
next
  case (3 env fd replies message rest)
  from 3(2) obtain c reply s1 where one: "converse_one env fd message s = (Inr (c, reply), s1)"
    and go: "(if c \<noteq> PAM_SUCCESS then exec_return (c, None) else converse_loop env fd (replies @ [reply]) rest) s1 =
      (Inr (rc, answer), s')"
    by (auto simp: exec_simps)
  show ?case
  proof (cases "c = PAM_SUCCESS")
    case True
    with go have "converse_loop env fd (replies @ [reply]) rest s1 = (Inr (rc, answer), s')" by simp
    from 3(1) [OF _ this, of c] True have ih: "(rc = PAM_SUCCESS) = (answer \<noteq> None)"
      "\<And>all. answer = Some all \<Longrightarrow> \<exists>new. all = (replies @ [reply]) @ new \<and> list_all2 answerable rest new \<and>
        cl_traffic s' = cl_traffic s1 @ concat (map2 exchange rest new)" by auto
    note first = converse_one_exchange [OF one [unfolded True]]
    show ?thesis
    proof (intro conjI allI impI)
      fix all
      assume "answer = Some all"
      from ih(2) [OF this] obtain new where new: "all = (replies @ [reply]) @ new" "list_all2 answerable rest new"
        "cl_traffic s' = cl_traffic s1 @ concat (map2 exchange rest new)" by blast
      with first show "\<exists>new. all = replies @ new \<and> list_all2 answerable (Some message # rest) new \<and>
          cl_traffic s' = cl_traffic s @ concat (map2 exchange (Some message # rest) new)"
        by (intro exI [of _ "reply # new"]) simp
    qed (use ih(1) in simp)
  next
    case False
    with go show ?thesis by (auto simp: exec_prim)
  qed
qed

subsection \<open>When the result is sent\<close>

text \<open>Steps that neither send a result nor complete the conversation.\<close>

definition quiet :: "'c Client \<Rightarrow> 'c Client \<Rightarrow> bool" where
  "quiet s s' \<longleftrightarrow> (\<forall>r. (from_pam_verifier, VerificationComplete r) \<in> set (cl_traffic s') \<longrightarrow>
       (from_pam_verifier, VerificationComplete r) \<in> set (cl_traffic s)) \<and>
     (\<forall>r. cl_conversation s' = VerifierCompleted r \<longrightarrow> cl_conversation s = VerifierCompleted r)"

lemma quiet_preorder: "reflp quiet" "transp quiet"
  unfolding reflp_def transp_def quiet_def by blast+

lemmas quiet_keeps = keeps_prim [OF quiet_preorder(1)] keeps_bind [OF quiet_preorder(2)]
  keeps_then [OF quiet_preorder(2)] keeps_catch [OF quiet_preorder(2)] keeps_if keeps_option keeps_prod

lemma advance_quiet:
  assumes "sender = from_daemon \<or> (\<forall>r. message \<noteq> VerificationComplete r)"
  shows "keeps quiet (client_advance sender message)"
  unfolding keeps_def
proof (intro allI impI)
  fix s r s'
  assume run: "client_advance sender message s = (r, s')"
  show "quiet s s'"
  proof (cases "advance_verifier_conversation (cl_conversation s) sender message")
    case (Inl e)
    with run show ?thesis by (auto simp: client_advance_def exec_bind_def exec_prim quiet_def)
  next
    case (Inr state)
    with run have s': "s' = s\<lparr>cl_conversation := state\<rparr>" by (auto simp: client_advance_def exec_bind_def exec_prim)
    from Inr assms have "state \<noteq> VerifierCompleted r" for r
      by (auto simp: advance_verifier_conversation_def bind_result_eq_Inr invalid_conversation_def
          split: VerifierConversationState.splits VerifierMessage.splits VerifierMessageSender.splits if_splits)
    with s' show ?thesis by (simp add: quiet_def)
  qed
qed

lemma link_quiet:
  "keeps quiet (client_ask answer)" "keeps quiet (link_receive env fd from_daemon)"
  "(\<And>r. message \<noteq> VerificationComplete r) \<Longrightarrow> keeps quiet (link_send env fd from_pam_verifier message)"
proof -
  show ask: "keeps quiet (client_ask answer)" for answer :: "nat \<Rightarrow> 'x" by (auto simp: keeps_def client_ask_def quiet_def)
  have ask': "keeps quiet (client_ask answer)" for answer :: "nat \<Rightarrow> ReceiveOutcome" by (auto simp: keeps_def client_ask_def quiet_def)
  have ask'': "keeps quiet (client_ask answer)" for answer :: "nat \<Rightarrow> SendOutcome" by (auto simp: keeps_def client_ask_def quiet_def)
  show "keeps quiet (link_receive env fd from_daemon)" unfolding link_receive_def
    by (intro quiet_keeps ask') (auto simp: keeps_modify quiet_def)
  show "keeps quiet (link_send env fd from_pam_verifier message)" if "\<And>r. message \<noteq> VerificationComplete r"
    unfolding link_send_def by (intro quiet_keeps ask'') (auto simp: keeps_modify quiet_def that [symmetric])
qed

lemma message_quiet: "(\<And>r. message \<noteq> VerificationComplete r) \<Longrightarrow> keeps quiet (send_verifier_message env fd message)"
  unfolding send_verifier_message_def by (intro quiet_keeps link_quiet advance_quiet) auto

lemma conversation_quiet: "keeps quiet (conversation env fd call)"
proof -
  have secret: "keeps quiet (read_secret_response env fd prompt)" for prompt
  proof -
    have "keeps quiet (case message of
          SecretResponse secret \<Rightarrow> exec_bind (client_ask (he_calloc env)) (\<lambda>allocated.
            exec_return (if allocated then (PAM_SUCCESS, Some secret) else (PAM_BUF_ERR, None)))
        | _ \<Rightarrow> exec_return (PAM_CONV_ERR, None))" for message
      by (cases message) (auto intro!: quiet_keeps link_quiet)
    then show ?thesis unfolding read_secret_response_def
      by (intro quiet_keeps link_quiet message_quiet advance_quiet) auto
  qed
  have one: "keeps quiet (converse_one env fd message)" for message
    unfolding converse_one_def Let_def by (intro quiet_keeps secret message_quiet) simp_all
  have loop: "keeps quiet (converse_loop env fd replies messages)" for replies messages
  proof (induction messages arbitrary: replies)
    case (Cons m messages)
    show ?case by (cases m) (auto intro!: quiet_keeps one Cons)
  qed (auto intro: quiet_keeps)
  show ?thesis unfolding conversation_def by (intro quiet_keeps link_quiet loop)
qed

lemma run_pam_quiet: "keeps quiet (run_pam env fd program)"
  by (induction program) (auto intro!: quiet_keeps conversation_quiet)

lemma authenticate_quiet: "keeps quiet (authenticate pam env fd username process_name confdir)"
  unfolding authenticate_def Let_def
  by (auto split: prod.split option.split intro!: quiet_keeps run_pam_quiet)

text \<open>Neither PAM nor the conversation throws.\<close>

lemma run_pam_returns: "\<exists>rc h s'. run_pam env fd program s = (Inr (rc, h), s')"
proof (induction program arbitrary: s)
  case (Pam_converse call continue)
  have "\<exists>reply s'. conversation env fd call s = (Inr reply, s')"
    by (auto simp: conversation_def exec_bind_def exec_catch_def client_ask_def exec_prim split: prod.splits sum.splits)
  with Pam_converse show ?case by (fastforce simp: exec_bind_def)
qed (simp add: exec_prim)

text \<open>PAM accepts a user: the session starts, both checks and the end of the session succeed.\<close>

definition pam_accepts ::
    "'h PamLibrary \<Rightarrow> HandlerEnv \<Rightarrow> int \<Rightarrow> string \<Rightarrow> string \<Rightarrow> string \<Rightarrow> 'c Client \<Rightarrow> 'c Client \<Rightarrow> bool" where
  "pam_accepts pam env fd username process_name confdir s s' \<longleftrightarrow>
     (\<exists>h h1 h2 s1. pam_start_confdir pam process_name username confdir = (PAM_SUCCESS, Some h) \<and>
        run_pam env fd (pam_authenticate pam h) s = (Inr (PAM_SUCCESS, h1), s1) \<and>
        run_pam env fd (pam_acct_mgmt pam h1) s1 = (Inr (PAM_SUCCESS, h2), s') \<and>
        pam_end pam h2 PAM_SUCCESS = PAM_SUCCESS)"

lemma authenticate_accepts:
  assumes "\<And>service user dir. pam_start_confdir pam service user dir \<noteq> (PAM_SUCCESS, None)"
  shows "authenticate pam env fd username process_name confdir s = (Inr PAM_SUCCESS, s') \<longleftrightarrow>
    pam_accepts pam env fd username process_name confdir s s'"
proof -
  obtain rc handle where start: "pam_start_confdir pam process_name username confdir = (rc, handle)" by fastforce
  show ?thesis
  proof (cases "rc = PAM_SUCCESS")
    case True
    with assms start obtain h where h: "handle = Some h" by (cases handle) (metis, blast)
    obtain rc1 h1 s1 where r1: "run_pam env fd (pam_authenticate pam h) s = (Inr (rc1, h1), s1)"
      using run_pam_returns [of env fd "pam_authenticate pam h" s] by blast
    obtain rc2 h2 s2 where r2: "run_pam env fd (pam_acct_mgmt pam h1) s1 = (Inr (rc2, h2), s2)"
      using run_pam_returns [of env fd "pam_acct_mgmt pam h1" s1] by blast
    show ?thesis
      using start True h r1 r2
      by (auto simp: authenticate_def pam_accepts_def exec_bind_def exec_prim session_close_def Let_def)
  next
    case False
    with start show ?thesis
      by (auto simp: authenticate_def pam_accepts_def exec_bind_def exec_prim session_close_def Let_def split: option.splits)
  qed
qed

lemma handler_body_cases:
  assumes "auth_handler_body pam env arguments parent s = (r, s')"
  obtains (early) e where "r = Inl e" "quiet s s'"
  | (authenticated) result s1 s2 fd where "quiet s s1" "quiet s s2"
      "authenticate pam env fd (arguments ! 0) (arguments ! 1) (arguments ! 2) s1 = (Inr result, s2)"
      "exec_then (send_verifier_message env fd (VerificationComplete (verification_result_from_pam_status result)))
         (exec_return result) s2 = (r, s')"
proof -
  let ?receive = "\<lambda>fd. exec_bind (link_receive (he_link env) fd from_daemon) (\<lambda>start. client_advance from_daemon start)"
  have receive: "keeps quiet (?receive fd)" for fd by (intro quiet_keeps link_quiet advance_quiet) simp
  from assms have run: "exec_then (exec_lift (arm_parent_death_signal (he_prctl_ok env) (he_getppid env) parent))
     (exec_bind (exec_lift (verifier_socket VERIFIER_SOCKET_FD (ve_probe (he_link env)))) (\<lambda>fd.
       exec_then (?receive fd)
       (exec_bind (authenticate pam env fd (arguments ! 0) (arguments ! 1) (arguments ! 2)) (\<lambda>result.
       exec_then (send_verifier_message env fd (VerificationComplete (verification_result_from_pam_status result)))
         (exec_return result))))) s = (r, s')"
    by (auto simp: auth_handler_body_def exec_then_def exec_bind_def exec_prim split: sum.splits prod.splits)
  have same: "quiet s s" by (simp add: quiet_def)
  from run show thesis unfolding exec_then_def
  proof (cases rule: exec_bind_cases)
    case (threw e)
    with early same show thesis by (auto simp: exec_prim)
  next
    case (went_on u s0)
    then have "s0 = s" by (simp add: exec_prim)
    from went_on(2) [unfolded this] show thesis
    proof (cases rule: exec_bind_cases)
      case (threw e)
      with early same show thesis by (auto simp: exec_prim)
    next
      case (went_on fd s0)
      then have "s0 = s" by (simp add: exec_prim)
      from went_on(2) [unfolded this] show thesis
      proof (cases rule: exec_bind_cases)
        case (threw e)
        with early keepsD [OF receive] show thesis by blast
      next
        case (went_on v s1)
        from keepsD [OF receive went_on(1)] have q1: "quiet s s1" .
        from went_on(2) show thesis
        proof (cases rule: exec_bind_cases)
          case (threw e)
          with early transpD [OF quiet_preorder(2) q1 keepsD [OF authenticate_quiet threw(1)]] show thesis by blast
        next
          case (went_on result s2)
          from transpD [OF quiet_preorder(2) q1 keepsD [OF authenticate_quiet went_on(1)]] have "quiet s s2" .
          from authenticated [OF q1 this went_on(1)] went_on(2) show thesis unfolding exec_then_def by blast
        qed
      qed
    qed
  qed
qed

text \<open>The last step: the result is sent, whether or not the conversation allows it.\<close>

lemma send_result_cases:
  assumes "exec_then (send_verifier_message env fd (VerificationComplete verdict)) (exec_return result) s = (r, s')"
  obtains (unsent) e where "r = Inl e" "cl_traffic s' = cl_traffic s" "cl_conversation s' = cl_conversation s"
  | (refused) e where "r = Inl e" "cl_traffic s' = cl_traffic s @ [(from_pam_verifier, VerificationComplete verdict)]"
      "cl_conversation s' = cl_conversation s"
  | (sent) "r = Inr result" "cl_traffic s' = cl_traffic s @ [(from_pam_verifier, VerificationComplete verdict)]"
      "cl_conversation s' = VerifierCompleted verdict"
proof -
  have completed: "advance_verifier_conversation state from_pam_verifier (VerificationComplete verdict) = Inr next_state \<Longrightarrow>
      next_state = VerifierCompleted verdict" for state next_state
    by (auto simp: advance_verifier_conversation_def bind_result_eq_Inr invalid_conversation_def
        split: VerifierConversationState.splits if_splits)
  show thesis
    using assms unsent refused sent
    by (auto simp: send_verifier_message_def link_send_def client_advance_def client_ask_def exec_then_def exec_bind_def
        exec_prim split: sum.splits prod.splits dest: completed)
qed

section \<open>Properties\<close>

text \<open>A library with one module that asks for a password and compares it.\<close>

definition sample_pam :: "unit PamLibrary" where
  "sample_pam = \<lparr>pam_start_confdir = \<lambda>_ _ _. (PAM_SUCCESS, Some ()),
     pam_authenticate = \<lambda>_. Pam_converse \<lparr>cc_count = 1,
         cc_messages = Some [Some \<lparr>pm_style = PAM_PROMPT_ECHO_OFF, pm_msg = Some ''P''\<rparr>], cc_response = True\<rparr>
       (\<lambda>(rc, replies). Pam_return (if replies = Some [Some [7]] then PAM_SUCCESS else PAM_AUTH_ERR) ()),
     pam_acct_mgmt = \<lambda>_. Pam_return PAM_SUCCESS (), pam_end = \<lambda>_ _. PAM_SUCCESS\<rparr>"

definition sample_handler_env :: HandlerEnv where
  "sample_handler_env = \<lparr>he_link = \<lparr>ve_stop = \<lambda>_. False, ve_clock = \<lambda>_. 0, ve_rounds = 0, ve_socket = None,
       ve_connect_ok = False, ve_probe = \<lparr>pr_getfd = 1, pr_setfd_ok = True, pr_type = Some SOCK_SEQPACKET,
         pr_local = Some (FAMILY_SIZE, AF_UNIX), pr_peer = Peer_address FAMILY_SIZE AF_UNIX\<rparr>,
       ve_send = \<lambda>_. Sent 3, ve_poll = \<lambda>_ _. Poll_timeout,
       ve_receive = \<lambda>t. Received (if t = 0 then [1, 1, 0, 0, 3, 232, 99, 49] else [1, 2, 7]) False False\<rparr>,
     he_calloc = \<lambda>_. True, he_prctl_ok = True, he_getppid = 42\<rparr>"

lemma handler_outcome:
  fixes c0 :: 'c
  assumes "\<forall>service user dir. pam_start_confdir pam service user dir \<noteq> (PAM_SUCCESS, None)"
    and "run_vauth_auth_handler pam env arguments (new_client c0) = (code, s')"
  shows "(code = 0 \<longrightarrow> cl_conversation s' = VerifierCompleted verification_success) \<and>
    (\<forall>verdict. (from_pam_verifier, VerificationComplete verdict) \<in> set (cl_traffic s') \<longrightarrow>
       (\<exists>before. cl_traffic s' = before @ [(from_pam_verifier, VerificationComplete verdict)] \<and>
          (\<forall>other. (from_pam_verifier, VerificationComplete other) \<notin> set before)) \<and>
       (verdict = verification_success \<longrightarrow> (\<exists>fd (s1 :: 'c Client) s2. pam_accepts pam env fd (arguments ! 0) (arguments ! 1) (arguments ! 2) s1 s2 \<and>
          cl_traffic s' = cl_traffic s2 @ [(from_pam_verifier, VerificationComplete verdict)]))) \<and>
    (\<forall>verdict. cl_conversation s' = VerifierCompleted verdict \<longrightarrow>
       (from_pam_verifier, VerificationComplete verdict) \<in> set (cl_traffic s') \<and> (code = 0 \<longleftrightarrow> verdict = verification_success))"
proof (cases "cl_traffic s' = [] \<and> cl_conversation s' = VerifierAwaitingStart \<and> code = PAM_SYSTEM_ERR")
  case True
  then show ?thesis by (simp add: pam_codes)
next
  case False
  with assms(2) obtain parent r where body: "auth_handler_body pam env arguments parent (new_client c0) = (r, s')"
    and code: "code = (case r of Inl _ \<Rightarrow> PAM_SYSTEM_ERR | Inr result \<Rightarrow> result)"
    by (auto simp: run_vauth_auth_handler_def new_client_def split: if_splits option.splits prod.splits sum.splits)
  have verdict: "(verification_result_from_pam_status result = verification_success) = (result = PAM_SUCCESS)" for result
    by (simp add: verification_result_from_pam_status_def)
  from body show ?thesis
  proof (cases rule: handler_body_cases)
    case (early e)
    then show ?thesis using code by (auto simp: quiet_def new_client_def pam_codes)
  next
    case (authenticated result s1 s2 fd)
    let ?v = "verification_result_from_pam_status result"
    have accepts: "\<exists>fd (s1 :: 'c Client) sa. pam_accepts pam env fd (arguments ! 0) (arguments ! 1) (arguments ! 2) s1 sa \<and>
        cl_traffic s2 = cl_traffic sa" if "?v = verification_success"
      using authenticate_accepts [of pam env fd "arguments ! 0" "arguments ! 1" "arguments ! 2" s1 s2] assms(1)
        authenticated(3) that [unfolded verdict] by blast
    from authenticated(2) have silent: "\<forall>other. (from_pam_verifier, VerificationComplete other) \<notin> set (cl_traffic s2)"
      "\<forall>other. cl_conversation s2 \<noteq> VerifierCompleted other"
      by (auto simp: quiet_def new_client_def)
    have reported: "(from_pam_verifier, VerificationComplete w) \<in> set (cl_traffic s') \<longrightarrow>
       (\<exists>before. cl_traffic s' = before @ [(from_pam_verifier, VerificationComplete w)] \<and>
          (\<forall>other. (from_pam_verifier, VerificationComplete other) \<notin> set before)) \<and>
       (w = verification_success \<longrightarrow> (\<exists>fd (s1 :: 'c Client) s2. pam_accepts pam env fd (arguments ! 0) (arguments ! 1)
          (arguments ! 2) s1 s2 \<and> cl_traffic s' = cl_traffic s2 @ [(from_pam_verifier, VerificationComplete w)]))"
      if sent: "cl_traffic s' = cl_traffic s2 @ [(from_pam_verifier, VerificationComplete ?v)]" for w
    proof
      assume "(from_pam_verifier, VerificationComplete w) \<in> set (cl_traffic s')"
      with silent(1) sent have "w = ?v" by auto
      with silent(1) sent accepts show "(\<exists>before. cl_traffic s' = before @ [(from_pam_verifier, VerificationComplete w)] \<and>
          (\<forall>other. (from_pam_verifier, VerificationComplete other) \<notin> set before)) \<and>
         (w = verification_success \<longrightarrow> (\<exists>fd (s1 :: 'c Client) s2. pam_accepts pam env fd (arguments ! 0) (arguments ! 1)
            (arguments ! 2) s1 s2 \<and> cl_traffic s' = cl_traffic s2 @ [(from_pam_verifier, VerificationComplete w)]))"
        by simp
    qed
    from authenticated(4) show ?thesis
    proof (cases rule: send_result_cases)
      case (unsent e)
      with silent code show ?thesis by (simp add: pam_codes)
    next
      case (refused e)
      with reported [OF refused(2)] silent(2) code show ?thesis by (simp add: pam_codes)
    next
      case sent
      with reported [OF sent(2)] code verdict show ?thesis by (simp add: pam_codes)
    qed
  qed
qed



text \<open>
  C36.  PAM is given exactly what the daemon sent for it.  When the conversation function succeeds, there is a
  response for each message, it belongs to a hidden prompt and is the secret the daemon answered that
  prompt with; visible prompts are never answered; and the socket has carried one prompt with its answer, or
  one text of the right kind, for each message, in order, and nothing else.
\<close>

theorem conversation_exact:
  assumes "conversation env fd call s = (Inr (rc, answer), s')"
  shows "(rc = PAM_SUCCESS \<longleftrightarrow> answer \<noteq> None) \<and>
    (\<forall>replies. answer = Some replies \<longrightarrow> (\<exists>messages. cc_messages call = Some messages \<and>
       list_all2 answerable (take (nat (cc_count call)) messages) replies \<and>
       cl_traffic s' = cl_traffic s @ concat (map2 exchange (take (nat (cc_count call)) messages) replies)))"
proof (cases "cc_count call \<le> 0 \<or> cc_count call > PAM_MAX_NUM_MSG \<or> cc_messages call = None \<or> \<not> cc_response call \<or>
    \<not> he_calloc env (cl_tick s)")
  case True
  with assms show ?thesis
    by (auto simp: conversation_def exec_bind_def client_ask_def exec_prim pam_codes split: if_splits)
next
  case False
  let ?messages = "take (nat (cc_count call)) (the (cc_messages call))"
  obtain r s1 where loop: "converse_loop env fd [] ?messages (s\<lparr>cl_tick := cl_tick s + 1\<rparr>) = (r, s1)" by fastforce
  show ?thesis
  proof (cases r)
    case (Inl e)
    with False assms loop show ?thesis
      by (auto simp: conversation_def exec_bind_def exec_catch_def client_ask_def exec_prim pam_codes)
  next
    case (Inr reply)
    with False assms loop have "converse_loop env fd [] ?messages (s\<lparr>cl_tick := cl_tick s + 1\<rparr>) = (Inr (rc, answer), s')"
      by (auto simp: conversation_def exec_bind_def exec_catch_def client_ask_def exec_prim)
    from converse_loop_exchange [OF this] False show ?thesis by auto
  qed
qed

theorem conversation_exact_witness:
  "\<exists>replies s'. conversation sample_handler_env 3 \<lparr>cc_count = 1,
       cc_messages = Some [Some \<lparr>pm_style = PAM_PROMPT_ECHO_OFF, pm_msg = Some ''P''\<rparr>], cc_response = True\<rparr>
       (new_client ()\<lparr>cl_conversation := VerifierVerifying\<rparr>) = (Inr (PAM_SUCCESS, Some replies), s') \<and>
     length replies = 1"
proof -
  let ?call = "\<lparr>cc_count = 1, cc_messages = Some [Some \<lparr>pm_style = PAM_PROMPT_ECHO_OFF, pm_msg = Some ''P''\<rparr>],
    cc_response = True\<rparr>"
  let ?start = "new_client ()\<lparr>cl_conversation := VerifierVerifying\<rparr>"
  have "fst (conversation sample_handler_env 3 \<lparr>cc_count = 1,
       cc_messages = Some [Some \<lparr>pm_style = PAM_PROMPT_ECHO_OFF, pm_msg = Some ''P''\<rparr>], cc_response = True\<rparr>
       (new_client ()\<lparr>cl_conversation := VerifierVerifying\<rparr>)) = Inr (0, Some [Some [7]])"
    by code_simp
  then obtain s' where run: "conversation sample_handler_env 3 ?call ?start = (Inr (PAM_SUCCESS, Some [Some [7]]), s')"
    by (metis PAM_SUCCESS_def prod.collapse)
  with conversation_exact [OF run] show ?thesis by auto
qed

end
