(* ===== verification/Pam_Verifier.thy ===== *)
theory Pam_Verifier
  imports Pam_Handler Bus_Peers
begin

text \<open>
  The privileged verifier (\<open>uv/src/pam_verifier_service.cpp\<close>): it accepts one connection of the daemon,
  checks who the peer is and which login session the request is for, runs the PAM handler as a child
  while it relays prompts and secrets, checks the session again and reports the result.
\<close>

section \<open>Accounts\<close>

definition uid_for_username :: "Accounts \<Rightarrow> string \<Rightarrow> u32 result" where
  "uid_for_username accounts username =
     account_loop (acc_getpwnam accounts username) (RuntimeError ''vAuth daemon account does not exist'')
       (SystemError ''resolve vAuth daemon account'') (account_buffer_size accounts - 1)"

text \<open>The verifier's own \<open>username_for_uid\<close>; every 32-bit number is a user identifier.\<close>

definition verification_username :: "Accounts \<Rightarrow> u32 \<Rightarrow> string result" where
  "verification_username accounts requested_uid =
     account_loop (acc_getpwuid accounts requested_uid) (InvalidArgument ''verification UID has no user account'')
       (SystemError ''resolve verification user'') (account_buffer_size accounts - 1)"

section \<open>The conversation with the daemon\<close>

definition send_from_verifier :: "VerifierEnv \<Rightarrow> int \<Rightarrow> VerifierMessage \<Rightarrow> ('c Client, unit) exec" where
  "send_from_verifier env fd message =
     exec_then (link_send env fd from_pam_verifier message) (client_advance from_pam_verifier message)"

definition receive_start :: "VerifierEnv \<Rightarrow> int \<Rightarrow> ('c Client, u32 \<times> string) exec" where
  "receive_start env fd =
     exec_bind (link_receive env fd from_daemon) (\<lambda>message.
     exec_then (client_advance from_daemon message)
       (case message of
          StartVerification uid session \<Rightarrow> exec_return (uid, session)
        | _ \<Rightarrow> exec_throw (VerifierConversationError ''daemon did not start verification'')))"

definition request_secret :: "VerifierEnv \<Rightarrow> int \<Rightarrow> string \<Rightarrow> ('c Client, bytes) exec" where
  "request_secret env fd prompt =
     exec_then (send_from_verifier env fd (SecretRequired prompt))
     (exec_bind (link_receive env fd from_daemon) (\<lambda>response.
     exec_then (client_advance from_daemon response)
       (case response of
          CancelVerification \<Rightarrow> exec_throw UserInteractionCancelled
        | SecretResponse secret \<Rightarrow> exec_return secret
        | _ \<Rightarrow> exec_throw (VerifierConversationError ''daemon did not answer the verification prompt''))))"

definition daemon_cancellation_requested :: "VerifierEnv \<Rightarrow> int \<Rightarrow> ('c Client, bool) exec" where
  "daemon_cancellation_requested env fd =
     exec_bind (exec_get cl_conversation) (\<lambda>state.
       if verifier_conversation_is_terminal state then exec_return (state = VerifierCancelled)
       else exec_bind (client_ask (\<lambda>t. ve_poll env t 0)) (\<lambda>outcome.
         case outcome of
           Poll_failed \<Rightarrow> exec_throw (SystemError ''poll verifier daemon connection'')
         | Poll_timeout \<Rightarrow> exec_return False
         | Poll_ready readable \<Rightarrow>
             if \<not> readable then exec_throw (VerifierSocketError ''verifier daemon connection closed'')
             else
               exec_bind (link_receive env fd from_daemon) (\<lambda>message.
               exec_then (client_advance from_daemon message)
                 (if message \<noteq> CancelVerification then
                    exec_throw (VerifierConversationError ''daemon sent a response when no secret was requested'')
                  else exec_return True))))"

definition complete :: "VerifierEnv \<Rightarrow> int \<Rightarrow> VerificationResult \<Rightarrow> ('c Client, unit) exec" where
  "complete env fd verdict = send_from_verifier env fd (VerificationComplete verdict)"

section \<open>Authorization\<close>

definition authorize_verifier_peer :: "VerifierPeerCredentials \<Rightarrow> u32 \<Rightarrow> unit result" where
  "authorize_verifier_peer peer expected_daemon_uid =
     (if cred_pid peer \<le> 0 then Inl (RuntimeError ''PAM verifier peer has no process ID'')
      else if cred_uid peer \<noteq> expected_daemon_uid then
        Inl (RuntimeError ''PAM verifier peer is not the vAuth daemon user'')
      else Inr ())"

definition authorize_verification_session :: "u32 \<times> string \<Rightarrow> LoginSessionProperties \<Rightarrow> unit result" where
  "authorize_verification_session request session =
     (if snd request = [] then Inl (InvalidArgument ''verification session ID is empty'')
      else if uint (fst request) > 0xFFFFFFFF then Inl (InvalidArgument ''verification UID is out of range'')
      else validate_active_local_session session (fst request))"

section \<open>The service\<close>

text \<open>The state: the conversation with the daemon, and the run of the handler once there was one.\<close>

record PamService =
  ps_daemon :: "unit Client"
  ps_run :: "unit Client Supervisor option"

record PamServiceEnv =
  pv_link :: VerifierEnv
  pv_peer :: "(nat \<times> VerifierPeerCredentials) option"
  pv_accounts :: Accounts
  pv_process :: ProcessEnv
  pv_getpid :: int

text \<open>The query of a login session, at the first and at the second time it is asked.\<close>

type_synonym LoginSessionQuery = "bool \<Rightarrow> string \<Rightarrow> LoginSessionProperties result"

definition new_service :: PamService where
  "new_service = \<lparr>ps_daemon = new_client (), ps_run = None\<rparr>"

definition with_daemon :: "(unit Client, 'a) exec \<Rightarrow> (PamService, 'a) exec" where
  "with_daemon m s = (case m (ps_daemon s) of (r, daemon) \<Rightarrow> (r, s\<lparr>ps_daemon := daemon\<rparr>))"

definition relay_callbacks :: "VerifierEnv \<Rightarrow> int \<Rightarrow> 'c Client Callbacks" where
  "relay_callbacks env fd =
     \<lparr>cb_status = Some (\<lambda>kind display. send_from_verifier env fd (VerificationStatus kind display)),
      cb_secret = Some (\<lambda>_ prompt. request_secret env fd prompt),
      cb_cancelled = Some (daemon_cancellation_requested env fd)\<rparr>"

text \<open>\<open>std::to_string\<close> of a process identifier.\<close>

fun digits_of :: "nat \<Rightarrow> string" where
  "digits_of n = (if n < 10 then [char_of (48 + n)] else digits_of (n div 10) @ [char_of (48 + n mod 10)])"

declare digits_of.simps [simp del]

definition to_string :: "int \<Rightarrow> string" where
  "to_string n = (if n < 0 then CHR ''-'' # digits_of (nat (- n)) else digits_of (nat n))"

definition VAUTH_AUTH_HANDLER_COMMAND :: string where
  "VAUTH_AUTH_HANDLER_COMMAND = ''vauth_auth_handler''"

definition VAUTH_DAEMON_ACCOUNT :: string where
  "VAUTH_DAEMON_ACCOUNT = ''vauth''"

text \<open>
  The run of the handler, with the conversation with the daemon as what its callbacks act on and a stop
  token that never stops.
\<close>

definition unstoppable :: "ProcessEnv \<Rightarrow> ProcessEnv" where
  "unstoppable env = env\<lparr>pe_link := (pe_link env)\<lparr>ve_stop := \<lambda>_. False\<rparr>\<rparr>"

definition run_handler :: "PamServiceEnv \<Rightarrow> int \<Rightarrow> string \<Rightarrow> string list \<Rightarrow> u32 \<times> string \<Rightarrow> int \<Rightarrow> (PamService, VerificationResult) exec" where
  "run_handler env fd program arguments start timeout s =
     (case run_cancellable_verifier_program (unstoppable (pv_process env)) program arguments (fst start) (snd start) timeout
             (relay_callbacks (pv_link env) fd) \<lparr>su_client = new_client (ps_daemon s), su_child = new_child 0\<rparr> of
        (r, run) \<Rightarrow> (r, \<lparr>ps_daemon = cl_channel (su_client run), ps_run = Some run\<rparr>))"

text \<open>A step that reports an error to the daemon when it fails.\<close>

definition or_complete_error :: "VerifierEnv \<Rightarrow> int \<Rightarrow> 'a result \<Rightarrow> (PamService, 'a) exec" where
  "or_complete_error env fd r =
     exec_catch (exec_lift r) (\<lambda>e. exec_then (with_daemon (complete env fd verification_error_result)) (exec_throw e))"

definition handler_arguments :: "PamServiceEnv \<Rightarrow> string \<Rightarrow> string \<Rightarrow> string \<Rightarrow> string list" where
  "handler_arguments env username pam_service confdir =
     [VAUTH_AUTH_HANDLER_COMMAND, username, pam_service, confdir, to_string (pv_getpid env)]"

definition verify_user ::
    "PamServiceEnv \<Rightarrow> LoginSessionQuery \<Rightarrow> int \<Rightarrow> string \<Rightarrow> string list \<Rightarrow> u32 \<times> string \<Rightarrow> int \<Rightarrow> (PamService, int) exec" where
  "verify_user env query fd program arguments start timeout =
     exec_bind (run_handler env fd program arguments start timeout) (\<lambda>verdict.
     exec_then
       (if verdict = verification_success then
          or_complete_error (pv_link env) fd
            (bind_result (query True (snd start)) (authorize_verification_session start))
        else exec_return ())
     (exec_then (with_daemon (complete (pv_link env) fd verdict)) (exec_return 0)))"

definition run_pam_verifier_connection ::
    "PamServiceEnv \<Rightarrow> int \<Rightarrow> u32 \<Rightarrow> string \<Rightarrow> string \<Rightarrow> string \<Rightarrow> int \<Rightarrow> LoginSessionQuery option \<Rightarrow> (PamService, int) exec" where
  "run_pam_verifier_connection env fd expected_daemon_uid program pam_service confdir timeout query_session =
     exec_then (exec_guard (timeout > 0) (InvalidArgument ''PAM verifier timeout must be positive''))
     (case query_session of
        None \<Rightarrow> exec_throw (InvalidArgument ''PAM verifier session query is missing'')
      | Some query \<Rightarrow>
          exec_then (exec_lift (bind_result (peer_credentials fd (pv_peer env)) (\<lambda>peer.
            authorize_verifier_peer peer expected_daemon_uid)))
          (exec_bind (with_daemon (receive_start (pv_link env) fd)) (\<lambda>start.
          exec_bind (or_complete_error (pv_link env) fd
            (bind_result (query False (snd start)) (\<lambda>session.
             bind_result (authorize_verification_session start session) (\<lambda>_.
               verification_username (pv_accounts env) (fst start))))) (\<lambda>username.
          exec_catch (verify_user env query fd program (handler_arguments env username pam_service confdir) start timeout)
            (\<lambda>e. if e = UserInteractionCancelled then exec_return 0 else exec_throw e)))))"

definition run_pam_verifier_service ::
    "PamServiceEnv \<Rightarrow> (bool \<Rightarrow> Logind) \<Rightarrow> int \<Rightarrow> string \<Rightarrow> string \<Rightarrow> int \<Rightarrow> (PamService, int) exec" where
  "run_pam_verifier_service env logind socket_fd pam_service confdir timeout =
     exec_bind (exec_lift (verifier_socket socket_fd (ve_probe (pv_link env)))) (\<lambda>fd.
     exec_bind (exec_lift (uid_for_username (pv_accounts env) VAUTH_DAEMON_ACCOUNT)) (\<lambda>daemon_uid.
       run_pam_verifier_connection env fd daemon_uid ''/proc/self/exe'' pam_service confdir timeout
         (Some (\<lambda>later. query_login_session (logind later)))))"

section \<open>Lemmas\<close>

subsection \<open>The process identifier\<close>

lemma digits_of_digits: "list_all (\<lambda>c. 0 \<le> digit_value c \<and> digit_value c \<le> 9) (digits_of n)" "digits_of n \<noteq> []"
proof -
  have "list_all (\<lambda>c. 0 \<le> digit_value c \<and> digit_value c \<le> 9) (digits_of n) \<and> digits_of n \<noteq> []"
  proof (induction n rule: digits_of.induct)
    case (1 n)
    then show ?case by (subst (1 2) digits_of.simps) (auto simp: digit_value_def of_char_of)
  qed
  then show "list_all (\<lambda>c. 0 \<le> digit_value c \<and> digit_value c \<le> 9) (digits_of n)" "digits_of n \<noteq> []" by simp_all
qed

lemma digits_of_value: "foldl (\<lambda>m c. 10 * m + digit_value c) 0 (digits_of n) = int n"
proof (induction n rule: digits_of.induct)
  case (1 n)
  show ?case
  proof (cases "n < 10")
    case True
    then show ?thesis by (subst digits_of.simps) (simp add: digit_value_def of_char_of)
  next
    case False
    then have "digits_of n = digits_of (n div 10) @ [char_of (48 + n mod 10)]" by (subst digits_of.simps) simp
    moreover have "10 * int (n div 10) + int (n mod 10) = int n" by presburger
    ultimately show ?thesis using 1 False by (simp add: digit_value_def of_char_of)
  qed
qed

text \<open>The handler reads the identifier its parent wrote.\<close>

lemma parse_pid_to_string:
  assumes "0 \<le> pid" "pid < 2 ^ 31"
  shows "parse_pid (to_string pid) = Some pid"
proof -
  obtain c cs where shown: "digits_of (nat pid) = c # cs" using digits_of_digits(2) by (cases "digits_of (nat pid)") auto
  with digits_of_digits(1) [of "nat pid"] have "c \<noteq> CHR ''-''" by (auto simp: digit_value_def)
  then have "(case digits_of (nat pid) of CHR ''-'' # digits \<Rightarrow> map_option uminus (decimal_value digits)
      | _ \<Rightarrow> decimal_value (digits_of (nat pid))) = decimal_value (digits_of (nat pid))"
    unfolding shown by (auto split: list.splits char.splits bool.splits)
  moreover have "decimal_value (digits_of (nat pid)) = Some pid"
    using digits_of_digits [of "nat pid"] digits_of_value [of "nat pid"] assms(1) by (simp add: decimal_value_def)
  ultimately show ?thesis using assms by (simp add: parse_pid_def to_string_def)
qed

subsection \<open>What the relay keeps\<close>

definition verifying :: "'c Client \<Rightarrow> bool" where
  "verifying b \<longleftrightarrow> cl_conversation b = VerifierVerifying \<and>
     run_conversation VerifierAwaitingStart (cl_traffic b) = Inr VerifierVerifying"

definition secrets_received :: "'c Client \<Rightarrow> bytes set" where
  "secrets_received b = {secret. (from_daemon, SecretResponse secret) \<in> set (cl_traffic b)}"

definition relayed :: "bytes set \<Rightarrow> 'c Client \<Rightarrow> 'c Client \<Rightarrow> bool" where
  "relayed secrets a b \<longleftrightarrow> (verifying a \<longrightarrow> verifying b) \<and> (\<exists>more_traffic. cl_traffic b = cl_traffic a @ more_traffic) \<and>
     secrets \<subseteq> secrets_received b"

lemma send_from_verifier_step:
  assumes "send_from_verifier env fd message b = (Inr u, c)"
  shows "cl_traffic c = cl_traffic b @ [(from_pam_verifier, message)]"
    "advance_verifier_conversation (cl_conversation b) from_pam_verifier message = Inr (cl_conversation c)"
  using assms
  by (auto simp: send_from_verifier_def link_send_def client_advance_def client_ask_def exec_simps)

lemma receive_step:
  assumes "exec_bind (link_receive env fd from_daemon) (\<lambda>message. exec_then (client_advance from_daemon message) (f message)) b =
      (Inr x, c)"
  shows "\<exists>message b'. cl_traffic b' = cl_traffic b @ [(from_daemon, message)] \<and>
    advance_verifier_conversation (cl_conversation b) from_daemon message = Inr (cl_conversation b') \<and>
    f message b' = (Inr x, c)"
proof -
  from assms obtain message b1 u b2 where got: "link_receive env fd from_daemon b = (Inr message, b1)"
    and adv: "client_advance from_daemon message b1 = (Inr u, b2)" and rest: "f message b2 = (Inr x, c)"
    by (auto simp: exec_simps)
  from got have "cl_conversation b1 = cl_conversation b" by (auto simp: link_receive_def client_ask_def exec_simps)
  with adv have "advance_verifier_conversation (cl_conversation b) from_daemon message = Inr (cl_conversation b2)"
    by (auto simp: client_advance_def exec_simps)
  with link_traffic(2) [OF got] link_traffic(3) [OF adv] rest show ?thesis by (intro exI [of _ message] exI [of _ b2]) simp
qed

lemma status_relayed:
  assumes "send_from_verifier env fd (VerificationStatus kind display) b = (Inr u, c)" "relayed secrets a b"
  shows "relayed secrets a c"
proof -
  note step = send_from_verifier_step [OF assms(1)]
  have "verifying c" if "verifying b"
    using that step
    by (auto simp: verifying_def run_conversation_append bind_result_def advance_verifier_conversation_def
        split: sum.splits)
  with assms(2) step(1) show ?thesis by (auto simp: relayed_def secrets_received_def)
qed

lemma secret_relayed:
  assumes "request_secret env fd prompt b = (Inr secret, c)" "relayed secrets a b"
  shows "relayed (insert secret secrets) a c"
proof -
  from assms(1) obtain u b1 where sent: "send_from_verifier env fd (SecretRequired prompt) b = (Inr u, b1)"
    and got: "exec_bind (link_receive env fd from_daemon) (\<lambda>response.
       exec_then (client_advance from_daemon response)
         (case response of
            CancelVerification \<Rightarrow> exec_throw UserInteractionCancelled
          | SecretResponse secret \<Rightarrow> exec_return secret
          | _ \<Rightarrow> exec_throw (VerifierConversationError ''daemon did not answer the verification prompt''))) b1 = (Inr secret, c)"
    unfolding request_secret_def exec_then_Inr by blast
  from receive_step [OF got] obtain message b2 where b2: "cl_traffic b2 = cl_traffic b1 @ [(from_daemon, message)]"
      "advance_verifier_conversation (cl_conversation b1) from_daemon message = Inr (cl_conversation b2)"
    and rest: "(case message of
            CancelVerification \<Rightarrow> exec_throw UserInteractionCancelled
          | SecretResponse secret \<Rightarrow> exec_return secret
          | _ \<Rightarrow> exec_throw (VerifierConversationError ''daemon did not answer the verification prompt'')) b2 = (Inr secret, c)"
    by blast
  from rest have "message = SecretResponse secret" "c = b2" by (cases message; simp add: exec_prim)+
  with b2 have message: "cl_traffic c = cl_traffic b1 @ [(from_daemon, message)]"
      "advance_verifier_conversation (cl_conversation b1) from_daemon message = Inr (cl_conversation c)"
      "message = SecretResponse secret" by simp_all
  note step = send_from_verifier_step [OF sent]
  have "verifying c" if "verifying b"
    using that step message
    by (auto simp: verifying_def run_conversation_append bind_result_def advance_verifier_conversation_def
        validate_message_enums_def split: sum.splits)
  with assms(2) step(1) message(1,3) show ?thesis by (auto simp: relayed_def secrets_received_def)
qed

lemma undisturbed_relayed:
  assumes "daemon_cancellation_requested env fd b = (Inr False, c)" "relayed secrets a b"
  shows "relayed secrets a c"
proof -
  from assms(1) have "cl_traffic c = cl_traffic b" "cl_conversation c = cl_conversation b"
    by (auto simp: daemon_cancellation_requested_def exec_simps client_ask_def split: if_splits PollOutcome.splits)
  with assms(2) show ?thesis by (simp add: relayed_def verifying_def secrets_received_def)
qed

interpretation relay: client_callbacks "relay_callbacks env fd" relayed for env fd
proof
  fix c :: "'a Client"
  show "relayed {} c c" by (simp add: relayed_def)
next
  fix secrets fewer and a b :: "'a Client"
  assume "relayed secrets a b" "fewer \<subseteq> secrets"
  then show "relayed fewer a b" unfolding relayed_def by blast
qed (auto simp: relay_callbacks_def intro: status_relayed secret_relayed undisturbed_relayed)

subsection \<open>What a run does to the state behind its callbacks\<close>

definition callbacks_keep :: "('c \<Rightarrow> 'c \<Rightarrow> bool) \<Rightarrow> 'c Callbacks \<Rightarrow> bool" where
  "callbacks_keep R cbs \<longleftrightarrow> reflp R \<and> transp R \<and>
     (\<forall>f kind display. cb_status cbs = Some f \<longrightarrow> keeps R (f kind display)) \<and>
     (\<forall>f now prompt. cb_secret cbs = Some f \<longrightarrow> keeps R (f now prompt)) \<and>
     (\<forall>m. cb_cancelled cbs = Some m \<longrightarrow> keeps R m)"

definition behind_client :: "('c \<Rightarrow> 'c \<Rightarrow> bool) \<Rightarrow> 'c Client \<Rightarrow> 'c Client \<Rightarrow> bool" where
  "behind_client R s s' \<longleftrightarrow> R (cl_channel s) (cl_channel s')"

definition behind :: "('c \<Rightarrow> 'c \<Rightarrow> bool) \<Rightarrow> 'c Supervisor \<Rightarrow> 'c Supervisor \<Rightarrow> bool" where
  "behind R s s' \<longleftrightarrow> behind_client R (su_client s) (su_client s')"

lemma behind_preorder:
  "reflp R \<Longrightarrow> reflp (behind_client R)" "transp R \<Longrightarrow> transp (behind_client R)"
  "reflp R \<Longrightarrow> reflp (behind R)" "transp R \<Longrightarrow> transp (behind R)"
  unfolding reflp_def transp_def behind_def behind_client_def by blast+

lemma same_channel: "reflp R \<Longrightarrow> (\<And>s r s'. m s = (r, s') \<Longrightarrow> cl_channel s' = cl_channel s) \<Longrightarrow> keeps (behind_client R) m"
  by (auto simp: keeps_def behind_client_def reflp_def)

lemma run_keeps_behind:
  assumes "callbacks_keep R cbs"
  shows "keeps (behind R) (run_cancellable_verifier_program env path arguments uid session timeout cbs)"
proof -
  from assms have R: "reflp R" "transp R" by (simp_all add: callbacks_keep_def)
  note client = keeps_prim [OF behind_preorder(1) [OF R(1)]] keeps_bind [OF behind_preorder(2) [OF R(2)]]
    keeps_then [OF behind_preorder(2) [OF R(2)]] keeps_catch [OF behind_preorder(2) [OF R(2)]] keeps_if keeps_option keeps_prod
  note super = keeps_prim [OF behind_preorder(3) [OF R(1)]] keeps_bind [OF behind_preorder(4) [OF R(2)]]
    keeps_then [OF behind_preorder(4) [OF R(2)]] keeps_if keeps_option keeps_prod
  have asks: "keeps (behind_client R) (client_ask answer)" for answer :: "nat \<Rightarrow> 'x"
    by (rule same_channel [OF R(1)]) (auto simp: client_ask_def)
  have sends: "keeps (behind_client R) (client_send e fd message)" for e fd message
    by (rule same_channel [OF R(1)])
      (auto simp: client_send_def link_send_def client_ask_def exec_then_def exec_bind_def exec_prim split: sum.splits prod.splits)
  have receives: "keeps (behind_client R) (client_receive e fd)" for e fd
    by (rule same_channel [OF R(1)])
      (auto simp: client_receive_def link_receive_def client_ask_def exec_then_def exec_bind_def exec_prim split: sum.splits prod.splits)
  have advances: "keeps (behind_client R) (client_advance sender message)" for sender message
    by (rule same_channel [OF R(1)])
      (auto simp: client_advance_def exec_bind_def exec_prim split: sum.splits prod.splits)
  have channel: "keeps R m \<Longrightarrow> keeps (behind_client R) (on_channel m)" for m :: "('a, 'x) exec"
    by (auto simp: keeps_def on_channel_def behind_client_def split: prod.splits)
  have cancelled: "keeps (behind_client R) (client_cancelled cbs)" unfolding client_cancelled_def
    using assms by (auto simp: callbacks_keep_def split: option.split intro!: client channel)
  have cancels: "keeps (behind_client R) (send_cancel e fd)" for e fd unfolding send_cancel_def
    by (intro client sends advances)
  have message: "keeps (behind_client R) (receive_message e cbs fd)" for e fd unfolding receive_message_def
  proof (intro client receives advances)
    fix message
    show "keeps (behind_client R) (case message of
          VerificationStatus kind display \<Rightarrow>
            exec_then (case cb_status cbs of None \<Rightarrow> exec_return () | Some callback \<Rightarrow> on_channel (callback kind display))
              (exec_return None)
        | SecretRequired prompt \<Rightarrow>
            (case cb_secret cbs of
               None \<Rightarrow> exec_throw (RuntimeError ''bad_function_call'')
             | Some callback \<Rightarrow>
                 exec_bind (client_ask (ve_clock e)) (\<lambda>now.
                 exec_bind (on_channel (callback now prompt)) (\<lambda>secret.
                 exec_then (client_send e fd (SecretResponse secret))
                 (exec_then (client_advance from_daemon (SecretResponse secret)) (exec_return None)))))
        | VerificationComplete verdict \<Rightarrow> exec_return (Some verdict)
        | _ \<Rightarrow> exec_throw (VerifierConversationError ''verifier sent a daemon-only message''))"
      using assms
      by (cases message) (auto simp: callbacks_keep_def split: option.split intro!: client asks sends advances channel)
  qed
  have drains: "keeps (behind_client R) (drain e cbs fd m)" for e fd m
    by (induction m) (auto split: PollOutcome.split intro!: client asks message)
  have side: "keeps (behind_client R) m \<Longrightarrow> keeps (behind R) (with_client m)" for m :: "('a Client, 'x) exec"
    by (auto simp: keeps_def with_client_def behind_def split: prod.splits)
  have child: "keeps (behind R) (with_child k)" for k :: "(Child, 'x) exec"
    using R(1) by (auto simp: keeps_def with_child_def behind_def behind_client_def reflp_def split: prod.splits)
  have scope: "keeps (behind R) (child_scope ce pid body)" if "keeps (behind R) body" for ce pid and body :: "('a Supervisor, 'x) exec"
    using that unfolding keeps_def child_scope_def with_child_def behind_def by (auto split: prod.splits) fastforce
  have rounds: "keeps (behind R) (verifier_round env cbs fd deadline n before)" for fd deadline n before
    unfolding verifier_round_def abandon_verifier_def abandon_def
    by (intro super side child client asks drains cancels cancelled)
  have loops: "keeps (behind R) (verifier_loop env cbs fd deadline n before)" for fd deadline n before
    by (induction n arbitrary: before) (auto intro!: super rounds)
  show ?thesis unfolding run_cancellable_verifier_program_def check_program_def
    by (intro super side child scope asks cancelled sends advances loops)
qed

text \<open>Steps that do not report success to the daemon.\<close>

definition reports_success :: "'c Client \<Rightarrow> bool" where
  "reports_success s \<longleftrightarrow> (from_pam_verifier, VerificationComplete verification_success) \<in> set (cl_traffic s)"

definition no_success :: "'c Client \<Rightarrow> 'c Client \<Rightarrow> bool" where
  "no_success s s' \<longleftrightarrow> (reports_success s' \<longrightarrow> reports_success s)"

lemma no_success_preorder: "reflp no_success" "transp no_success"
  unfolding reflp_def transp_def no_success_def by blast+

lemmas no_success_keeps = keeps_prim [OF no_success_preorder(1)] keeps_bind [OF no_success_preorder(2)]
  keeps_then [OF no_success_preorder(2)] keeps_if keeps_option

lemma link_no_success:
  "keeps no_success (client_ask answer)" "keeps no_success (client_advance sender message)"
  "keeps no_success (link_receive env fd from_daemon)"
  "message \<noteq> VerificationComplete verification_success \<Longrightarrow> keeps no_success (send_from_verifier env fd message)"
  by (auto simp: keeps_def no_success_def reports_success_def client_ask_def client_advance_def link_receive_def
      send_from_verifier_def link_send_def exec_then_def exec_bind_def exec_prim split: sum.splits prod.splits)

lemma relay_no_success: "callbacks_keep no_success (relay_callbacks env fd)"
proof -
  have "keeps no_success (request_secret env fd prompt)" for prompt :: string
    unfolding request_secret_def
    by (intro no_success_keeps link_no_success, simp)
      (auto split: VerifierMessage.split intro!: no_success_keeps)
  moreover have "keeps no_success (daemon_cancellation_requested env fd)"
    unfolding daemon_cancellation_requested_def
    by (intro no_success_keeps link_no_success)
      (auto split: PollOutcome.split intro!: no_success_keeps link_no_success)
  ultimately show ?thesis
    by (auto simp: callbacks_keep_def relay_callbacks_def no_success_preorder intro!: link_no_success)
qed

subsection \<open>A reported success\<close>

lemma with_daemon_no_success:
  "keeps no_success m \<Longrightarrow> with_daemon m s = (r, s') \<Longrightarrow> no_success (ps_daemon s) (ps_daemon s')"
  by (auto simp: keeps_def with_daemon_def split: prod.splits)

lemma or_complete_error_cases:
  assumes "or_complete_error env fd q s = (r, s')"
  obtains (ok) x where "q = Inr x" "r = Inr x" "s' = s"
  | (failed) e where "r = Inl e" "no_success (ps_daemon s) (ps_daemon s')"
proof (cases q)
  case (Inl e)
  obtain x s1 where c: "with_daemon (complete env fd verification_error_result) s = (x, s1)" by fastforce
  have "keeps no_success (complete env fd verification_error_result :: (unit Client, unit) exec)"
    unfolding complete_def by (rule link_no_success) simp
  from with_daemon_no_success [OF this c] assms Inl c failed show thesis
    by (cases x) (auto simp: or_complete_error_def exec_catch_def exec_prim exec_then_def exec_bind_def)
next
  case (Inr x)
  with assms have "r = Inr x" "s' = s" by (simp_all add: or_complete_error_def exec_catch_def exec_prim)
  with Inr show thesis by (rule ok)
qed

lemma verify_user_success:
  assumes run: "verify_user env query fd program arguments start timeout s = (r, s')"
    and before: "\<not> reports_success (ps_daemon s)" and after: "reports_success (ps_daemon s')"
  obtains run s1 where "run_handler env fd program arguments start timeout s = (Inr verification_success, s1)"
    "ps_run s1 = Some run" "ps_run s' = Some run" "ps_daemon s1 = cl_channel (su_client run)"
    "bind_result (query True (snd start)) (authorize_verification_session start) = Inr ()"
    "cl_traffic (ps_daemon s') = cl_traffic (ps_daemon s1) @ [(from_pam_verifier, VerificationComplete verification_success)]"
proof -
  obtain h s1 where h: "run_handler env fd program arguments start timeout s = (h, s1)" by fastforce
  then obtain sup where sup: "run_cancellable_verifier_program (unstoppable (pv_process env)) program arguments (fst start)
      (snd start) timeout (relay_callbacks (pv_link env) fd) \<lparr>su_client = new_client (ps_daemon s), su_child = new_child 0\<rparr> =
      (h, sup)" and s1: "s1 = \<lparr>ps_daemon = cl_channel (su_client sup), ps_run = Some sup\<rparr>"
    by (auto simp: run_handler_def split: prod.splits)
  from keepsD [OF run_keeps_behind [OF relay_no_success] sup] before s1 have quiet1: "\<not> reports_success (ps_daemon s1)"
    by (simp add: behind_def behind_client_def no_success_def new_client_def)
  let ?check = "\<lambda>verdict. if verdict = verification_success then or_complete_error (pv_link env) fd
      (bind_result (query True (snd start)) (authorize_verification_session start)) else exec_return ()"
  show thesis
  proof (cases h)
    case (Inl e)
    with h run have "s' = s1" by (simp add: verify_user_def exec_bind_def)
    with quiet1 after show thesis by simp
  next
    case (Inr verdict)
    obtain c s2 where c: "?check verdict s1 = (c, s2)" by fastforce
    obtain d s3 where d: "with_daemon (complete (pv_link env) fd verdict) s2 = (d, s3)" by fastforce
    have s': "s' = (case c of Inl _ \<Rightarrow> s2 | Inr _ \<Rightarrow> s3)"
      using run h Inr c d by (auto simp: verify_user_def exec_bind_def exec_then_def exec_prim split: sum.splits)
    show thesis
    proof (cases "verdict = verification_success")
      case False
      with c have "s2 = s1" by (simp add: exec_prim)
      moreover from False have "keeps no_success (complete (pv_link env) fd verdict :: (unit Client, unit) exec)"
        unfolding complete_def by (intro link_no_success) simp
      from with_daemon_no_success [OF this d] have "no_success (ps_daemon s2) (ps_daemon s3)" .
      ultimately show thesis using quiet1 after s' by (auto simp: no_success_def split: sum.splits)
    next
      case True
      with c have "or_complete_error (pv_link env) fd
          (bind_result (query True (snd start)) (authorize_verification_session start)) s1 = (c, s2)" by simp
      then show thesis
      proof (cases rule: or_complete_error_cases)
        case (failed e)
        with s' quiet1 after show thesis by (simp add: no_success_def)
      next
        case (ok x)
        with s' have s3: "s' = s3" "s2 = s1" by simp_all
        from d after s3 quiet1 True
        have "cl_traffic (ps_daemon s') = cl_traffic (ps_daemon s1) @ [(from_pam_verifier, VerificationComplete verification_success)]"
          "ps_run s' = ps_run s1"
          by (auto simp: with_daemon_def complete_def send_from_verifier_def link_send_def client_advance_def client_ask_def
              reports_success_def exec_then_def exec_bind_def exec_prim split: sum.splits prod.splits)
        with that [of s1 sup] h Inr True s1 ok show thesis by simp
      qed
    qed
  qed
qed

text \<open>What the verifier has made sure of when it reports success.\<close>

definition session_authorized :: "LoginSessionQuery \<Rightarrow> bool \<Rightarrow> u32 \<Rightarrow> string \<Rightarrow> bool" where
  "session_authorized query later uid session \<longleftrightarrow>
     (\<exists>p. query later session = Inr p \<and> session \<noteq> [] \<and> ls_uid p = uid \<and> ls_active p \<and> \<not> ls_remote p)"

lemma session_authorizedI:
  "bind_result (query later (snd start)) (authorize_verification_session start) = Inr () \<Longrightarrow>
     session_authorized query later (fst start) (snd start)"
  by (auto simp: session_authorized_def bind_result_eq_Inr authorize_verification_session_def
      validate_active_local_session_def split: if_splits)

definition handler_accepted ::
    "PamServiceEnv \<Rightarrow> int \<Rightarrow> string \<Rightarrow> string list \<Rightarrow> u32 \<Rightarrow> string \<Rightarrow> int \<Rightarrow> unit Client Supervisor \<Rightarrow> bytes set \<Rightarrow> bool" where
  "handler_accepted env fd program arguments uid session timeout run secrets \<longleftrightarrow>
     (\<exists>s. run_cancellable_verifier_program (unstoppable (pv_process env)) program arguments uid session timeout
        (relay_callbacks (pv_link env) fd) s = (Inr verification_success, run)) \<and>
     cp_events (su_child run) = [Reaped (pe_pid (pv_process env)) (Some 0)] \<and>
     (\<exists>mid. cl_traffic (su_client run) = (from_daemon, StartVerification uid session) # mid @
        [(from_pam_verifier, VerificationComplete verification_success)] \<and> all_answered mid \<and>
        (\<forall>secret. (from_daemon, SecretResponse secret) \<in> set mid \<longrightarrow> secret \<in> secrets))"

lemma run_handler_accepted:
  assumes "run_handler env fd program arguments start timeout s = (Inr verification_success, s1)" "ps_run s1 = Some run"
    and "verifying (ps_daemon s)"
  shows "handler_accepted env fd program arguments (fst start) (snd start) timeout run (secrets_received (ps_daemon s1))"
    "verifying (ps_daemon s1)" "\<exists>more_traffic. cl_traffic (ps_daemon s1) = cl_traffic (ps_daemon s) @ more_traffic"
proof -
  let ?s = "\<lparr>su_client = new_client (ps_daemon s), su_child = new_child 0\<rparr>"
  from assms(1,2) have run: "run_cancellable_verifier_program (unstoppable (pv_process env)) program arguments (fst start)
      (snd start) timeout (relay_callbacks (pv_link env) fd) ?s = (Inr verification_success, run)"
    and daemon: "ps_daemon s1 = cl_channel (su_client run)"
    by (auto simp: run_handler_def split: prod.splits)
  have pid: "pe_pid (unstoppable (pv_process env)) = pe_pid (pv_process env)" by (simp add: unstoppable_def)
  have "concluded relayed (ps_daemon s) (pe_pid (pv_process env)) verification_success run"
    using relay.program_verdict [OF run] pid by simp
  then have conv: "run_conversation VerifierAwaitingStart (cl_traffic (su_client run)) = Inr (VerifierCompleted verification_success)"
    and rel: "relayed (secrets_sent (su_client run)) (ps_daemon s) (cl_channel (su_client run))"
    and exit: "cp_events (su_child run) = [Reaped (pe_pid (pv_process env)) (Some 0)]"
    by (auto simp: concluded_def talking_def)
  have "program_starts (fst start) (snd start) ?s run" by (rule keepsD [OF program_run_starts run])
  then have "starts_only (fst start) (snd start) (new_client (ps_daemon s)) (su_client run)" by (simp add: program_starts_def)
  from started_traffic [OF this conv] obtain mid where mid:
    "cl_traffic (su_client run) = (from_daemon, StartVerification (fst start) (snd start)) # mid @
      [(from_pam_verifier, VerificationComplete verification_success)]" "all_answered mid" by auto
  have "secret \<in> secrets_received (ps_daemon s1)" if "(from_daemon, SecretResponse secret) \<in> set mid" for secret
    using that rel mid(1) daemon by (auto simp: relayed_def secrets_sent_def)
  with run exit mid show "handler_accepted env fd program arguments (fst start) (snd start) timeout run
      (secrets_received (ps_daemon s1))" unfolding handler_accepted_def by blast
  from rel daemon assms(3) show "verifying (ps_daemon s1)"
    "\<exists>more_traffic. cl_traffic (ps_daemon s1) = cl_traffic (ps_daemon s) @ more_traffic" by (simp_all add: relayed_def)
qed

lemma receive_start_verifying:
  assumes "with_daemon (receive_start env fd) new_service = (Inr (uid, session), s1)"
  shows "verifying (ps_daemon s1)" "cl_traffic (ps_daemon s1) = [(from_daemon, StartVerification uid session)]"
proof -
  from assms have got: "receive_start env fd (new_client ()) = (Inr (uid, session), ps_daemon s1)"
    by (auto simp: with_daemon_def new_service_def split: prod.splits)
  from receive_step [OF got [unfolded receive_start_def]] obtain message b where
    b: "cl_traffic b = [(from_daemon, message)]"
      "advance_verifier_conversation VerifierAwaitingStart from_daemon message = Inr (cl_conversation b)"
    and rest: "(case message of StartVerification uid session \<Rightarrow> exec_return (uid, session)
        | _ \<Rightarrow> exec_throw (VerifierConversationError ''daemon did not start verification'')) b = (Inr (uid, session), ps_daemon s1)"
    by (auto simp: new_client_def)
  from rest have m: "message = StartVerification uid session" "ps_daemon s1 = b" by (cases message; simp add: exec_prim)+
  with b show "verifying (ps_daemon s1)" "cl_traffic (ps_daemon s1) = [(from_daemon, StartVerification uid session)]"
    by (auto simp: verifying_def advance_verifier_conversation_def validate_message_enums_def bind_result_def)
qed

lemma connection_success:
  assumes run: "run_pam_verifier_connection env fd expected program service confdir timeout (Some query) new_service = (r, s')"
    and success: "reports_success (ps_daemon s')"
  obtains peer uid session name s1 r1 where "pv_peer env = Some (UCRED_SIZE, peer)" "cred_uid peer = expected"
    "with_daemon (receive_start (pv_link env) fd) new_service = (Inr (uid, session), s1)"
    "session_authorized query False uid session" "verification_username (pv_accounts env) uid = Inr name"
    "\<not> reports_success (ps_daemon s1)"
    "verify_user env query fd program (handler_arguments env name service confdir) (uid, session) timeout s1 = (r1, s')"
proof -
  have quiet0: "\<not> reports_success (ps_daemon new_service)" by (simp add: reports_success_def new_service_def new_client_def)
  let ?peer = "bind_result (peer_credentials fd (pv_peer env)) (\<lambda>peer. authorize_verifier_peer peer expected)"
  let ?user = "\<lambda>start. bind_result (query False (snd start)) (\<lambda>session.
      bind_result (authorize_verification_session start session) (\<lambda>_. verification_username (pv_accounts env) (fst start)))"
  obtain st s1 where st: "with_daemon (receive_start (pv_link env) fd) new_service = (st, s1)" by fastforce
  have "keeps no_success (receive_start (pv_link env) fd :: (unit Client, _) exec)" unfolding receive_start_def
    by (intro no_success_keeps link_no_success) (auto split: VerifierMessage.split intro!: no_success_keeps)
  from with_daemon_no_success [OF this st] quiet0 have quiet1: "\<not> reports_success (ps_daemon s1)"
    by (simp add: no_success_def)
  have "timeout > 0"
    using run success quiet0
    by (rule_tac ccontr) (auto simp: run_pam_verifier_connection_def exec_then_def exec_bind_def exec_guard_def)
  have "\<exists>u. ?peer = Inr u"
    using run success quiet0 \<open>timeout > 0\<close>
    by (cases ?peer) (auto simp: run_pam_verifier_connection_def exec_then_def exec_bind_def exec_prim exec_guard_def)
  then obtain u where peer: "?peer = Inr u" by blast
  then obtain peer where who: "pv_peer env = Some (UCRED_SIZE, peer)" "cred_uid peer = expected"
    by (auto simp: bind_result_eq_Inr peer_credentials_def authorize_verifier_peer_def split: option.splits if_splits)
  have "\<exists>start. st = Inr start"
    using run success quiet1 \<open>timeout > 0\<close> peer st
    by (cases st) (auto simp: run_pam_verifier_connection_def exec_then_def exec_bind_def exec_prim exec_guard_def)
  then obtain start where start: "st = Inr start" by blast
  obtain w s2 where w: "or_complete_error (pv_link env) fd (?user start) s1 = (w, s2)" by fastforce
  have rest: "(case w of Inl e \<Rightarrow> (Inl e, s2) | Inr username \<Rightarrow>
      exec_catch (verify_user env query fd program (handler_arguments env username service confdir) start timeout)
        (\<lambda>e. if e = UserInteractionCancelled then exec_return 0 else exec_throw e) s2) = (r, s')"
    using run \<open>timeout > 0\<close> peer st start w
    by (auto simp: run_pam_verifier_connection_def exec_then_def exec_bind_def exec_prim exec_guard_def split: sum.splits)
  from w show thesis
  proof (cases rule: or_complete_error_cases)
    case (failed e)
    with rest quiet1 success show thesis by (simp add: no_success_def)
  next
    case (ok name)
    obtain r1 s3 where v: "verify_user env query fd program (handler_arguments env name service confdir) start timeout s1 = (r1, s3)"
      by fastforce
    with ok rest have "s3 = s'"
      by (cases r1) (auto simp: exec_catch_def exec_prim split: if_splits)
    moreover from ok(1) have "bind_result (query False (snd start)) (authorize_verification_session start) = Inr ()"
      "verification_username (pv_accounts env) (fst start) = Inr name"
      by (auto simp: bind_result_eq_Inr)
    ultimately show thesis
      using that [OF who, of "fst start" "snd start" s1 name r1] st start quiet1 v session_authorizedI [of query False start] by simp
  qed
qed

section \<open>Properties\<close>

text \<open>The daemon asks for user 1000, the handler asks for a secret and succeeds with it.\<close>

definition relay_link :: "(nat \<Rightarrow> bytes) \<Rightarrow> (nat \<Rightarrow> nat) \<Rightarrow> (nat \<Rightarrow> PollOutcome) \<Rightarrow> VerifierEnv" where
  "relay_link packets sizes polls = \<lparr>ve_stop = \<lambda>_. False, ve_clock = \<lambda>_. 0, ve_rounds = 1, ve_socket = None, ve_connect_ok = False,
     ve_probe = \<lparr>pr_getfd = 1, pr_setfd_ok = True, pr_type = Some SOCK_SEQPACKET, pr_local = Some (FAMILY_SIZE, AF_UNIX),
       pr_peer = Peer_address FAMILY_SIZE AF_UNIX\<rparr>,
     ve_send = \<lambda>t. Sent (sizes t), ve_poll = \<lambda>t _. polls t, ve_receive = \<lambda>t. Received (packets t) False False\<rparr>"

definition sample_relay_env :: PamServiceEnv where
  "sample_relay_env = \<lparr>
     pv_link = relay_link (\<lambda>t. if t = 0 then [1, 1, 0, 0, 3, 232, 99, 49] else [1, 2, 7]) (\<lambda>_. 3) (\<lambda>_. Poll_timeout),
     pv_peer = Some (UCRED_SIZE, \<lparr>cred_pid = 5, cred_uid = 900, cred_gid = 900\<rparr>),
     pv_accounts = \<lparr>acc_requested_size = 1, acc_getpwuid = \<lambda>_ _. Account_found ''u'', acc_getpwnam = \<lambda>_ _. Account_found 900\<rparr>,
     pv_process = \<lparr>pe_link = relay_link (\<lambda>t. if t = 5 then [1, 5, 80] else [1, 6, 1]) (\<lambda>t. if t = 2 then 8 else 3)
         (\<lambda>_. Poll_ready True),
       pe_socketpair = Some (5, 6), pe_duplicate = \<lambda>_. 7, pe_spawn = \<lambda>_. 0, pe_pid = 77,
       pe_child = \<lparr>ce_waitpid = \<lambda>_. Wait_exited 0, ce_passes = \<lambda>_. 0\<rparr>, pe_burst = \<lambda>_. 5\<rparr>,
     pv_getpid = 42\<rparr>"

definition sample_query :: LoginSessionQuery where
  "sample_query later session = Inr \<lparr>ls_uid = 1000, ls_active = True, ls_remote = False\<rparr>"

definition sample_started :: PamService where
  "sample_started = snd (with_daemon (receive_start (pv_link sample_relay_env) 3) new_service)"

definition sample_verified :: "int result \<times> PamService" where
  "sample_verified = verify_user sample_relay_env sample_query 3 ''/proc/self/exe''
     (handler_arguments sample_relay_env ''u'' ''vauth'' ''/etc'') (1000, ''c1'') 1 sample_started"

lemma sample_verification_steps:
  "fst (with_daemon (receive_start (pv_link sample_relay_env) 3) new_service) = Inr (1000, ''c1'')"
  "fst sample_verified = Inr 0"
  "cl_traffic (ps_daemon (snd sample_verified)) = [(from_daemon, StartVerification 1000 ''c1''),
     (from_pam_verifier, SecretRequired ''P''), (from_daemon, SecretResponse [7]),
     (from_pam_verifier, VerificationComplete verification_success)]"
  by code_simp+

lemma sample_connection:
  "run_pam_verifier_connection sample_relay_env 3 900 ''/proc/self/exe'' ''vauth'' ''/etc'' 1 (Some sample_query) new_service =
     sample_verified"
proof -
  have start: "with_daemon (receive_start (pv_link sample_relay_env) 3) new_service = (Inr (1000, ''c1''), sample_started)"
    by (rule prod_eqI) (simp_all add: sample_verification_steps(1) sample_started_def)
  have peer: "bind_result (peer_credentials 3 (pv_peer sample_relay_env)) (\<lambda>peer. authorize_verifier_peer peer 900) = Inr ()"
    by (simp add: sample_relay_env_def peer_credentials_def require_open_def authorize_verifier_peer_def bind_result_def)
  have user: "bind_result (sample_query False ''c1'') (\<lambda>session. bind_result (authorize_verification_session (1000, ''c1'') session)
      (\<lambda>_. verification_username (pv_accounts sample_relay_env) 1000)) = Inr ''u''"
    by (simp add: sample_query_def authorize_verification_session_def validate_active_local_session_def bind_result_def
        verification_username_def sample_relay_env_def account_loop.simps)
  obtain s2 where "sample_verified = (Inr 0, s2)" using sample_verification_steps(2) by (metis prod.collapse)
  then show ?thesis
    using start peer user
    by (simp add: run_pam_verifier_connection_def exec_then_def exec_bind_def exec_guard_def exec_prim exec_catch_def
        or_complete_error_def sample_verified_def)
qed

lemma verifier_success_checked:
  assumes "run_pam_verifier_connection env fd expected program service confdir timeout (Some query) new_service = (r, s')"
    and "(from_pam_verifier, VerificationComplete verification_success) \<in> set (cl_traffic (ps_daemon s'))"
  shows "\<exists>peer uid session name mid run secrets. pv_peer env = Some (UCRED_SIZE, peer) \<and> cred_uid peer = expected \<and>
    cl_traffic (ps_daemon s') = (from_daemon, StartVerification uid session) # mid @
      [(from_pam_verifier, VerificationComplete verification_success)] \<and> all_answered mid \<and>
    session_authorized query False uid session \<and> session_authorized query True uid session \<and>
    verification_username (pv_accounts env) uid = Inr name \<and> ps_run s' = Some run \<and>
    handler_accepted env fd program (handler_arguments env name service confdir) uid session timeout run secrets \<and>
    (\<forall>secret \<in> secrets. (from_daemon, SecretResponse secret) \<in> set mid)"
proof -
  have "reports_success (ps_daemon s')" using assms(2) by (simp add: reports_success_def)
  with assms(1) obtain peer uid session name s1 r1 where who: "pv_peer env = Some (UCRED_SIZE, peer)" "cred_uid peer = expected"
    and start: "with_daemon (receive_start (pv_link env) fd) new_service = (Inr (uid, session), s1)"
    and first: "session_authorized query False uid session" "verification_username (pv_accounts env) uid = Inr name"
    and quiet1: "\<not> reports_success (ps_daemon s1)"
    and verify: "verify_user env query fd program (handler_arguments env name service confdir) (uid, session) timeout s1 = (r1, s')"
    by (rule connection_success)
  note verifying1 = receive_start_verifying [OF start]
  from verify quiet1 \<open>reports_success (ps_daemon s')\<close> obtain run s2 where
    handler: "run_handler env fd program (handler_arguments env name service confdir) (uid, session) timeout s1 =
      (Inr verification_success, s2)" "ps_run s2 = Some run" and stored: "ps_run s' = Some run"
    and again: "bind_result (query True (snd (uid, session))) (authorize_verification_session (uid, session)) = Inr ()"
    and traffic: "cl_traffic (ps_daemon s') = cl_traffic (ps_daemon s2) @
      [(from_pam_verifier, VerificationComplete verification_success)]"
    by (rule verify_user_success)
  note accepted = run_handler_accepted [OF handler verifying1(1)]
  from accepted(3) verifying1(2) obtain mid where mid: "cl_traffic (ps_daemon s2) = (from_daemon, StartVerification uid session) # mid"
    by auto
  with accepted(2) traffic have "run_conversation VerifierVerifying (mid @ [(from_pam_verifier, VerificationComplete verification_success)]) =
      Inr (VerifierCompleted verification_success)"
    by (auto simp: verifying_def run_conversation_append bind_result_def advance_verifier_conversation_def
        validate_message_enums_def is_valid_result_def require_def split: sum.splits)
  from run_to_completion [OF this] have "all_answered mid" by auto
  moreover have "\<forall>secret \<in> secrets_received (ps_daemon s2). (from_daemon, SecretResponse secret) \<in> set mid"
    using mid by (simp add: secrets_received_def)
  ultimately show ?thesis
    using who traffic mid first session_authorizedI [of query True "(uid, session)", OF again] stored accepted(1) by (intro exI conjI) simp_all
qed

text \<open>
  C37.  The privileged verifier reports success only for a peer that runs as the daemon's user, and only
  after the whole check: the daemon's request named a user and a login session that was that user's,
  active and local, before the check and again after it; the handler, run for that user's name, exited by
  itself with status zero after a complete conversation that ended in success; and every secret the
  handler was given is one the daemon sent in this conversation, every prompt of which was answered.
\<close>

theorem verifier_success_authentic:
  assumes "run_pam_verifier_connection env fd expected program service confdir timeout (Some query) new_service = (r, s')"
    and "(from_pam_verifier, VerificationComplete verification_success) \<in> set (cl_traffic (ps_daemon s'))"
  shows "\<exists>peer uid session name mid run secrets. pv_peer env = Some (UCRED_SIZE, peer) \<and> cred_uid peer = expected \<and>
    cl_traffic (ps_daemon s') = (from_daemon, StartVerification uid session) # mid @
      [(from_pam_verifier, VerificationComplete verification_success)] \<and> all_answered mid \<and>
    session_authorized query False uid session \<and> session_authorized query True uid session \<and>
    verification_username (pv_accounts env) uid = Inr name \<and> ps_run s' = Some run \<and>
    handler_accepted env fd program (handler_arguments env name service confdir) uid session timeout run secrets \<and>
    (\<forall>secret \<in> secrets. (from_daemon, SecretResponse secret) \<in> set mid)"
  by (rule verifier_success_checked [OF assms])

theorem verifier_success_authentic_witness:
  "run_pam_verifier_connection sample_relay_env 3 900 ''/proc/self/exe'' ''vauth'' ''/etc'' 1 (Some sample_query) new_service =
     (Inr 0, snd sample_verified) \<and> session_authorized sample_query True 1000 ''c1''"
proof -
  have run: "run_pam_verifier_connection sample_relay_env 3 900 ''/proc/self/exe'' ''vauth'' ''/etc'' 1 (Some sample_query) new_service =
      (Inr 0, snd sample_verified)"
    using sample_connection sample_verification_steps(2) by (simp add: prod_eq_iff)
  from verifier_success_authentic [OF run] sample_verification_steps(3) run show ?thesis by auto
qed

end
