(* ===== verification/Spec2Isabelle.thy ===== *)
theory Spec2Isabelle
  imports Ceremony_Laws Store_Security Key_Provider Interaction_Laws Pam_Verifier
begin

text \<open>
  Verification of the vAuth FIDO2 authenticator.  See the component theories.
\<close>

section \<open>A sample run\<close>

text \<open>A platform allocates channel 5 and asks for authenticatorGetInfo; the worker answers.\<close>

definition sample_input :: "bytes option \<Rightarrow> Input" where
  "sample_input frame = \<lparr>in_poll_failed = False, in_shutdown_error = False, in_shutdown_signal = None,
     in_device_error = False, in_device_ready = frame \<noteq> None, in_device_get = True, in_output = frame,
     in_now = 0, in_process_now = 0, in_task_now = 0, in_keepalive_now = 0, in_random = [5], in_send_ok = True\<rparr>"

definition sample_init_frame :: bytes where
  "sample_init_frame = be32 CTAPHID_BROADCAST_CID @ [0x86, 0, 8] @ replicate 57 1"

definition sample_info_frame :: bytes where
  "sample_info_frame = be32 5 @ [0x90, 0, 1] @ replicate 57 4"

definition sample_channel :: "u64 Daemon Loop" where
  "sample_channel = (initial_loop sample_daemon)\<lparr>allocated_cids := {5}\<rparr>"

definition sample_running :: "u64 Daemon Loop" where
  "sample_running = start_task (sample_request 0x04) 0 sample_channel"

definition sample_packet :: CTAPPacket where
  "sample_packet = \<lparr>pkt_cid = 5, pkt_cmd = CTAPHID_CBOR OR MASK, pkt_len = 33, pkt_payload = 0 # replicate 32 7\<rparr>"

definition sample_finished :: "u64 Daemon Loop" where
  "sample_finished = sample_running\<lparr>
     completion := Some \<lparr>res_generation = 1, res_cid = 5, res_packet = sample_packet\<rparr>,
     command_handler := sample_daemon,
     worker := Some \<lparr>wk_request = sample_request 0x04, wk_generation = 1, wk_stop_requested = False, wk_finished = True\<rparr>\<rparr>"

lemma sample_iteration:
  assumes "loop_ok ls" "loop_body reset (sample_input frame) ls = Some (sent, ls')"
  shows "loop_iteration reset (sample_input frame) ls = Some (sent, Looped, ls')"
proof (cases "send_packets True sent")
  case (Inl e)
  from send_packets_ok [OF Inl] loop_body_sends [OF assms] show ?thesis by blast
next
  case (Inr frames)
  with assms(2) show ?thesis by (simp add: loop_iteration_def) (simp add: sample_input_def)
qed

lemma sample_run_reachable:
  assumes "loop_reachable handle reset h0 ls" "loop_ok ls" "loop_body reset (sample_input frame) ls = Some (sent, ls')"
  shows "loop_reachable handle reset h0 ls'"
  using loop_reachable.step [OF assms(1) loop_step.iterate [OF sample_iteration [OF assms(2,3)]]] .

lemma sample_init_body:
  "\<exists>sent. loop_body reset_handler (sample_input (Some sample_init_frame)) (initial_loop sample_daemon) =
     Some (sent, sample_channel)"
proof -
  have "process_frame \<lparr>incoming = None\<rparr> sample_init_frame None {} 0 =
      (Report \<lparr>rep_cid = CTAPHID_BROADCAST_CID, rep_cmd = CTAPHID_INIT, rep_len = 8, rep_payload = replicate 8 1, rep_seq = 0\<rparr>,
       \<lparr>incoming = None\<rparr>)"
    by (simp add: process_frame_def strip_report_id_def process_initial_def start_transaction_def
        sample_init_frame_def nth_append ctaphid_defs of_be16_def Let_def min_def)
  then show ?thesis
    by (simp add: sample_input_def loop_body_def loop_expire_def expire_transaction_def initial_loop_def
      loop_device_def handle_report_def handle_init_request_def Let_def sample_channel_def ctaphid_defs
      CTAPHID_BROADCAST_CID_def CTAPHID_INVALID_CID_def)
qed

lemma sample_task_body:
  "loop_body reset_handler (sample_input (Some sample_info_frame)) sample_channel = Some ([], sample_running)"
proof -
  have "process_frame \<lparr>incoming = None\<rparr> sample_info_frame None {5} 0 = (Report (sample_request 0x04), \<lparr>incoming = None\<rparr>)"
    by (simp add: process_frame_def strip_report_id_def process_initial_def start_transaction_def
        sample_info_frame_def sample_request_def nth_append ctaphid_defs of_be16_def Let_def min_def)
  then show ?thesis
    by (simp add: sample_input_def loop_body_def loop_expire_def expire_transaction_def initial_loop_def
      loop_device_def handle_report_def Let_def sample_channel_def sample_running_def ctaphid_defs start_task_def
      loop_completion_def loop_keepalive_def milliseconds_def sample_request_def)
qed

lemma sample_worker:
  "worker_body (handle_command ctx sample_env) reset_handler
     \<lparr>wk_request = sample_request 0x04, wk_generation = 1, wk_stop_requested = False, wk_finished = False\<rparr> False sample_daemon =
   (\<lparr>res_generation = 1, res_cid = 5, res_packet = sample_packet\<rparr>, sample_daemon)"
proof -
  have "build_getinfo_response (env_emit sample_env) = Inr (0 # replicate 32 7)"
    by (simp add: build_getinfo_response_def encode_cbor_def append_cbor_def ctaphid_defs) (simp add: eval_nat_numeral)
  then show ?thesis
    by (simp add: worker_body_def execute_ctap_request_def handle_command_def handle_get_info_def cbor_packet_def
        worker_packet_def sample_packet_def ctaphid_defs Let_def reset_handler_def sample_daemon_def)
qed

lemma sample_reachable:
  "loop_reachable (handle_command lenient_context) reset_handler sample_daemon sample_running"
  "loop_reachable (handle_command lenient_context) reset_handler sample_daemon sample_finished"
proof -
  let ?R = "loop_reachable (handle_command lenient_context) reset_handler sample_daemon"
  have "?R (initial_loop sample_daemon)" by (rule loop_reachable.start)
  then have "?R sample_channel" using sample_init_body sample_run_reachable daemon.reachable_loop_ok by metis
  then show running: "?R sample_running" using sample_task_body sample_run_reachable daemon.reachable_loop_ok by metis
  have w: "worker sample_running = Some \<lparr>wk_request = sample_request 0x04, wk_generation = 1,
      wk_stop_requested = False, wk_finished = False\<rparr>" "command_handler sample_running = sample_daemon"
    by (simp_all add: sample_running_def start_task_def sample_channel_def initial_loop_def)
  have "loop_step (handle_command lenient_context) reset_handler sample_running [] sample_finished"
    using loop_step.finish [OF w(1), of False "handle_command lenient_context" sample_env reset_handler]
      sample_worker [of lenient_context] w(2)
    by (simp add: sample_finished_def)
  with running show "?R sample_finished" by (rule loop_reachable.step)
qed

lemma sample_delivery:
  "\<exists>ls'. loop_iteration reset_handler (sample_input None) sample_finished = Some ([sample_packet], Looped, ls')"
proof -
  have "\<exists>ls'. loop_body reset_handler (sample_input None) sample_finished = Some ([sample_packet], ls')"
    by (simp add: sample_input_def loop_body_def loop_expire_def expire_transaction_def loop_device_def loop_completion_def
        loop_keepalive_def sample_finished_def sample_running_def start_task_def sample_channel_def initial_loop_def Let_def)
  with sample_iteration [OF daemon.reachable_loop_ok [OF sample_reachable(2)]] show ?thesis by blast
qed

section \<open>The daemon as a whole\<close>

text \<open>
  C23.  Whatever frames arrive, however the loop and its worker interleave and whatever the user, the TPM
  and the disk answer, a daemon that starts from a well-formed store stays well-formed: the frame
  processor holds only bounded transactions of allocated channels, a task runs on the channel that
  asked for it with exactly one worker, its result belongs to it and can be sent, the store satisfies
  its invariant, and a pending assertion sequence refers only to stored credentials of its user.
\<close>

theorem daemon_always_ok:
  assumes "daemon_ok d0" "loop_reachable (handle_command ctx) reset_handler d0 ls"
  shows "loop_ok ls \<and> daemon_ok (command_handler ls)"
  using daemon.reachable_loop_ok [OF assms(2)] daemon.reachable_handler_ok [OF assms(2,1)] by blast

theorem daemon_always_ok_witness:
  "loop_ok sample_finished \<and> daemon_ok (command_handler sample_finished) \<and> active sample_finished \<noteq> None"
  using daemon_always_ok [OF sample_daemon_ok(1) sample_reachable(2)]
  by (simp add: sample_finished_def sample_running_def start_task_def)



text \<open>
  C25.  The command state is never touched behind a running worker: while the worker of a reachable
  state has not finished, no iteration of the loop changes the request object, the store or the world,
  so a reset is always deferred to the end of the command.
\<close>

theorem worker_owns_handler:
  assumes "loop_reachable (handle_command ctx) reset_handler d0 ls"
    and "loop_iteration reset_handler inp ls = Some (sent, Looped, ls')"
    and "worker ls = Some w" "\<not> wk_finished w"
  shows "command_handler ls' = command_handler ls"
  using loop_body_running_worker [OF daemon.reachable_loop_ok [OF assms(1)] loop_iteration_Looped [OF assms(2)] assms(3,4)] .

theorem worker_owns_handler_witness:
  "\<exists>sent ls'. loop_iteration reset_handler (sample_input None) sample_running = Some (sent, Looped, ls') \<and>
     command_handler ls' = sample_daemon"
proof -
  have "\<exists>sent ls'. loop_body reset_handler (sample_input None) sample_running = Some (sent, ls')"
    by (simp add: sample_input_def loop_body_def loop_device_def Let_def split: prod.split)
  then obtain sent ls' where run: "loop_iteration reset_handler (sample_input None) sample_running = Some (sent, Looped, ls')"
    using sample_iteration [OF daemon.reachable_loop_ok [OF sample_reachable(1)]] by blast
  from worker_owns_handler [OF sample_reachable(1) run] run show ?thesis
    by (simp add: sample_running_def start_task_def sample_channel_def initial_loop_def)
qed

text \<open>
  C26.  The loop survives every input: in a reachable state an iteration ends with an exception only
  when polling, the shutdown descriptor or the device itself failed; no frame a platform sends and no
  outcome of a command makes it throw.
\<close>

theorem loop_survives:
  assumes "loop_reachable (handle_command ctx) reset_handler d0 ls"
    and run: "loop_iteration reset_handler inp ls = Some (sent, Threw e, ls')"
  shows "in_poll_failed inp \<or> in_shutdown_error inp \<or> in_shutdown_signal inp = Some False \<or>
    in_device_error inp \<or> \<not> in_send_ok inp"
proof (rule ccontr)
  assume good: "\<not> ?thesis"
  with run obtain b where b: "loop_body reset_handler inp ls = Some b" "send_packets True (fst b) = Inl e"
    by (cases "loop_body reset_handler inp ls")
      (auto simp: loop_iteration_def split: if_splits option.splits sum.splits)
  from send_packets_ok [OF b(2)] obtain p where p: "p \<in> set (fst b)" "\<not> is_ok (stringify p)" by blast
  have "loop_body reset_handler inp ls = Some (fst b, snd b)" using b(1) by simp
  from loop_body_sends [OF daemon.reachable_loop_ok [OF assms(1)] this p(1)] p(2) show False by blast
qed

theorem loop_survives_witness:
  "\<exists>sent e ls'. loop_iteration reset_handler ((sample_input None)\<lparr>in_send_ok := False\<rparr>) sample_finished =
     Some (sent, Threw e, ls') \<and> (in_device_error (sample_input None) \<or> \<not> in_send_ok ((sample_input None)\<lparr>in_send_ok := False\<rparr>))"
proof -
  have "\<exists>sent e ls'. loop_iteration reset_handler ((sample_input None)\<lparr>in_send_ok := False\<rparr>) sample_finished =
     Some (sent, Threw e, ls')"
    by (simp add: sample_input_def loop_iteration_def loop_body_def loop_expire_def expire_transaction_def loop_device_def
        loop_completion_def loop_keepalive_def sample_finished_def sample_running_def start_task_def sample_channel_def
        initial_loop_def Let_def send_packet_def bind_result_def split: sum.splits)
  then obtain sent e ls' where run: "loop_iteration reset_handler ((sample_input None)\<lparr>in_send_ok := False\<rparr>) sample_finished =
     Some (sent, Threw e, ls')" by blast
  from loop_survives [OF sample_reachable(2) run] run show ?thesis by (simp add: sample_input_def)
qed

section \<open>Approvals\<close>

text \<open>
  The ceremonies with the daemon's own way of asking: the context and the answers come from the D-Bus
  service and the verifier, in the states \<open>before\<close> (when the user is looked up) and \<open>during\<close> (when consent
  is asked for).
\<close>

definition asking_env ::
    "ServiceEnv \<Rightarrow> VerifierEnv \<Rightarrow> time \<Rightarrow> string \<Rightarrow> Service Dialogue \<Rightarrow> Service Dialogue \<Rightarrow> Env \<Rightarrow> Env" where
  "asking_env senv venv start path before during env = env\<lparr>
     env_context := fst (interaction_context (service_channel senv) (env_stop env 0) (env_stop env 0) before),
     env_presence := (\<lambda>user request. fst (request_presence (service_channel senv) user request during)),
     env_verification := (\<lambda>user request. fst (request_verification (service_channel senv) venv start path user request during))\<rparr>"

lemma context_reported:
  assumes "fst (interaction_context (service_channel senv) a b before) = Inr user"
  shows "\<exists>t. session_is_still_active (se_logind senv t) user"
proof -
  obtain s' where "interaction_context (service_channel senv) a b before = (Inr user, s')"
    using assms by (metis prod.collapse)
  then obtain c c' where "service_current_context senv c = (Inr (Some user), c')"
    by (auto simp: interaction_context_def exec_simps via_def service_channel_def split: prod.splits option.splits)
  then show ?thesis by (rule reported_context_active)
qed

lemma sample_context:
  "fst (interaction_context (service_channel approving_env) False False sample_dialogue) = Inr sample_agent"
  using sample_agent_active [unfolded sample_agent_def]
  by (simp add: interaction_context_def via_def service_channel_def approving_env_simps sample_dialogue_def
      sample_registered_def sample_agent_def service_eval cancellation_point_def)



text \<open>The traffic of any verification that returns, whatever its callbacks do.\<close>

interpretation any_callbacks: client_callbacks cbs "\<lambda>_ _ _. True" for cbs
  by unfold_locales simp_all

text \<open>
  C39.  A success the daemon receives was decided by PAM.  When the messages the daemon exchanged are the
  ones the privileged verifier exchanged, and the ones the verifier's child exchanged are those of the
  handler it started, then a verification that ends in success at the daemon means that PAM, asked for
  the account of exactly the user the daemon named, accepted both the authentication and the account;
  that the verifier's peer ran as the daemon's user; that the user's session was active and local
  before and after; and that the handler was given only secrets the daemon sent.
\<close>

theorem success_reaches_pam:
  assumes daemon: "run_verifier_service venv path uid session timeout cbs (new_client c) = (Inr verification_success, client)"
    and verifier: "run_pam_verifier_connection penv fd expected program service confdir vtimeout (Some query) new_service = (r, ps)"
    and connection: "cl_traffic (ps_daemon ps) = cl_traffic client"
    and name: "verification_username (pv_accounts penv) uid = Inr name"
    and handler: "run_vauth_auth_handler pam henv (tl (handler_arguments penv name service confdir)) (new_client ()) = (code, h)"
    and child: "\<forall>run. ps_run ps = Some run \<longrightarrow> cl_traffic (su_client run) = cl_traffic h"
    and library: "\<forall>service user dir. pam_start_confdir pam service user dir \<noteq> (PAM_SUCCESS, None)"
  shows "(\<exists>hfd (s1 :: unit Client) s2. pam_accepts pam henv hfd name service confdir s1 s2) \<and>
    session_authorized query False uid session \<and> session_authorized query True uid session \<and>
    (\<exists>peer. pv_peer penv = Some (UCRED_SIZE, peer) \<and> cred_uid peer = expected) \<and>
    (\<forall>secret. (from_daemon, SecretResponse secret) \<in> set (cl_traffic h) \<longrightarrow>
       (from_daemon, SecretResponse secret) \<in> set (cl_traffic client))"
proof -
  from verdict_decided [OF daemon any_callbacks.verdict_traffic(1) [OF daemon]] obtain m where
    m: "cl_traffic client = (from_daemon, StartVerification uid session) # m @
      [(from_pam_verifier, VerificationComplete verification_success)]" by auto
  then have "(from_pam_verifier, VerificationComplete verification_success) \<in> set (cl_traffic (ps_daemon ps))"
    using connection by simp
  from verifier_success_checked [OF verifier this] obtain peer uid' session' name' mid run secrets where
    checked: "pv_peer penv = Some (UCRED_SIZE, peer)" "cred_uid peer = expected"
      "cl_traffic (ps_daemon ps) = (from_daemon, StartVerification uid' session') # mid @
        [(from_pam_verifier, VerificationComplete verification_success)]"
      "session_authorized query False uid' session'" "session_authorized query True uid' session'"
      "ps_run ps = Some run"
      "handler_accepted penv fd program (handler_arguments penv name' service confdir) uid' session' vtimeout run secrets"
      "\<forall>secret \<in> secrets. (from_daemon, SecretResponse secret) \<in> set mid" by blast
  from checked(3) m connection have same: "uid' = uid" "session' = session" "mid = m" by auto
  from checked(7) obtain inner where inner: "cl_traffic (su_client run) = (from_daemon, StartVerification uid' session') # inner @
      [(from_pam_verifier, VerificationComplete verification_success)]"
    "\<forall>secret. (from_daemon, SecretResponse secret) \<in> set inner \<longrightarrow> secret \<in> secrets"
    by (auto simp: handler_accepted_def)
  with child checked(6) have traffic: "cl_traffic h = (from_daemon, StartVerification uid' session') # inner @
      [(from_pam_verifier, VerificationComplete verification_success)]" by simp
  then have "(from_pam_verifier, VerificationComplete verification_success) \<in> set (cl_traffic h)" by simp
  with handler_outcome [OF library handler] have "\<exists>hfd (s1 :: unit Client) s2. pam_accepts pam henv hfd name service confdir s1 s2"
    by (fastforce simp: handler_arguments_def)
  moreover have "\<forall>secret. (from_daemon, SecretResponse secret) \<in> set (cl_traffic h) \<longrightarrow>
      (from_daemon, SecretResponse secret) \<in> set (cl_traffic client)"
    using traffic inner(2) checked(8) m same by auto
  ultimately show ?thesis using checked(1,2,4,5) same by blast
qed

text \<open>The three processes of the sample verification, which exchange the same messages.\<close>

definition sample_callbacks :: "unit Callbacks" where
  "sample_callbacks = \<lparr>cb_status = None, cb_secret = Some (\<lambda>_ _. exec_return [7]), cb_cancelled = None\<rparr>"

definition sample_client_run :: "VerificationResult result \<times> unit Client" where
  "sample_client_run = run_verifier_service accepting_verifier ''/run/v'' 1000 ''c1'' 1 sample_callbacks (new_client ())"

definition sample_handler_run :: "int \<times> unit Client" where
  "sample_handler_run = run_vauth_auth_handler sample_pam sample_handler_env
     (tl (handler_arguments sample_relay_env ''u'' ''vauth'' ''/etc'')) (new_client ())"

definition sample_conversation_log :: "(VerifierMessageSender \<times> VerifierMessage) list" where
  "sample_conversation_log = [(from_daemon, StartVerification 1000 ''c1''), (from_pam_verifier, SecretRequired ''P''),
     (from_daemon, SecretResponse [7]), (from_pam_verifier, VerificationComplete verification_success)]"

lemma sample_client:
  "fst sample_client_run = Inr verification_success" "cl_traffic (snd sample_client_run) = sample_conversation_log"
  by (simp_all add: sample_client_run_def sample_conversation_log_def sample_callbacks_def accepting_verifier_def sample_messages
      sample_conversation client_eval exec_bind_def exec_then_def exec_prim exec_catch_def Let_def numeral_2_eq_2
      del: encode_verifier_message.simps)

lemma sample_processes:
  "cl_traffic (snd sample_handler_run) = sample_conversation_log"
  "map_option (\<lambda>run. cl_traffic (su_client run)) (ps_run (snd sample_verified)) = Some sample_conversation_log"
  by code_simp+

lemma sample_account: "verification_username (pv_accounts sample_relay_env) uid = Inr ''u''"
  by (simp add: verification_username_def sample_relay_env_def account_loop.simps)

theorem success_reaches_pam_witness:
  "\<exists>hfd (s1 :: unit Client) s2. pam_accepts sample_pam sample_handler_env hfd ''u'' ''vauth'' ''/etc'' s1 s2"
proof -
  have client: "run_verifier_service accepting_verifier ''/run/v'' 1000 ''c1'' 1 sample_callbacks (new_client ()) =
      (Inr verification_success, snd sample_client_run)"
    using sample_client(1) by (simp add: sample_client_run_def prod_eq_iff)
  have verifier: "run_pam_verifier_connection sample_relay_env 3 900 ''/proc/self/exe'' ''vauth'' ''/etc'' 1 (Some sample_query)
      new_service = (fst sample_verified, snd sample_verified)" using sample_connection by simp
  have socket: "cl_traffic (ps_daemon (snd sample_verified)) = cl_traffic (snd sample_client_run)"
    using sample_verification_steps(3) sample_client(2) by (simp add: sample_conversation_log_def)
  have handler: "run_vauth_auth_handler sample_pam sample_handler_env (tl (handler_arguments sample_relay_env ''u'' ''vauth'' ''/etc''))
      (new_client ()) = (fst sample_handler_run, snd sample_handler_run)" by (simp add: sample_handler_run_def)
  have child: "\<forall>run. ps_run (snd sample_verified) = Some run \<longrightarrow> cl_traffic (su_client run) = cl_traffic (snd sample_handler_run)"
    using sample_processes by auto
  have "\<forall>service user dir. pam_start_confdir sample_pam service user dir \<noteq> (PAM_SUCCESS, None)" by (simp add: sample_pam_def)
  from success_reaches_pam [OF client verifier socket sample_account handler child this] show ?thesis by blast
qed

end
